(* ===== verification/Go_Prelude.thy ===== *)
theory Go_Prelude
  imports Main "HOL-Library.Word" "HOL-Library.AList" "HOL-Library.Char_ord"
    "HOL-Library.List_Lexorder" "HOL-Library.Multiset"
begin

text \<open>
  What every component of the operator shares: Go's error values and the outcome of a Go
  call (a value, a returned error, or a panic), Go maps as association lists, the parts of
  \<^verbatim>\<open>strings\<close>, \<^verbatim>\<open>strconv\<close>, \<^verbatim>\<open>fmt\<close> and \<^verbatim>\<open>sort\<close> the sources use, and the generic lemmas about
  them. The collection \<open>go_outcome\<close> holds the case rules of outcomes that the component
  proofs unfold with.
\<close>

named_theorems go_outcome \<open>case rules for the outcome of a Go call\<close>

section \<open>Error values and outcomes\<close>

text \<open>
  An \<^verbatim>\<open>error\<close> value. \<open>ErrMsg\<close> is a plain \<^verbatim>\<open>fmt.Errorf\<close>, \<open>ErrWrap m e\<close> is
  \<^verbatim>\<open>fmt.Errorf("m: %w", e)\<close>, \<open>APINotFound\<close>, \<open>APIInvalid\<close> and \<open>APIError\<close> are the API
  machinery's status errors with reason NotFound, Invalid and any other reason, and the last two are the
  error types of \<^verbatim>\<open>pkg/reconciler/common/errors.go\<close>.
\<close>

datatype go_error =
    ErrMsg string
  | ErrWrap string go_error
  | APINotFound string
  | APIInvalid string
  | APIError string
  | NonRecoverableError string
  | DeploymentsNotReadyError

datatype 'a res = Ok 'a | Err go_error | Panic string

primrec bind_res :: "'a res \<Rightarrow> ('a \<Rightarrow> 'b res) \<Rightarrow> 'b res" where
  "bind_res (Ok x) f = f x"
| "bind_res (Err e) f = Err e"
| "bind_res (Panic p) f = Panic p"

text \<open>\<^verbatim>\<open>if err != nil { return fmt.Errorf("m: %w", err) }\<close>\<close>

primrec wrap_err :: "string \<Rightarrow> 'a res \<Rightarrow> 'a res" where
  "wrap_err m (Ok x) = Ok x"
| "wrap_err m (Err e) = Err (ErrWrap m e)"
| "wrap_err m (Panic p) = Panic p"

text \<open>The chain that \<^verbatim>\<open>errors.Is\<close> and \<^verbatim>\<open>errors.As\<close> walk.\<close>

fun err_chain :: "go_error \<Rightarrow> go_error list" where
  "err_chain (ErrWrap m e) = ErrWrap m e # err_chain e"
| "err_chain e = [e]"

definition errors_Is :: "go_error \<Rightarrow> go_error \<Rightarrow> bool" where
  "errors_Is e target = List.member (err_chain e) target"

fun is_api_not_found :: "go_error \<Rightarrow> bool" where
  "is_api_not_found (APINotFound _) = True"
| "is_api_not_found _ = False"

text \<open>\<^verbatim>\<open>apierrors.IsNotFound\<close>: the first API status error of the chain has reason NotFound.\<close>

definition IsNotFound :: "go_error \<Rightarrow> bool" where
  "IsNotFound e = list_ex is_api_not_found (err_chain e)"

fun err_text :: "go_error \<Rightarrow> string" where
  "err_text (ErrMsg m) = m"
| "err_text (ErrWrap m e) = m @ '': '' @ err_text e"
| "err_text (APINotFound n) = n @ '' not found''"
| "err_text (APIInvalid n) = n @ '' is invalid''"
| "err_text (APIError m) = m"
| "err_text (NonRecoverableError m) = (if m \<noteq> '''' then m else ''non recoverable error'')"
| "err_text DeploymentsNotReadyError = ''deployments not ready''"

fun is_api_invalid :: "go_error \<Rightarrow> bool" where
  "is_api_invalid (APIInvalid _) = True"
| "is_api_invalid _ = False"

definition IsInvalid :: "go_error \<Rightarrow> bool" where
  "IsInvalid e = list_ex is_api_invalid (err_chain e)"

definition is_ok :: "'a res \<Rightarrow> bool" where
  "is_ok r = (case r of Ok _ \<Rightarrow> True | _ \<Rightarrow> False)"

definition is_panic :: "'a res \<Rightarrow> bool" where
  "is_panic r = (case r of Panic _ \<Rightarrow> True | _ \<Rightarrow> False)"

text \<open>A loop over a slice that returns at the first error or panic.\<close>

fun map_res :: "('a \<Rightarrow> 'b res) \<Rightarrow> 'a list \<Rightarrow> 'b list res" where
  "map_res f [] = Ok []"
| "map_res f (x # xs) = bind_res (f x) (\<lambda>y. bind_res (map_res f xs) (\<lambda>ys. Ok (y # ys)))"

fun fold_res :: "('a \<Rightarrow> 's \<Rightarrow> 's res) \<Rightarrow> 'a list \<Rightarrow> 's \<Rightarrow> 's res" where
  "fold_res f [] s = Ok s"
| "fold_res f (x # xs) s = bind_res (f x s) (fold_res f xs)"

lemma map_res_cong [fundef_cong]:
  "xs = ys \<Longrightarrow> (\<And>x. x \<in> set ys \<Longrightarrow> f x = g x) \<Longrightarrow> map_res f xs = map_res g ys"
  by (induction xs arbitrary: ys) auto

lemma bind_res_eq_Ok [go_outcome]:
  "bind_res r f = Ok y \<longleftrightarrow> (\<exists>x. r = Ok x \<and> f x = Ok y)"
  by (cases r) auto

lemma bind_res_eq_Err [go_outcome]:
  "bind_res r f = Err e \<longleftrightarrow> r = Err e \<or> (\<exists>x. r = Ok x \<and> f x = Err e)"
  by (cases r) auto

lemma bind_res_eq_Panic [go_outcome]:
  "bind_res r f = Panic p \<longleftrightarrow> r = Panic p \<or> (\<exists>x. r = Ok x \<and> f x = Panic p)"
  by (cases r) auto

lemma bind_res_assoc: "bind_res (bind_res r f) g = bind_res r (\<lambda>x. bind_res (f x) g)"
  by (cases r) auto

lemma wrap_err_eq_Ok [go_outcome, simp]: "wrap_err m r = Ok x \<longleftrightarrow> r = Ok x"
  by (cases r) auto

lemma wrap_err_eq_Panic [go_outcome, simp]: "wrap_err m r = Panic p \<longleftrightarrow> r = Panic p"
  by (cases r) auto

lemma wrap_err_eq_Err [go_outcome]:
  "wrap_err m r = Err e \<longleftrightarrow> (\<exists>e'. r = Err e' \<and> e = ErrWrap m e')"
  by (cases r) auto

lemma is_ok_simps [simp]: "is_ok (Ok x)" "\<not> is_ok (Err e)" "\<not> is_ok (Panic p)"
  by (simp_all add: is_ok_def)

lemma is_panic_simps [simp]: "\<not> is_panic (Ok x)" "\<not> is_panic (Err e)" "is_panic (Panic p)"
  by (simp_all add: is_panic_def)

lemma IsNotFound_simps [simp]:
  "IsNotFound (ErrWrap m e) = IsNotFound e"
  "IsNotFound (APINotFound n)" "\<not> IsNotFound (ErrMsg m)" "\<not> IsNotFound (APIError m)"
  "\<not> IsNotFound (APIInvalid m)" "\<not> IsNotFound (NonRecoverableError m)" "\<not> IsNotFound DeploymentsNotReadyError"
  by (simp_all add: IsNotFound_def)

lemma errors_Is_wrap:
  "\<forall>m e. t \<noteq> ErrWrap m e \<Longrightarrow> errors_Is (ErrWrap m e) t = errors_Is e t"
  by (auto simp: errors_Is_def)

lemma map_res_Ok_length: "map_res f xs = Ok ys \<Longrightarrow> length ys = length xs"
  by (induction xs arbitrary: ys) (auto simp: go_outcome)

lemma map_res_Ok_nth:
  "map_res f xs = Ok ys \<Longrightarrow> i < length xs \<Longrightarrow> f (xs ! i) = Ok (ys ! i)"
proof (induction xs arbitrary: ys i)
  case (Cons x xs)
  then show ?case by (cases i) (auto simp: go_outcome)
qed simp

lemma map_res_total:
  "(\<And>x. x \<in> set xs \<Longrightarrow> f x = Ok (g x)) \<Longrightarrow> map_res f xs = Ok (map g xs)"
  by (induction xs) auto

lemma map_res_append:
  "map_res f (xs @ ys) = bind_res (map_res f xs) (\<lambda>us. bind_res (map_res f ys) (\<lambda>vs. Ok (us @ vs)))"
proof (induction xs)
  case Nil
  show ?case by (cases "map_res f ys") auto
next
  case (Cons x xs)
  then show ?case
    by (cases "f x"; cases "map_res f xs"; cases "map_res f ys") auto
qed

lemma map_res_map_eq:
  "map_res f xs = Ok ys \<Longrightarrow> (\<And>x y. x \<in> set xs \<Longrightarrow> f x = Ok y \<Longrightarrow> h y = k x) \<Longrightarrow> map h ys = map k xs"
  by (induction xs arbitrary: ys) (auto simp: go_outcome)

lemma fold_res_invariant:
  "(\<And>x s s'. x \<in> set xs \<Longrightarrow> P s \<Longrightarrow> f x s = Ok s' \<Longrightarrow> P s') \<Longrightarrow> P s \<Longrightarrow> fold_res f xs s = Ok s' \<Longrightarrow> P s'"
proof (induction xs arbitrary: s)
  case (Cons x xs)
  from Cons.prems(3) obtain t where t: "f x s = Ok t" "fold_res f xs t = Ok s'"
    by (auto simp: go_outcome)
  with Cons.prems(1) [of x s t] Cons.prems(2) have "P t" by simp
  then show ?case
  proof (rule Cons.IH [rotated])
    fix y s s'
    assume "y \<in> set xs" "P s" "f y s = Ok s'"
    then show "P s'" using Cons.prems(1) [of y s s'] by simp
  qed (rule t(2))
qed simp

section \<open>Go maps\<close>

text \<open>
  A Go map is an association list; the list is one iteration order of the map, so a
  \<^verbatim>\<open>range\<close> loop is a recursion over it. \<^const>\<open>AList.update\<close> is \<^verbatim>\<open>m[k] = v\<close>,
  \<^const>\<open>AList.delete\<close> is \<^verbatim>\<open>delete(m, k)\<close>, \<^const>\<open>map_of\<close> is the two-valued lookup and
  \<open>get_or\<close> the one-valued one. A nil map is distinguished where the code distinguishes it.
\<close>

type_synonym 'v gomap = "(string \<times> 'v) list"

definition get_or :: "'v \<Rightarrow> 'v gomap \<Rightarrow> string \<Rightarrow> 'v" where
  "get_or z m k = (case map_of m k of Some v \<Rightarrow> v | None \<Rightarrow> z)"

text \<open>\<^verbatim>\<open>for k, v := range src { tgt[k] = v }\<close>\<close>

fun put_all :: "('k \<times> 'v) list \<Rightarrow> ('k \<times> 'v) list \<Rightarrow> ('k \<times> 'v) list" where
  "put_all [] tgt = tgt"
| "put_all ((k, v) # src) tgt = put_all src (AList.update k v tgt)"

lemma map_of_update [simp]: "map_of (AList.update k v m) = (map_of m)(k \<mapsto> v)"
  by (simp add: update_conv')

lemma map_of_delete [simp]: "map_of (AList.delete k m) = (map_of m)(k := None)"
  by (simp add: delete_conv')

lemma map_of_put_all:
  "distinct (map fst src) \<Longrightarrow> map_of (put_all src tgt) = map_of tgt ++ map_of src"
proof (induction src tgt rule: put_all.induct)
  case (2 k v src tgt)
  then have "map_of src k = None"
    by (simp add: map_of_eq_None_iff)
  with 2 show ?case
    by (auto simp: map_add_def fun_eq_iff split: option.splits)
qed simp

lemma distinct_put_all [simp]:
  "distinct (map fst tgt) \<Longrightarrow> distinct (map fst (put_all src tgt))"
  by (induction src tgt rule: put_all.induct) (simp_all add: distinct_update)

lemma put_all_order_irrelevant:
  assumes "mset src = mset src'" and "distinct (map fst src)"
  shows "map_of (put_all src tgt) = map_of (put_all src' tgt)"
proof -
  have "mset (map fst src) = mset (map fst src')"
    using assms(1) by simp
  then have d: "distinct (map fst src')"
    using assms(2) mset_eq_imp_distinct_iff by blast
  moreover have "map_of src = map_of src'"
    using assms d by (metis map_of_eqI map_of_inject_set mset_eq_setD list.set_map)
  ultimately show ?thesis
    using assms(2) by (simp add: map_of_put_all)
qed

section \<open>Strings\<close>

text \<open>A Go string is its bytes. \<open>is_ascii\<close> is the test of the fast paths of \<^verbatim>\<open>strings\<close>.\<close>

definition is_ascii :: "string \<Rightarrow> bool" where
  "is_ascii s = list_all (\<lambda>c. of_char c < (128 :: nat)) s"

definition ascii_lower :: "char \<Rightarrow> char" where
  "ascii_lower c = (let n = (of_char c :: nat) in if 65 \<le> n \<and> n \<le> 90 then char_of (n + 32) else c)"

definition ascii_upper :: "char \<Rightarrow> char" where
  "ascii_upper c = (let n = (of_char c :: nat) in if 97 \<le> n \<and> n \<le> 122 then char_of (n - 32) else c)"

text \<open>
  \<^verbatim>\<open>strings.ToLower\<close> and \<^verbatim>\<open>strings.ToUpper\<close>: byte-wise on ASCII strings; on other strings the
  Unicode case tables decide, which enter as the argument \<open>uni\<close>.
\<close>

definition ToLower :: "(string \<Rightarrow> string) \<Rightarrow> string \<Rightarrow> string" where
  "ToLower uni s = (if is_ascii s then map ascii_lower s else uni s)"

definition ToUpper :: "(string \<Rightarrow> string) \<Rightarrow> string \<Rightarrow> string" where
  "ToUpper uni s = (if is_ascii s then map ascii_upper s else uni s)"

fun HasPrefix :: "string \<Rightarrow> string \<Rightarrow> bool" where
  "HasPrefix s [] = True"
| "HasPrefix [] (p # ps) = False"
| "HasPrefix (c # s) (p # ps) = (c = p \<and> HasPrefix s ps)"

fun Join :: "string list \<Rightarrow> string \<Rightarrow> string" where
  "Join [] sep = ''''"
| "Join [x] sep = x"
| "Join (x # y # ys) sep = x @ sep @ Join (y # ys) sep"

text \<open>\<^verbatim>\<open>strings.Split(s, sep)\<close> for a one-byte separator, and \<^verbatim>\<open>strings.SplitN(s, sep, 2)\<close>.\<close>

fun Split :: "char \<Rightarrow> string \<Rightarrow> string list" where
  "Split d [] = ['''']"
| "Split d (c # s) =
     (if c = d then '''' # Split d s
      else (case Split d s of [] \<Rightarrow> [[c]] | w # ws \<Rightarrow> (c # w) # ws))"

fun SplitN2 :: "char \<Rightarrow> string \<Rightarrow> string \<times> string option" where
  "SplitN2 d [] = ('''', None)"
| "SplitN2 d (c # s) =
     (if c = d then ('''', Some s) else (case SplitN2 d s of (a, b) \<Rightarrow> (c # a, b)))"

text \<open>\<^verbatim>\<open>fmt\<close>'s \<^verbatim>\<open>%d\<close>\<close>

fun nat_digits :: "nat \<Rightarrow> string" where
  "nat_digits n = (if n < 10 then [char_of (48 + n)]
     else nat_digits (n div 10) @ [char_of (48 + n mod 10)])"

declare nat_digits.simps [simp del]

definition int_str :: "int \<Rightarrow> string" where
  "int_str i = (if i < 0 then ''-'' @ nat_digits (nat (- i)) else nat_digits (nat i))"

lemma HasPrefix_iff: "HasPrefix s p \<longleftrightarrow> (\<exists>r. s = p @ r)"
  by (induction s p rule: HasPrefix.induct) auto

lemma HasPrefix_append [simp]: "HasPrefix (p @ s) p"
  by (simp add: HasPrefix_iff)

lemma Split_nonempty [simp]: "Split d s \<noteq> []"
  by (induction s) (auto split: list.splits)

lemma Join_Split: "Join (Split d s) [d] = s"
proof (induction s)
  case (Cons c s)
  obtain w ws where s: "Split d s = w # ws"
    using Split_nonempty by (meson neq_Nil_conv)
  show ?case
  proof (cases "c = d")
    case True
    with s Cons.IH show ?thesis by simp
  next
    case False
    have "Join ((c # w) # ws) [d] = c # Join (w # ws) [d]"
      by (cases ws) simp_all
    with False s Cons.IH show ?thesis by simp
  qed
qed simp

lemma SplitN2_join:
  "SplitN2 d s = (a, b) \<Longrightarrow> d \<notin> set a \<and> s = a @ (case b of None \<Rightarrow> '''' | Some r \<Rightarrow> d # r)"
  by (induction s arbitrary: a b) (auto split: if_splits prod.splits option.splits)

section \<open>Sorting small slices\<close>

text \<open>
  \<^verbatim>\<open>sort.Slice\<close> on at most twelve elements is an insertion sort (the \<^verbatim>\<open>pdqsort_func\<close>
  of the Go library): \<open>x\<close> moves left past the elements it is less than. It is stable.
\<close>

fun insert_less :: "('a \<Rightarrow> 'a \<Rightarrow> bool) \<Rightarrow> 'a \<Rightarrow> 'a list \<Rightarrow> 'a list" where
  "insert_less lt x [] = [x]"
| "insert_less lt x (y # ys) = (if lt x y then x # y # ys else y # insert_less lt x ys)"

definition sort_slice :: "('a \<Rightarrow> 'a \<Rightarrow> bool) \<Rightarrow> 'a list \<Rightarrow> 'a list" where
  "sort_slice lt xs = foldl (\<lambda>acc x. insert_less lt x acc) [] xs"

text \<open>What \<^verbatim>\<open>sort.Slice\<close> promises at any length: a permutation that is ordered.\<close>

definition slice_sorted :: "('a \<Rightarrow> 'a \<Rightarrow> bool) \<Rightarrow> 'a list \<Rightarrow> bool" where
  "slice_sorted lt xs = sorted_wrt (\<lambda>a b. \<not> lt b a) xs"

lemma mset_insert_less [simp]: "mset (insert_less lt x ys) = add_mset x (mset ys)"
  by (induction ys) auto

lemma set_insert_less [simp]: "set (insert_less lt x ys) = insert x (set ys)"
  by (induction ys) auto

lemma mset_sort_slice [simp]: "mset (sort_slice lt xs) = mset xs"
proof -
  have "mset (foldl (\<lambda>acc x. insert_less lt x acc) ys xs) = mset ys + mset xs" for ys
    by (induction xs arbitrary: ys) auto
  from this [of "[]"] show ?thesis by (simp add: sort_slice_def)
qed

lemma set_sort_slice [simp]: "set (sort_slice lt xs) = set xs"
  by (metis mset_sort_slice set_mset_mset)

lemma length_sort_slice [simp]: "length (sort_slice lt xs) = length xs"
  by (metis mset_sort_slice size_mset)

lemma distinct_map_sort_slice [simp]: "distinct (map f (sort_slice lt xs)) = distinct (map f xs)"
  by (metis mset_eq_imp_distinct_iff mset_map mset_sort_slice)

lemma insert_less_sorted:
  assumes tr: "\<And>a b c. lt a b \<Longrightarrow> \<not> lt c b \<Longrightarrow> lt a c"
    and asym: "\<And>a b. lt a b \<Longrightarrow> \<not> lt b a"
  shows "slice_sorted lt ys \<Longrightarrow> slice_sorted lt (insert_less lt x ys)"
proof (induction ys)
  case (Cons y ys)
  then have ys: "slice_sorted lt ys" and y: "\<And>b. b \<in> set ys \<Longrightarrow> \<not> lt b y"
    by (simp_all add: slice_sorted_def)
  show ?case
  proof (cases "lt x y")
    case True
    have "\<not> lt b x" if "b \<in> set ys" for b
      using tr [OF True y [OF that]] asym by blast
    with True Cons.prems asym show ?thesis by (simp add: slice_sorted_def)
  next
    case False
    with Cons.IH [OF ys] y show ?thesis by (simp add: slice_sorted_def)
  qed
qed (simp add: slice_sorted_def)

lemma sort_slice_sorted:
  assumes tr: "\<And>a b c. lt a b \<Longrightarrow> \<not> lt c b \<Longrightarrow> lt a c"
    and asym: "\<And>a b. lt a b \<Longrightarrow> \<not> lt b a"
  shows "slice_sorted lt (sort_slice lt xs)"
proof -
  have "slice_sorted lt ys \<Longrightarrow> slice_sorted lt (foldl (\<lambda>acc x. insert_less lt x acc) ys xs)" for ys
  proof (induction xs arbitrary: ys)
    case (Cons x xs)
    then show ?case using insert_less_sorted [of lt, OF tr asym] by simp
  qed simp
  from this [of "[]"] show ?thesis by (simp add: sort_slice_def slice_sorted_def)
qed

end
