(* ===== verification/Unstructured.thy ===== *)
theory Unstructured
  imports Go_Prelude
begin

text \<open>
  Kubernetes objects as the operator handles them: \<^verbatim>\<open>unstructured.Unstructured\<close>, a tree of
  \<^verbatim>\<open>map[string]interface{}\<close> values, with the nested accessors and setters of
  \<^verbatim>\<open>k8s.io/apimachinery/pkg/apis/meta/v1/unstructured\<close> (helpers.go, unstructured.go) that the
  transformers call. The locale \<open>field_store\<close> states what a path-addressed store promises
  (read-after-write and framing); its interpretation on the nested accessors is what the
  transformer theories rest on.
\<close>

section \<open>Values and nested access\<close>

text \<open>
  The dynamic types of an \<^verbatim>\<open>interface{}\<close> in decoded JSON. A \<^verbatim>\<open>float64\<close> is kept as its 64 bits,
  since the operator only passes floats on.
\<close>

datatype gval =
    GNil
  | GBool bool
  | GInt "64 word"
  | GFloat "64 word"
  | GString string
  | GSlice "gval list"
  | GMap "(string \<times> gval) list"

type_synonym gobj = "(string \<times> gval) list"

text \<open>\<^verbatim>\<open>(val, found, err)\<close>: \<open>Ok (Some v)\<close> is found, \<open>Ok None\<close> is not found.\<close>

fun nested_field :: "gval \<Rightarrow> string list \<Rightarrow> gval option res" where
  "nested_field v [] = Ok (Some v)"
| "nested_field GNil (f # fs) = Ok None"
| "nested_field (GMap m) (f # fs) =
     (case map_of m f of None \<Rightarrow> Ok None | Some v \<Rightarrow> nested_field v fs)"
| "nested_field v (f # fs) = Err (ErrMsg ''accessor error: expected map[string]interface{}'')"

definition NestedFieldNoCopy :: "gobj \<Rightarrow> string list \<Rightarrow> gval option res" where
  "NestedFieldNoCopy obj fs = nested_field (GMap obj) fs"

definition NestedString :: "gobj \<Rightarrow> string list \<Rightarrow> string option res" where
  "NestedString obj fs = bind_res (NestedFieldNoCopy obj fs) (\<lambda>r. case r of
       None \<Rightarrow> Ok None
     | Some (GString s) \<Rightarrow> Ok (Some s)
     | Some _ \<Rightarrow> Err (ErrMsg ''accessor error: expected string''))"

definition NestedInt64 :: "gobj \<Rightarrow> string list \<Rightarrow> (64 word) option res" where
  "NestedInt64 obj fs = bind_res (NestedFieldNoCopy obj fs) (\<lambda>r. case r of
       None \<Rightarrow> Ok None
     | Some (GInt i) \<Rightarrow> Ok (Some i)
     | Some _ \<Rightarrow> Err (ErrMsg ''accessor error: expected int64''))"

text \<open>\<open>Ok None\<close> is not found or explicitly null: both give a nil map.\<close>

fun coerce_string :: "gval \<Rightarrow> string res" where
  "coerce_string (GString s) = Ok s"
| "coerce_string GNil = Ok ''''"
| "coerce_string v = Err (ErrMsg ''accessor error: contains non-string value in the map'')"

definition string_map_of :: "gobj \<Rightarrow> string gomap res" where
  "string_map_of m = map_res (\<lambda>(k, v). bind_res (coerce_string v) (\<lambda>s. Ok (k, s))) m"

definition NestedNullCoercingStringMap :: "gobj \<Rightarrow> string list \<Rightarrow> string gomap option res" where
  "NestedNullCoercingStringMap obj fs = bind_res (NestedFieldNoCopy obj fs) (\<lambda>r. case r of
       None \<Rightarrow> Ok None
     | Some GNil \<Rightarrow> Ok None
     | Some (GMap m) \<Rightarrow> bind_res (string_map_of m) (\<lambda>sm. Ok (Some sm))
     | Some _ \<Rightarrow> Err (ErrMsg ''accessor error: expected map[string]interface{}''))"

fun SetNestedField :: "gobj \<Rightarrow> gval \<Rightarrow> string list \<Rightarrow> gobj res" where
  "SetNestedField obj v [] = Panic ''slice bounds out of range''"
| "SetNestedField obj v [f] = Ok (AList.update f v obj)"
| "SetNestedField obj v (f # g # fs) =
     (case map_of obj f of
        None \<Rightarrow> bind_res (SetNestedField [] v (g # fs)) (\<lambda>m. Ok (AList.update f (GMap m) obj))
      | Some (GMap m') \<Rightarrow> bind_res (SetNestedField m' v (g # fs)) (\<lambda>m. Ok (AList.update f (GMap m) obj))
      | Some _ \<Rightarrow> Err (ErrMsg ''value cannot be set because a path element is not a map[string]interface{}''))"

fun RemoveNestedField :: "gobj \<Rightarrow> string list \<Rightarrow> gobj" where
  "RemoveNestedField obj [] = obj"
| "RemoveNestedField obj [f] = AList.delete f obj"
| "RemoveNestedField obj (f # g # fs) =
     (case map_of obj f of
        Some (GMap m) \<Rightarrow> AList.update f (GMap (RemoveNestedField m (g # fs))) obj
      | _ \<Rightarrow> obj)"

definition getNestedString :: "gobj \<Rightarrow> string list \<Rightarrow> string" where
  "getNestedString obj fs = (case NestedString obj fs of Ok (Some s) \<Rightarrow> s | _ \<Rightarrow> '''')"

text \<open>The methods of \<^verbatim>\<open>Unstructured\<close> ignore the setter's error.\<close>

definition setNestedField :: "gobj \<Rightarrow> gval \<Rightarrow> string list \<Rightarrow> gobj" where
  "setNestedField obj v fs = (case SetNestedField obj v fs of Ok m \<Rightarrow> m | _ \<Rightarrow> obj)"

section \<open>Identity, labels and owners\<close>

definition GetAPIVersion :: "gobj \<Rightarrow> string" where
  "GetAPIVersion u = getNestedString u [''apiVersion'']"

definition GetKind :: "gobj \<Rightarrow> string" where
  "GetKind u = getNestedString u [''kind'']"

definition GetNamespace :: "gobj \<Rightarrow> string" where
  "GetNamespace u = getNestedString u [''metadata'', ''namespace'']"

definition GetName :: "gobj \<Rightarrow> string" where
  "GetName u = getNestedString u [''metadata'', ''name'']"

definition GetGenerateName :: "gobj \<Rightarrow> string" where
  "GetGenerateName u = getNestedString u [''metadata'', ''generateName'']"

definition GetLabels :: "gobj \<Rightarrow> string gomap option" where
  "GetLabels u = (case NestedNullCoercingStringMap u [''metadata'', ''labels''] of Ok r \<Rightarrow> r | _ \<Rightarrow> None)"

definition GetAnnotations :: "gobj \<Rightarrow> string gomap option" where
  "GetAnnotations u = (case NestedNullCoercingStringMap u [''metadata'', ''annotations''] of Ok r \<Rightarrow> r | _ \<Rightarrow> None)"

definition SetAnnotations :: "gobj \<Rightarrow> string gomap \<Rightarrow> gobj" where
  "SetAnnotations u m = setNestedField u (GMap (map (\<lambda>(k, v). (k, GString v)) m)) [''metadata'', ''annotations'']"

record gvk =
  Group :: string
  Version :: string
  Kind :: string

text \<open>\<^verbatim>\<open>schema.ParseGroupVersion\<close>: \<open>None\<close> is the error of more than one slash.\<close>

definition ParseGroupVersion :: "string \<Rightarrow> (string \<times> string) option" where
  "ParseGroupVersion gv =
     (if gv = '''' \<or> gv = ''/'' then Some ('''', '''')
      else case Split (CHR ''/'') gv of
          [v] \<Rightarrow> Some ('''', v)
        | [g, v] \<Rightarrow> Some (g, v)
        | _ \<Rightarrow> None)"

definition GroupVersionKind :: "gobj \<Rightarrow> gvk" where
  "GroupVersionKind u = (case ParseGroupVersion (GetAPIVersion u) of
       None \<Rightarrow> \<lparr>Group = '''', Version = '''', Kind = ''''\<rparr>
     | Some (g, v) \<Rightarrow> \<lparr>Group = g, Version = v, Kind = GetKind u\<rparr>)"

definition FromAPIVersionAndKind :: "string \<Rightarrow> string \<Rightarrow> gvk" where
  "FromAPIVersionAndKind apiVersion kind = (case ParseGroupVersion apiVersion of
       Some (g, v) \<Rightarrow> \<lparr>Group = g, Version = v, Kind = kind\<rparr>
     | None \<Rightarrow> \<lparr>Group = '''', Version = '''', Kind = kind\<rparr>)"

definition GroupVersion_String :: "gvk \<Rightarrow> string" where
  "GroupVersion_String g = (if Group g \<noteq> '''' then Group g @ ''/'' @ Version g else Version g)"

record owner_reference =
  or_APIVersion :: string
  or_Kind :: string
  or_Name :: string
  or_UID :: string
  or_Controller :: "bool option"
  or_BlockOwnerDeletion :: "bool option"

text \<open>The converter's image of an \<^verbatim>\<open>OwnerReference\<close> (unset pointers are omitted).\<close>

definition owner_reference_to_unstructured :: "owner_reference \<Rightarrow> gval" where
  "owner_reference_to_unstructured r = GMap (
     [(''apiVersion'', GString (or_APIVersion r)), (''kind'', GString (or_Kind r)),
      (''name'', GString (or_Name r)), (''uid'', GString (or_UID r))]
     @ (case or_Controller r of None \<Rightarrow> [] | Some b \<Rightarrow> [(''controller'', GBool b)])
     @ (case or_BlockOwnerDeletion r of None \<Rightarrow> [] | Some b \<Rightarrow> [(''blockOwnerDeletion'', GBool b)]))"

definition SetOwnerReferences :: "gobj \<Rightarrow> owner_reference list \<Rightarrow> gobj" where
  "SetOwnerReferences u refs =
     setNestedField u (GSlice (map owner_reference_to_unstructured refs)) [''metadata'', ''ownerReferences'']"

text \<open>What identifies a resource to the operator's guards and to the API server.\<close>

type_synonym resource_key = "gvk \<times> string \<times> string \<times> string"

definition res_key :: "gobj \<Rightarrow> resource_key" where
  "res_key u = (GroupVersionKind u, GetKind u, GetNamespace u, GetName u)"

section \<open>The store laws\<close>

text \<open>
  A path-addressed store: a write is seen by a read at the same path, and leaves every read
  at a path that neither extends nor is extended by it. \<open>sep\<close> says two paths are apart.
\<close>

locale field_store =
  fixes read :: "'o \<Rightarrow> 'p \<Rightarrow> 'v option res"
    and update :: "'o \<Rightarrow> 'v \<Rightarrow> 'p \<Rightarrow> 'o res"
    and sep :: "'p \<Rightarrow> 'p \<Rightarrow> bool"
  assumes read_update: "update ob v p = Ok ob' \<Longrightarrow> read ob' p = Ok (Some v)"
    and read_update_sep: "update ob v p = Ok ob' \<Longrightarrow> sep p q \<Longrightarrow> read ob' q = read ob q"
begin

lemma update_twice:
  assumes "update ob v p = Ok ob1" and "update ob1 w q = Ok ob2" and "sep q p"
  shows "read ob2 p = Ok (Some v)" and "read ob2 q = Ok (Some w)"
  using assms read_update read_update_sep by auto

lemma reads_preserved:
  assumes "update ob v p = Ok ob'" and "\<And>q. q \<in> Q \<Longrightarrow> sep p q"
  shows "\<forall>q\<in>Q. read ob' q = read ob q"
  using assms read_update_sep by blast

end

fun path_sep :: "string list \<Rightarrow> string list \<Rightarrow> bool" where
  "path_sep (f # fs) (g # gs) = (f \<noteq> g \<or> path_sep fs gs)"
| "path_sep _ _ = False"

lemma path_sep_sym: "path_sep p q = path_sep q p"
  by (induction p q rule: path_sep.induct) auto

lemma NestedFieldNoCopy_Cons:
  "NestedFieldNoCopy obj (f # fs) =
     (case map_of obj f of None \<Rightarrow> Ok None | Some v \<Rightarrow> nested_field v fs)"
  by (simp add: NestedFieldNoCopy_def)

lemma SetNestedField_read:
  "SetNestedField obj v p = Ok obj' \<Longrightarrow> NestedFieldNoCopy obj' p = Ok (Some v)"
proof (induction obj v p arbitrary: obj' rule: SetNestedField.induct)
  case (3 obj v f g fs)
  then show ?case
    by (auto simp: NestedFieldNoCopy_def go_outcome split: option.splits gval.splits)
qed (auto simp: NestedFieldNoCopy_Cons)

lemma SetNestedField_frame:
  "SetNestedField obj v p = Ok obj' \<Longrightarrow> path_sep p q \<Longrightarrow>
     NestedFieldNoCopy obj' q = NestedFieldNoCopy obj q"
proof (induction obj v p arbitrary: obj' q rule: SetNestedField.induct)
  case (2 obj v f)
  then show ?case by (cases q) (auto simp: NestedFieldNoCopy_Cons)
next
  case (3 obj v f g fs)
  then obtain h q' where q: "q = h # q'"
    by (cases q) auto
  show ?case
  proof (cases "h = f")
    case True
    with 3(4) q have sep: "path_sep (g # fs) q'" by simp
    then have q': "q' \<noteq> []" by auto
    show ?thesis
    proof (cases "map_of obj f")
      case None
      with 3(3) obtain m where m: "SetNestedField [] v (g # fs) = Ok m" "obj' = AList.update f (GMap m) obj"
        by (auto simp: go_outcome)
      with 3(1) [OF None m(1) sep] q' True q None show ?thesis
        by (cases q') (simp_all add: NestedFieldNoCopy_Cons)
    next
      case (Some w)
      with 3(3) obtain m' m where m: "w = GMap m'" "SetNestedField m' v (g # fs) = Ok m"
        "obj' = AList.update f (GMap m) obj"
        by (auto simp: go_outcome split: gval.splits)
      from 3(2) [OF Some m(1,2) sep] True q Some m show ?thesis
        by (simp add: NestedFieldNoCopy_Cons NestedFieldNoCopy_def)
    qed
  next
    case False
    with 3(3) q show ?thesis
      by (auto simp: NestedFieldNoCopy_Cons go_outcome split: option.splits gval.splits)
  qed
qed simp

interpretation fields: field_store NestedFieldNoCopy SetNestedField path_sep
  by unfold_locales (auto intro: SetNestedField_read SetNestedField_frame)

lemma getNestedString_cong:
  "NestedFieldNoCopy u fs = NestedFieldNoCopy u' fs \<Longrightarrow> getNestedString u fs = getNestedString u' fs"
  by (simp add: getNestedString_def NestedString_def)

lemma res_key_cong:
  assumes "NestedFieldNoCopy u [''apiVersion''] = NestedFieldNoCopy u' [''apiVersion'']"
    and "NestedFieldNoCopy u [''kind''] = NestedFieldNoCopy u' [''kind'']"
    and "NestedFieldNoCopy u [''metadata'', ''namespace''] = NestedFieldNoCopy u' [''metadata'', ''namespace'']"
    and "NestedFieldNoCopy u [''metadata'', ''name''] = NestedFieldNoCopy u' [''metadata'', ''name'']"
  shows "res_key u = res_key u'"
proof -
  have "GetAPIVersion u = GetAPIVersion u'" "GetKind u = GetKind u'" "GetNamespace u = GetNamespace u'"
    "GetName u = GetName u'"
    unfolding GetAPIVersion_def GetKind_def GetNamespace_def GetName_def
    by (rule getNestedString_cong, fact)+
  then show ?thesis by (simp add: res_key_def GroupVersionKind_def split: option.split)
qed

text \<open>A write apart from the four identity paths keeps a resource's identity.\<close>

definition identity_paths :: "string list set" where
  "identity_paths = {[''apiVersion''], [''kind''], [''metadata'', ''namespace''], [''metadata'', ''name'']}"

lemma SetNestedField_res_key:
  assumes "SetNestedField u v p = Ok u'" and "\<And>q. q \<in> identity_paths \<Longrightarrow> path_sep p q"
  shows "res_key u' = res_key u"
  using fields.reads_preserved [OF assms] by (intro res_key_cong) (auto simp: identity_paths_def)

lemma setNestedField_res_key:
  assumes "\<And>q. q \<in> identity_paths \<Longrightarrow> path_sep p q"
  shows "res_key (setNestedField u v p) = res_key u"
  using SetNestedField_res_key [of u v p, OF _ assms]
  by (auto simp: setNestedField_def split: res.splits)

lemma SetOwnerReferences_res_key [simp]: "res_key (SetOwnerReferences u refs) = res_key u"
  unfolding SetOwnerReferences_def
  by (rule setNestedField_res_key) (auto simp: identity_paths_def)

lemma SetAnnotations_res_key [simp]: "res_key (SetAnnotations u m) = res_key u"
  unfolding SetAnnotations_def
  by (rule setNestedField_res_key) (auto simp: identity_paths_def)

lemma res_key_GetKind: "res_key u = res_key u' \<Longrightarrow> GetKind u = GetKind u'"
  by (simp add: res_key_def)

lemma res_key_GetName: "res_key u = res_key u' \<Longrightarrow> GetName u = GetName u'"
  by (simp add: res_key_def)

lemma res_key_GetNamespace: "res_key u = res_key u' \<Longrightarrow> GetNamespace u = GetNamespace u'"
  by (simp add: res_key_def)

end
