(* ===== verification/Manifestival.thy ===== *)
theory Manifestival
  imports Unstructured
begin

text \<open>
  The manifest library the operator installs with (\<^verbatim>\<open>github.com/manifestival/manifestival\<close>):
  filtering, appending, transforming, sorting, applying and deleting a list of resources.
  The API server behind \<^verbatim>\<open>mf.Client\<close> and the three-way merge of \<^verbatim>\<open>internal/patch\<close> are a
  record of operations on a cluster state of any type. Theorems here: a transformation is
  all-or-nothing and works resource by resource, filters partition a manifest, and the kind
  order is a strict weak order, so that what \<^verbatim>\<open>sort.Slice\<close> promises is meaningful for it.
\<close>

section \<open>Manifests, predicates, transformers\<close>

type_synonym predicate = "gobj \<Rightarrow> bool"
type_synonym transformer = "gobj \<Rightarrow> gobj res"

text \<open>
  \<open>manifest.lastAppliedConfigAnnotation\<close> only matters for the manifest \<^verbatim>\<open>Apply\<close> is called on;
  the zero value \<^verbatim>\<open>mf.Manifest{}\<close> has the empty name.
\<close>

record manifest =
  resources :: "gobj list"
  lastAppliedConfigAnnotation :: string

definition empty_manifest :: manifest where
  "empty_manifest = \<lparr>resources = [], lastAppliedConfigAnnotation = ''''\<rparr>"

definition Append_mf :: "manifest \<Rightarrow> manifest \<Rightarrow> manifest" where
  "Append_mf m n = m\<lparr>resources := resources m @ resources n\<rparr>"

fun mf_All :: "predicate list \<Rightarrow> predicate" where
  "mf_All [] u = True"
| "mf_All (p # ps) u = (if \<not> p u then False else mf_All ps u)"

definition mf_Not :: "predicate \<Rightarrow> predicate" where
  "mf_Not p u = (\<not> p u)"

definition ByName :: "string \<Rightarrow> predicate" where
  "ByName name u = (GetName u = name)"

definition ByKind :: "string \<Rightarrow> predicate" where
  "ByKind kind u = (GetKind u = kind)"

definition Filter :: "manifest \<Rightarrow> predicate list \<Rightarrow> manifest" where
  "Filter m ps = m\<lparr>resources := filter (mf_All ps) (resources m)\<rparr>"

text \<open>
  \<^verbatim>\<open>Transform\<close> runs every non-nil transformer, in order, on a deep copy of every resource; the
  first error abandons the copies. \<open>None\<close> is a nil transformer.
\<close>

definition run_transformer :: "transformer option \<Rightarrow> gobj \<Rightarrow> gobj res" where
  "run_transformer t u = (case t of None \<Rightarrow> Ok u | Some f \<Rightarrow> f u)"

definition transform_resource :: "transformer option list \<Rightarrow> gobj \<Rightarrow> gobj res" where
  "transform_resource fns u = fold_res run_transformer fns u"

definition Transform :: "manifest \<Rightarrow> transformer option list \<Rightarrow> manifest res" where
  "Transform m fns = bind_res (map_res (transform_resource fns) (resources m))
     (\<lambda>rs. Ok (m\<lparr>resources := rs\<rparr>))"

text \<open>\<^verbatim>\<open>mf.InjectOwner\<close> with \<^verbatim>\<open>metav1.NewControllerRef\<close>: the owner's kind, name and UID.\<close>

record owner =
  owner_gvk :: gvk
  owner_name :: string
  owner_uid :: string

definition NewControllerRef :: "owner \<Rightarrow> owner_reference" where
  "NewControllerRef ow = \<lparr>or_APIVersion = GroupVersion_String (owner_gvk ow),
     or_Kind = Kind (owner_gvk ow), or_Name = owner_name ow, or_UID = owner_uid ow,
     or_Controller = Some True, or_BlockOwnerDeletion = Some True\<rparr>"

definition mf_InjectOwner :: "owner \<Rightarrow> transformer" where
  "mf_InjectOwner ow u = Ok (SetOwnerReferences u [NewControllerRef ow])"

section \<open>Kind order\<close>

definition kindPriorityOrder :: "string list" where
  "kindPriorityOrder = [
     ''PriorityClass'', ''Namespace'', ''NetworkPolicy'', ''ResourceQuota'', ''LimitRange'',
     ''PodSecurityPolicy'', ''PodDisruptionBudget'', ''ServiceAccount'', ''Secret'', ''SecretList'',
     ''ConfigMap'', ''StorageClass'', ''PersistentVolume'', ''PersistentVolumeClaim'',
     ''CustomResourceDefinition'', ''ClusterRole'', ''ClusterRoleList'', ''ClusterRoleBinding'',
     ''ClusterRoleBindingList'', ''Role'', ''RoleList'', ''RoleBinding'', ''RoleBindingList'',
     ''Service'', ''DaemonSet'', ''Pod'', ''ReplicationController'', ''ReplicaSet'', ''Deployment'',
     ''HorizontalPodAutoscaler'', ''StatefulSet'', ''Job'', ''CronJob'', ''IngressClass'', ''Ingress'',
     ''APIService'', ''MutatingWebhookConfiguration'', ''ValidatingWebhookConfiguration'']"

fun kind_position :: "string list \<Rightarrow> string \<Rightarrow> nat" where
  "kind_position [] kind = 0"
| "kind_position (k # ks) kind = (if k = kind then 0 else Suc (kind_position ks kind))"

definition getKindPosition :: "string \<Rightarrow> nat" where
  "getKindPosition kind = kind_position kindPriorityOrder kind"

definition ByKindPriority :: "gobj \<Rightarrow> gobj \<Rightarrow> bool" where
  "ByKindPriority a b =
     (let kindA = GetKind a; kindB = GetKind b;
          posA = getKindPosition kindA; posB = getKindPosition kindB
      in if posA \<noteq> posB then posA < posB else kindA < kindB)"

text \<open>
  \<open>srt\<close> is \<^verbatim>\<open>sort.Slice\<close>, which is not stable beyond twelve elements; what the theorems use of
  it is \<open>sort_ok\<close>, its documented contract for the kind order.
\<close>

type_synonym slice_sort = "(gobj \<Rightarrow> gobj \<Rightarrow> bool) \<Rightarrow> gobj list \<Rightarrow> gobj list"

definition Sort_mf :: "slice_sort \<Rightarrow> manifest \<Rightarrow> manifest" where
  "Sort_mf srt m = m\<lparr>resources := srt ByKindPriority (resources m)\<rparr>"

definition sort_ok :: "slice_sort \<Rightarrow> bool" where
  "sort_ok srt \<longleftrightarrow> (\<forall>xs. mset (srt ByKindPriority xs) = mset xs
     \<and> slice_sorted ByKindPriority (srt ByKindPriority xs))"

section \<open>Apply and delete\<close>

text \<open>
  The API server as \<^verbatim>\<open>mf.Client\<close> shows it, over a cluster state \<open>'s\<close>. \<open>c_patch cur spec ann\<close>
  is \<^verbatim>\<open>patch.New\<close> followed by \<^verbatim>\<open>Merge\<close>: \<open>Ok None\<close> when there is no difference. \<open>c_marshal\<close> is
  \<^verbatim>\<open>MarshalJSON\<close>, \<open>c_overlay\<close> is \<^verbatim>\<open>overlay.Copy\<close>.
\<close>

record 's mf_client =
  c_get :: "gobj \<Rightarrow> 's \<Rightarrow> gobj res"
  c_create :: "gobj \<Rightarrow> 's \<Rightarrow> unit res \<times> 's"
  c_update :: "gobj \<Rightarrow> 's \<Rightarrow> unit res \<times> 's"
  c_delete :: "gobj \<Rightarrow> 's \<Rightarrow> unit res \<times> 's"
  c_patch :: "gobj \<Rightarrow> gobj \<Rightarrow> string \<Rightarrow> gobj option res"
  c_marshal :: "gobj \<Rightarrow> string"
  c_overlay :: "gobj \<Rightarrow> gobj \<Rightarrow> gobj"

definition annotate :: "gobj \<Rightarrow> string \<Rightarrow> string \<Rightarrow> gobj" where
  "annotate u key val = SetAnnotations u
     (AList.update key val (case GetAnnotations u of None \<Rightarrow> [] | Some a \<Rightarrow> a))"

text \<open>\<^verbatim>\<open>lastApplied\<close> also strips the annotation from the object it reads.\<close>

definition strip_last_applied :: "gobj \<Rightarrow> string \<Rightarrow> gobj" where
  "strip_last_applied u ann = (case GetAnnotations u of
       None \<Rightarrow> u
     | Some a \<Rightarrow> if a = [] then u else SetAnnotations u (AList.delete ann a))"

definition okToDelete :: "gobj \<Rightarrow> bool" where
  "okToDelete u = (if GetKind u = ''Namespace''
     then get_or '''' (case GetAnnotations u of None \<Rightarrow> [] | Some a \<Rightarrow> a) ''manifestival'' = ''new''
     else True)"

definition get_mf :: "'s mf_client \<Rightarrow> gobj \<Rightarrow> 's \<Rightarrow> gobj option res" where
  "get_mf cl spec s =
     (if GetName spec = '''' \<and> GetGenerateName spec \<noteq> '''' then Ok None
      else case c_get cl spec s of
          Ok cur \<Rightarrow> Ok (Some cur)
        | Err e \<Rightarrow> if IsNotFound e then Ok None else Err e
        | Panic p \<Rightarrow> Panic p)"

definition update_mf :: "'s mf_client \<Rightarrow> string \<Rightarrow> gobj \<Rightarrow> gobj \<Rightarrow> 's \<Rightarrow> unit res \<times> 's" where
  "update_mf cl ann live spec s =
     (let spec' = strip_last_applied spec ann;
          live' = annotate live ann (c_marshal cl spec')
      in case c_update cl live' s of
           (Err e, s') \<Rightarrow> if IsInvalid e then c_update cl (c_overlay cl spec' live') s' else (Err e, s')
         | r \<Rightarrow> r)"

definition apply_mf :: "'s mf_client \<Rightarrow> string \<Rightarrow> gobj \<Rightarrow> 's \<Rightarrow> unit res \<times> 's" where
  "apply_mf cl ann spec s = (case get_mf cl spec s of
       Err e \<Rightarrow> (Err e, s)
     | Panic p \<Rightarrow> (Panic p, s)
     | Ok None \<Rightarrow>
         (let current = annotate spec ''manifestival'' ''new'';
              current' = strip_last_applied current ann
          in c_create cl (annotate current' ann (c_marshal cl current')) s)
     | Ok (Some current) \<Rightarrow> (case c_patch cl current spec ann of
           Err e \<Rightarrow> (Err e, s)
         | Panic p \<Rightarrow> (Panic p, s)
         | Ok None \<Rightarrow> (Ok (), s)
         | Ok (Some merged) \<Rightarrow>
             (let created = (get_or '''' (case GetAnnotations current of None \<Rightarrow> [] | Some a \<Rightarrow> a)
                               ''manifestival'' = ''new'');
                  live = (if created then annotate merged ''manifestival'' ''new'' else merged)
              in update_mf cl ann live spec s)))"

definition delete_mf :: "'s mf_client \<Rightarrow> gobj \<Rightarrow> 's \<Rightarrow> unit res \<times> 's" where
  "delete_mf cl spec s = (case get_mf cl spec s of
       Err e \<Rightarrow> (Err e, s)
     | Panic p \<Rightarrow> (Panic p, s)
     | Ok None \<Rightarrow> (Ok (), s)
     | Ok (Some current) \<Rightarrow> if \<not> okToDelete current then (Ok (), s) else c_delete cl spec s)"

text \<open>The loops of \<^verbatim>\<open>Apply\<close> and \<^verbatim>\<open>Delete\<close>: stop at the first error, keep what was done.\<close>

fun each_resource :: "(gobj \<Rightarrow> 's \<Rightarrow> unit res \<times> 's) \<Rightarrow> gobj list \<Rightarrow> 's \<Rightarrow> unit res \<times> 's" where
  "each_resource f [] s = (Ok (), s)"
| "each_resource f (u # us) s = (case f u s of
       (Ok _, s') \<Rightarrow> each_resource f us s'
     | r \<Rightarrow> r)"

definition Apply_mf :: "'s mf_client \<Rightarrow> manifest \<Rightarrow> 's \<Rightarrow> unit res \<times> 's" where
  "Apply_mf cl m s = each_resource (apply_mf cl (lastAppliedConfigAnnotation m)) (resources m) s"

definition Delete_mf :: "'s mf_client \<Rightarrow> manifest \<Rightarrow> 's \<Rightarrow> unit res \<times> 's" where
  "Delete_mf cl m s = each_resource (delete_mf cl) (rev (resources m)) s"

section \<open>Laws\<close>

lemma mf_All_iff [simp]: "mf_All ps u \<longleftrightarrow> (\<forall>p \<in> set ps. p u)"
  by (induction ps) auto

lemma resources_Filter [simp]: "resources (Filter m ps) = filter (\<lambda>u. \<forall>p \<in> set ps. p u) (resources m)"
  unfolding Filter_def by (simp add: mf_All_iff [abs_def] cong: filter_cong)

lemma resources_Append_mf [simp]: "resources (Append_mf m n) = resources m @ resources n"
  by (simp add: Append_mf_def)

lemma resources_empty [simp]: "resources empty_manifest = []"
  by (simp add: empty_manifest_def)

text \<open>A filter and its complement split a manifest without loss or duplication.\<close>

lemma filter_partition_mset:
  "mset (resources (Filter m [p])) + mset (resources (Filter m [mf_Not p])) = mset (resources m)"
  by (simp add: mf_Not_def)

lemma Transform_Ok_iff:
  "Transform m fns = Ok m' \<longleftrightarrow>
     (\<exists>rs. map_res (transform_resource fns) (resources m) = Ok rs \<and> m' = m\<lparr>resources := rs\<rparr>)"
  by (auto simp: Transform_def go_outcome)

text \<open>
  Transforming with one list of transformers and then another is transforming with the
  appended list, resource by resource.
\<close>

lemma fold_res_append:
  "fold_res f (xs @ ys) s = bind_res (fold_res f xs s) (fold_res f ys)"
proof (induction xs arbitrary: s)
  case (Cons x xs)
  then show ?case by (cases "f x s") auto
qed simp

lemma transform_resource_append:
  "transform_resource (fs @ gs) u = bind_res (transform_resource fs u) (transform_resource gs)"
  by (simp add: transform_resource_def [abs_def] fold_res_append)

text \<open>The contract of a transformer that keeps what identifies a resource.\<close>

locale identity_transformers =
  fixes fns :: "transformer option list"
  assumes keeps: "Some f \<in> set fns \<Longrightarrow> f u = Ok u' \<Longrightarrow> res_key u' = res_key u"
begin

lemma transform_resource_key:
  assumes "transform_resource fns u = Ok u'"
  shows "res_key u' = res_key u"
proof -
  have "run_transformer t v = Ok v' \<Longrightarrow> t \<in> set fns \<Longrightarrow> res_key v' = res_key v" for t v v'
    using keeps by (auto simp: run_transformer_def split: option.splits)
  then show ?thesis
    using fold_res_invariant [of fns "\<lambda>v. res_key v = res_key u" run_transformer u u'] assms
    by (auto simp: transform_resource_def)
qed

lemma Transform_keys:
  assumes "Transform m fns = Ok m'"
  shows "map res_key (resources m') = map res_key (resources m)"
proof -
  from assms obtain rs where rs: "map_res (transform_resource fns) (resources m) = Ok rs" "resources m' = rs"
    by (auto simp: Transform_Ok_iff)
  then show ?thesis
    using map_res_map_eq [OF rs(1), of res_key res_key] transform_resource_key by simp
qed

end

lemma kind_position_le: "kind_position ks k \<le> length ks"
  by (induction ks) auto

lemma kind_position_less_iff: "kind_position ks k < length ks \<longleftrightarrow> k \<in> set ks"
  by (induction ks) auto

lemma kind_position_inj:
  "kind_position ks a = kind_position ks b \<Longrightarrow> a \<in> set ks \<Longrightarrow> a = b"
  by (induction ks) (auto split: if_splits)

lemma ByKindPriority_asym: "ByKindPriority a b \<Longrightarrow> \<not> ByKindPriority b a"
  by (auto simp: ByKindPriority_def Let_def split: if_splits)

lemma ByKindPriority_trans:
  "ByKindPriority a b \<Longrightarrow> \<not> ByKindPriority c b \<Longrightarrow> ByKindPriority a c"
  by (auto simp: ByKindPriority_def Let_def split: if_splits)

lemma sort_ok_sort_slice: "sort_ok sort_slice"
  using sort_slice_sorted [of ByKindPriority, OF ByKindPriority_trans ByKindPriority_asym]
  by (simp add: sort_ok_def)

lemma each_resource_append:
  "each_resource f (us @ vs) s = (case each_resource f us s of
       (Ok _, s') \<Rightarrow> each_resource f vs s' | r \<Rightarrow> r)"
proof (induction us arbitrary: s)
  case (Cons u us)
  then show ?case by (simp split: prod.splits res.splits)
qed simp

end
