(* ===== verification/Versions.thy ===== *)
theory Versions
  imports Manifestival "HOL-Library.Product_Lexorder"
begin

text \<open>
  Upgrade detection: semantic versions (\<^verbatim>\<open>github.com/coreos/go-semver\<close>) and
  \<^verbatim>\<open>pkg/manifests/version.go\<close>, which compares the version label of an embedded Deployment with
  the one running in the cluster. The semver comparison is shown to be the strict order of an
  explicit sort key, and the search for a running Deployment to follow a reference scan.
\<close>

section \<open>Semantic versions\<close>

definition is_digit :: "char \<Rightarrow> bool" where
  "is_digit c = (let n = (of_char c :: nat) in 48 \<le> n \<and> n \<le> 57)"

definition digit_val :: "char \<Rightarrow> nat" where
  "digit_val c = of_char c - 48"

fun digits_val :: "nat \<Rightarrow> string \<Rightarrow> nat" where
  "digits_val acc [] = acc"
| "digits_val acc (c # s) = digits_val (10 * acc + digit_val c) s"

text \<open>
  \<^verbatim>\<open>strconv.ParseInt(s, 10, 64)\<close> and \<^verbatim>\<open>strconv.Atoi\<close> on a 64-bit platform: an optional sign,
  at least one digit, and a value that fits; \<open>None\<close> is a syntax or range error.
\<close>

definition parse_digits :: "string \<Rightarrow> nat option" where
  "parse_digits s = (if s \<noteq> '''' \<and> list_all is_digit s then Some (digits_val 0 s) else None)"

definition in_int64 :: "int \<Rightarrow> bool" where
  "in_int64 i \<longleftrightarrow> - (2 ^ 63) \<le> i \<and> i < 2 ^ 63"

definition ParseInt :: "string \<Rightarrow> int option" where
  "ParseInt s =
     (let signed = (case s of
          CHR ''-'' # r \<Rightarrow> map_option (\<lambda>n. - int n) (parse_digits r)
        | CHR ''+'' # r \<Rightarrow> map_option int (parse_digits r)
        | _ \<Rightarrow> map_option int (parse_digits s))
      in case signed of None \<Rightarrow> None | Some i \<Rightarrow> if in_int64 i then Some i else None)"

record semver =
  Major :: int
  Minor :: int
  Patch :: int
  PreRelease :: string
  Metadata :: string

definition ident_char :: "char \<Rightarrow> bool" where
  "ident_char c = (let n = (of_char c :: nat) in
     is_digit c \<or> (65 \<le> n \<and> n \<le> 90) \<or> (97 \<le> n \<and> n \<le> 122) \<or> c = CHR ''-'')"

text \<open>\<^verbatim>\<open>^[0-9A-Za-z-]+(\.[0-9A-Za-z-]+)*$\<close>, or empty\<close>

definition validateIdentifier :: "string \<Rightarrow> bool" where
  "validateIdentifier ident =
     (ident = '''' \<or> list_all (\<lambda>w. w \<noteq> '''' \<and> list_all ident_char w) (Split (CHR ''.'') ident))"

definition splitOff :: "string \<Rightarrow> char \<Rightarrow> string \<times> string" where
  "splitOff input d = (case SplitN2 d input of (a, None) \<Rightarrow> (input, '''') | (a, Some b) \<Rightarrow> (a, b))"

definition dotted_tri :: "string \<Rightarrow> (string \<times> string \<times> string) option" where
  "dotted_tri v = (case SplitN2 (CHR ''.'') v of
       (a, Some r) \<Rightarrow> (case SplitN2 (CHR ''.'') r of (b, Some c) \<Rightarrow> Some (a, b, c) | _ \<Rightarrow> None)
     | _ \<Rightarrow> None)"

definition NewVersion :: "string \<Rightarrow> semver res" where
  "NewVersion s =
     (let (v1, metadata) = splitOff s (CHR ''+'');
          (v2, preRelease) = splitOff v1 (CHR ''-'')
      in case dotted_tri v2 of
           None \<Rightarrow> Err (ErrMsg (v2 @ '' is not in dotted-tri format''))
         | Some (a, b, c) \<Rightarrow>
             if \<not> validateIdentifier preRelease then Err (ErrMsg ''failed to validate pre-release'')
             else if \<not> validateIdentifier metadata then Err (ErrMsg ''failed to validate metadata'')
             else (case (ParseInt a, ParseInt b, ParseInt c) of
                 (Some x, Some y, Some z) \<Rightarrow>
                   Ok \<lparr>Major = x, Minor = y, Patch = z, PreRelease = preRelease, Metadata = metadata\<rparr>
               | _ \<Rightarrow> Err (ErrMsg ''strconv.ParseInt: invalid syntax'')))"

fun recursiveCompare :: "int list \<Rightarrow> int list \<Rightarrow> int" where
  "recursiveCompare [] bs = 0"
| "recursiveCompare (a # as) (b # bs) = (if a > b then 1 else if a < b then -1 else recursiveCompare as bs)"
| "recursiveCompare (a # as) [] = 0"

fun recursivePreReleaseCompare :: "string list \<Rightarrow> string list \<Rightarrow> int" where
  "recursivePreReleaseCompare [] [] = 0"
| "recursivePreReleaseCompare [] (b # bs) = -1"
| "recursivePreReleaseCompare (a # as) [] = 1"
| "recursivePreReleaseCompare (a # as) (b # bs) =
     (case (ParseInt a, ParseInt b) of
        (Some aI, None) \<Rightarrow> -1
      | (None, Some bI) \<Rightarrow> 1
      | (Some aI, Some bI) \<Rightarrow>
          if aI > bI then 1 else if aI < bI then -1
          else if a > b then 1 else if a < b then -1 else recursivePreReleaseCompare as bs
      | (None, None) \<Rightarrow>
          if a > b then 1 else if a < b then -1 else recursivePreReleaseCompare as bs)"

definition preReleaseCompare :: "semver \<Rightarrow> semver \<Rightarrow> int" where
  "preReleaseCompare v w =
     (let a = PreRelease v; b = PreRelease w
      in if a = '''' \<and> b \<noteq> '''' then 1
         else if b = '''' \<and> a \<noteq> '''' then -1
         else recursivePreReleaseCompare (Split (CHR ''.'') a) (Split (CHR ''.'') b))"

definition semver_slice :: "semver \<Rightarrow> int list" where
  "semver_slice v = [Major v, Minor v, Patch v]"

definition Compare :: "semver \<Rightarrow> semver \<Rightarrow> int" where
  "Compare v w = (let cmp = recursiveCompare (semver_slice v) (semver_slice w)
     in if cmp \<noteq> 0 then cmp else preReleaseCompare v w)"

definition LessThan :: "semver \<Rightarrow> semver \<Rightarrow> bool" where
  "LessThan v w = (Compare v w < 0)"

section \<open>The version of a running installation\<close>

text \<open>What the operator reads of an \<^verbatim>\<open>appsv1.Deployment\<close> from its lister.\<close>

record deployment =
  d_Name :: string
  d_Labels :: "string gomap"
  d_OwnerReferences :: "owner_reference list"
  d_Conditions :: "(string \<times> string) list"

text \<open>\<^verbatim>\<open>deploymentLister.Deployments(ns).Get(name)\<close>\<close>

type_synonym deployment_lister = "string \<Rightarrow> string \<Rightarrow> deployment res"

definition versionLabel :: string where
  "versionLabel = ''app.kubernetes.io/version''"

definition parseVersionFromLabels :: "string gomap \<Rightarrow> semver res" where
  "parseVersionFromLabels labels = (case map_of labels versionLabel of
       None \<Rightarrow> Err (ErrMsg ''could not get version from deployment labels'')
     | Some s \<Rightarrow> wrap_err ''could not parse version from labels'' (NewVersion s))"

abbreviation labels_or_empty :: "gobj \<Rightarrow> string gomap" where
  "labels_or_empty u \<equiv> (case GetLabels u of None \<Rightarrow> [] | Some l \<Rightarrow> l)"

lemma filter_not_last_shorter:
  assumes "filter P xs \<noteq> []" and "P (last (filter P xs)) \<Longrightarrow> \<not> Q (last (filter P xs))"
  shows "length (filter Q xs) < length xs"
proof -
  let ?d = "last (filter P xs)"
  have "?d \<in> set (filter P xs)" using assms(1) by (rule last_in_set)
  then have "?d \<in> set xs" "\<not> Q ?d" using assms(2) by auto
  then show ?thesis by (rule length_filter_less)
qed

text \<open>
  \<open>ns\<close> is \<^verbatim>\<open>system.Namespace()\<close>. The recursive call drops every Deployment with the name that
  was not found, so the manifest gets shorter.
\<close>

function getVersions :: "string \<Rightarrow> manifest \<Rightarrow> deployment_lister \<Rightarrow> (semver \<times> semver) res" where
  "getVersions ns m lister =
     (let ds = resources (Filter m [ByKind ''Deployment''])
      in if ds = [] then Err (ErrMsg ''could not find deployments in manifests'')
         else let lastDeployment = last ds; name = GetName lastDeployment
         in case lister ns name of
              Err e \<Rightarrow>
                if IsNotFound e \<and> length ds > 1
                then getVersions ns (Filter m [mf_Not (mf_All [ByKind ''Deployment'', ByName name])]) lister
                else Err (ErrWrap (''could not get '' @ name @ '' deployment'') e)
            | Panic p \<Rightarrow> Panic p
            | Ok instance \<Rightarrow>
                bind_res (wrap_err (''failed to parse version from deployment '' @ d_Name instance)
                            (parseVersionFromLabels (d_Labels instance))) (\<lambda>instanceVersion.
                bind_res (wrap_err (''failed to parse version from manifest from '' @ name)
                            (parseVersionFromLabels (labels_or_empty lastDeployment))) (\<lambda>manifestVersion.
                Ok (manifestVersion, instanceVersion))))"
  by pat_completeness auto
termination
proof (relation "measure (\<lambda>(ns, m, lister). length (resources m))", goal_cases)
  case (2 ns m lister ds lastDeployment name e)
  have ne: "filter (\<lambda>u. \<forall>p\<in>set [ByKind ''Deployment'']. p u) (resources m) \<noteq> []"
    using 2(1,2) by simp
  have "length (filter (\<lambda>u. \<forall>p\<in>set [mf_Not (mf_All [ByKind ''Deployment'', ByName name])]. p u) (resources m))
        < length (resources m)"
    using 2(1,3,4) by (intro filter_not_last_shorter [OF ne]) (simp add: mf_Not_def ByName_def)
  then show ?case by simp
qed simp

declare getVersions.simps [simp del]

definition isUpgrade :: "string \<Rightarrow> manifest \<Rightarrow> deployment_lister \<Rightarrow> bool res" where
  "isUpgrade ns m lister = (case getVersions ns m lister of
       Err e \<Rightarrow> if IsNotFound e then Ok False else Err (ErrWrap ''failed to get versions'' e)
     | Panic p \<Rightarrow> Panic p
     | Ok (manifestVersion, instanceVersion) \<Rightarrow>
         Ok (LessThan (instanceVersion\<lparr>Patch := 0\<rparr>) (manifestVersion\<lparr>Patch := 0\<rparr>)))"

section \<open>The comparison is the order of a key\<close>

text \<open>
  Numeric identifiers sort before the others, by value and then as text; lists of identifiers
  sort lexicographically; a version without pre-release sorts after those with one.
\<close>

definition ident_key :: "string \<Rightarrow> nat \<times> int \<times> string" where
  "ident_key s = (case ParseInt s of Some i \<Rightarrow> (0, i, s) | None \<Rightarrow> (1, 0, s))"

definition pre_key :: "string \<Rightarrow> nat \<times> (nat \<times> int \<times> string) list" where
  "pre_key p = (if p = '''' then (1, []) else (0, map ident_key (Split (CHR ''.'') p)))"

definition semver_key :: "semver \<Rightarrow> int \<times> int \<times> int \<times> nat \<times> (nat \<times> int \<times> string) list" where
  "semver_key v = (Major v, Minor v, Patch v, pre_key (PreRelease v))"

text \<open>The sign of a three-way comparison in a linear order.\<close>

definition cmp_sign :: "'a::linorder \<Rightarrow> 'a \<Rightarrow> int" where
  "cmp_sign a b = (if a < b then -1 else if b < a then 1 else 0)"

lemma recursivePreReleaseCompare_sign:
  "recursivePreReleaseCompare as bs = cmp_sign (map ident_key as) (map ident_key bs)"
proof (induction as bs rule: recursivePreReleaseCompare.induct)
  case (4 a as b bs)
  then show ?case
    by (cases "ParseInt a"; cases "ParseInt b")
      (auto simp: cmp_sign_def ident_key_def less_prod_def split: if_splits)
qed (simp_all add: cmp_sign_def)

lemma preReleaseCompare_sign:
  "preReleaseCompare v w = cmp_sign (pre_key (PreRelease v)) (pre_key (PreRelease w))"
  by (auto simp: preReleaseCompare_def Let_def pre_key_def recursivePreReleaseCompare_sign
      cmp_sign_def less_prod_def)

lemma Compare_sign: "Compare v w = cmp_sign (semver_key v) (semver_key w)"
  by (auto simp: Compare_def Let_def semver_slice_def semver_key_def preReleaseCompare_sign
      cmp_sign_def less_prod_def split: if_splits)

lemma LessThan_key: "LessThan v w \<longleftrightarrow> semver_key v < semver_key w"
  by (auto simp: LessThan_def Compare_sign cmp_sign_def)

section \<open>The search is a scan from the last Deployment\<close>

definition deployments_of :: "manifest \<Rightarrow> gobj list" where
  "deployments_of m = filter (ByKind ''Deployment'') (resources m)"

lemma resources_Filter_Deployment: "resources (Filter m [ByKind ''Deployment'']) = deployments_of m"
  by (simp add: deployments_of_def)

lemma filter_name_fresh: "n \<notin> GetName ` set us \<Longrightarrow> filter (\<lambda>u. GetName u \<noteq> n) us = us"
  by (induction us) auto

lemma deployments_of_Filter_name:
  "deployments_of (Filter m [mf_Not (mf_All [ByKind ''Deployment'', ByName n])]) =
     filter (\<lambda>u. GetName u \<noteq> n) (deployments_of m)"
  by (auto simp: deployments_of_def mf_Not_def ByName_def ByKind_def intro: filter_cong)

definition versions_at :: "gobj \<Rightarrow> deployment \<Rightarrow> (semver \<times> semver) res" where
  "versions_at d inst =
     bind_res (wrap_err (''failed to parse version from deployment '' @ d_Name inst)
       (parseVersionFromLabels (d_Labels inst))) (\<lambda>iv.
     bind_res (wrap_err (''failed to parse version from manifest from '' @ GetName d)
       (parseVersionFromLabels (labels_or_empty d))) (\<lambda>mv. Ok (mv, iv)))"

lemma getVersions_unfold:
  "getVersions ns m lister =
     (if deployments_of m = [] then Err (ErrMsg ''could not find deployments in manifests'')
      else case lister ns (GetName (last (deployments_of m))) of
          Err e \<Rightarrow> if IsNotFound e \<and> length (deployments_of m) > 1
            then getVersions ns (Filter m [mf_Not (mf_All [ByKind ''Deployment'', ByName (GetName (last (deployments_of m)))])]) lister
            else Err (ErrWrap (''could not get '' @ GetName (last (deployments_of m)) @ '' deployment'') e)
        | Panic p \<Rightarrow> Panic p
        | Ok inst \<Rightarrow> versions_at (last (deployments_of m)) inst)"
  unfolding getVersions.simps [of ns m lister] Let_def resources_Filter_Deployment versions_at_def
  by (rule refl)

text \<open>
  With distinct Deployment names, the Deployments after the last one that exists are skipped,
  and its two versions are returned.
\<close>

lemma getVersions_scan:
  assumes "deployments_of m = pre @ d # skipped"
    and "distinct (map GetName (deployments_of m))"
    and "\<forall>x\<in>set skipped. \<exists>n. lister ns (GetName x) = Err n \<and> IsNotFound n"
    and "lister ns (GetName d) = Ok inst"
  shows "getVersions ns m lister = versions_at d inst"
  using assms
proof (induction skipped arbitrary: m rule: rev_induct)
  case Nil
  then show ?case by (subst getVersions_unfold) simp
next
  case (snoc x xs)
  let ?m = "Filter m [mf_Not (mf_All [ByKind ''Deployment'', ByName (GetName x)])]"
  have ds: "deployments_of ?m = pre @ d # xs"
    using snoc.prems(1,2) by (auto simp: deployments_of_Filter_name filter_name_fresh)
  then have "getVersions ns ?m lister = versions_at d inst"
    using snoc.prems by (intro snoc.IH) auto
  moreover have "getVersions ns m lister = getVersions ns ?m lister"
    using snoc.prems(1,3) by (subst getVersions_unfold) auto
  ultimately show ?case by simp
qed

lemma getVersions_none_running:
  assumes "deployments_of m \<noteq> []"
    and "distinct (map GetName (deployments_of m))"
    and "\<forall>x\<in>set (deployments_of m). \<exists>n. lister ns (GetName x) = Err n \<and> IsNotFound n"
  shows "\<exists>e. getVersions ns m lister = Err e \<and> IsNotFound e"
  using assms
proof (induction "deployments_of m" arbitrary: m rule: rev_induct)
  case (snoc x xs)
  let ?m = "Filter m [mf_Not (mf_All [ByKind ''Deployment'', ByName (GetName x)])]"
  note eq = snoc.hyps(2) [symmetric]
  from snoc.prems(3) eq obtain n where n: "lister ns (GetName x) = Err n" "IsNotFound n" by auto
  show ?case
  proof (cases "xs = []")
    case True
    with n eq show ?thesis by (subst getVersions_unfold) auto
  next
    case False
    have ds: "deployments_of ?m = xs"
      using snoc.prems(2) eq by (auto simp: deployments_of_Filter_name filter_name_fresh)
    then have "\<exists>e. getVersions ns ?m lister = Err e \<and> IsNotFound e"
      using snoc.prems eq False by (intro snoc.hyps(1)) auto
    with n eq False show ?thesis by (subst getVersions_unfold) auto
  qed
qed simp


section \<open>Upgrade detection\<close>

text \<open>The lister does not know any Deployment of the manifest.\<close>

definition none_running :: "string \<Rightarrow> manifest \<Rightarrow> deployment_lister \<Rightarrow> bool" where
  "none_running ns m lister =
     list_all (\<lambda>x. case lister ns (GetName x) of Err e \<Rightarrow> IsNotFound e | _ \<Rightarrow> False) (deployments_of m)"

lemma none_running_iff:
  "none_running ns m lister \<longleftrightarrow> (\<forall>x\<in>set (deployments_of m). \<exists>n. lister ns (GetName x) = Err n \<and> IsNotFound n)"
proof -
  have "(case r of Err e \<Rightarrow> IsNotFound e | _ \<Rightarrow> False) \<longleftrightarrow> (\<exists>n. r = Err n \<and> IsNotFound n)" for r :: "deployment res"
    by (cases r) auto
  then show ?thesis by (simp add: none_running_def list_all_iff)
qed

text \<open>
  On a fresh cluster, where no Deployment of the manifest is running, upgrade
  detection terminates without error and reports that this is no upgrade, provided the
  Deployments of the manifest have distinct names.
\<close>

theorem isUpgrade_fresh_install:
  assumes "deployments_of m \<noteq> []" and "distinct (map GetName (deployments_of m))"
    and "none_running ns m lister"
  shows "isUpgrade ns m lister = Ok False"
  using getVersions_none_running [of m lister ns] assms by (auto simp: isUpgrade_def none_running_iff)

definition sample_deployment :: "string \<Rightarrow> string \<Rightarrow> gobj" where
  "sample_deployment name v = [(''apiVersion'', GString ''apps/v1''), (''kind'', GString ''Deployment''),
     (''metadata'', GMap [(''name'', GString name), (''namespace'', GString ''knative-eventing''),
        (''labels'', GMap [(''app.kubernetes.io/version'', GString v)])])]"

definition sample_core :: manifest where
  "sample_core = \<lparr>resources = [sample_deployment ''eventing-controller'' ''1.18.2'',
     sample_deployment ''eventing-webhook'' ''1.18.2''], lastAppliedConfigAnnotation = ''''\<rparr>"

definition no_deployments :: deployment_lister where
  "no_deployments ns n = Err (APINotFound n)"

theorem isUpgrade_fresh_install_witness:
  "none_running ''knative-eventing'' sample_core no_deployments \<and>
   isUpgrade ''knative-eventing'' sample_core no_deployments = Ok False"
proof -
  have a: "deployments_of sample_core \<noteq> []" "distinct (map GetName (deployments_of sample_core))"
    "none_running ''knative-eventing'' sample_core no_deployments" by code_simp+
  from isUpgrade_fresh_install [OF a] a(3) show ?thesis by simp
qed

lemma key_no_patch:
  "PreRelease v = PreRelease w \<Longrightarrow>
     LessThan (v\<lparr>Patch := 0\<rparr>) (w\<lparr>Patch := 0\<rparr>) \<longleftrightarrow> (Major v, Minor v) < (Major w, Minor w)"
  by (auto simp: LessThan_key semver_key_def less_prod_def)

text \<open>
  Claim C25. With Deployments of distinct names, upgrade detection compares the versions of
  the last Deployment of the manifest that is running, skipping the ones behind it that do not
  exist yet; between versions with equal pre-release parts the answer is the lexicographic order
  on major and minor version, so that a patch release never counts as an upgrade.
\<close>

theorem isUpgrade_major_minor:
  assumes "deployments_of m = pre @ d # skipped" and "distinct (map GetName (deployments_of m))"
    and "\<forall>x\<in>set skipped. \<exists>n. lister ns (GetName x) = Err n \<and> IsNotFound n"
    and "lister ns (GetName d) = Ok inst"
    and "parseVersionFromLabels (d_Labels inst) = Ok iv"
    and "parseVersionFromLabels (labels_or_empty d) = Ok mv"
    and "PreRelease iv = PreRelease mv"
  shows "isUpgrade ns m lister = Ok ((Major iv, Minor iv) < (Major mv, Minor mv))"
  using getVersions_scan [of m pre d skipped lister ns inst] assms by (simp add: isUpgrade_def versions_at_def key_no_patch)

definition running_controller :: "string \<Rightarrow> deployment_lister" where
  "running_controller v ns n = (if n = ''eventing-controller''
     then Ok \<lparr>d_Name = n, d_Labels = [(''app.kubernetes.io/version'', v)], d_OwnerReferences = [], d_Conditions = []\<rparr>
     else Err (APINotFound n))"

theorem isUpgrade_major_minor_witness:
  "isUpgrade ''knative-eventing'' sample_core (running_controller ''1.18.0'') = Ok False \<and>
   isUpgrade ''knative-eventing'' sample_core (running_controller ''1.17.5'') = Ok True"
proof -
  let ?c = "sample_deployment ''eventing-controller'' ''1.18.2''"
  let ?w = "sample_deployment ''eventing-webhook'' ''1.18.2''"
  have ds: "deployments_of sample_core = [] @ ?c # [?w]"
    by code_simp
  have di: "distinct (map GetName (deployments_of sample_core))"
    by code_simp
  have nm: "GetName ?c = ''eventing-controller''" "GetName ?w = ''eventing-webhook''" by code_simp+
  have sk: "\<forall>x\<in>set [?w]. \<exists>n. running_controller v ''knative-eventing'' (GetName x) = Err n \<and> IsNotFound n" for v
    by (simp add: nm running_controller_def)
  have li: "running_controller v ''knative-eventing'' (GetName ?c) =
      Ok \<lparr>d_Name = ''eventing-controller'', d_Labels = [(''app.kubernetes.io/version'', v)],
          d_OwnerReferences = [], d_Conditions = []\<rparr>" for v
    by (simp add: nm running_controller_def)
  have p: "parseVersionFromLabels [(''app.kubernetes.io/version'', ''1.18.0'')] =
        Ok \<lparr>Major = 1, Minor = 18, Patch = 0, PreRelease = '''', Metadata = ''''\<rparr>"
    "parseVersionFromLabels [(''app.kubernetes.io/version'', ''1.17.5'')] =
        Ok \<lparr>Major = 1, Minor = 17, Patch = 5, PreRelease = '''', Metadata = ''''\<rparr>"
    "parseVersionFromLabels (labels_or_empty ?c) =
        Ok \<lparr>Major = 1, Minor = 18, Patch = 2, PreRelease = '''', Metadata = ''''\<rparr>"
    by code_simp+
  have "isUpgrade ''knative-eventing'' sample_core (running_controller v) = Ok ((Major iv, Minor iv) < (1, 18))"
    if "parseVersionFromLabels [(''app.kubernetes.io/version'', v)] = Ok iv" "PreRelease iv = ''''" for v iv
    using isUpgrade_major_minor [of sample_core "[]" ?c "[?w]" "running_controller v" "''knative-eventing''",
      OF ds di sk li _ p(3)] that by simp
  from this [OF p(1)] this [OF p(2)] show ?thesis by (simp add: less_prod_def)
qed

text \<open>
  The comparison drops the patch number but keeps the pre-release part: when a
  pre-release of a minor version is running, any release of the same major and minor version
  counts as an upgrade, although its callers log it as an upgrade of \<^verbatim>\<open>at least minor version\<close>.
\<close>

theorem isUpgrade_pre_release_patch:
  assumes "getVersions ns m lister = Ok (mv, iv)" and "Major iv = Major mv" and "Minor iv = Minor mv"
    and "PreRelease iv \<noteq> ''''" and "PreRelease mv = ''''"
  shows "isUpgrade ns m lister = Ok True"
  using assms by (simp add: isUpgrade_def LessThan_key semver_key_def pre_key_def less_prod_def)

theorem isUpgrade_pre_release_patch_witness:
  "isUpgrade ''knative-eventing'' sample_core (running_controller ''1.18.2-rc1'') = Ok True"
proof -
  have "getVersions ''knative-eventing'' sample_core (running_controller ''1.18.2-rc1'') =
      Ok (\<lparr>Major = 1, Minor = 18, Patch = 2, PreRelease = '''', Metadata = ''''\<rparr>,
          \<lparr>Major = 1, Minor = 18, Patch = 2, PreRelease = ''rc1'', Metadata = ''''\<rparr>)"
    by code_simp
  from isUpgrade_pre_release_patch [OF this] show ?thesis by simp
qed

end
