(* ===== verification/Conditions.thy ===== *)
theory Conditions
  imports Go_Prelude
begin

text \<open>
  The status of an EventMesh: Knative's condition manager (\<^verbatim>\<open>knative.dev/pkg/apis\<close>,
  condition_set.go) and the operations of \<^verbatim>\<open>eventmesh_lifecycle.go\<close> on it. \<open>status_view\<close>
  abstracts a status to the three condition values; the refinement lemmas show that each
  operation acts on that view as a small table, which gives the readiness contract.
\<close>

section \<open>Conditions and their manager\<close>

record condition =
  c_Type :: string
  c_Status :: string
  c_Severity :: string
  c_LastTransitionTime :: int
  c_Reason :: string
  c_Message :: string

text \<open>
  \<open>st_reads\<close> counts the readings of the clock so far: a clock is a function from the number of
  the reading to the time it gives, so nothing is assumed about \<^verbatim>\<open>time.Now()\<close>.
\<close>

record em_status =
  st_ObservedGeneration :: int
  st_Conditions :: "condition list"
  st_reads :: nat

type_synonym clock = "nat \<Rightarrow> int"

record cond_set =
  happy :: string
  dependents :: "string list"

definition ConditionTrue :: string where "ConditionTrue = ''True''"
definition ConditionFalse :: string where "ConditionFalse = ''False''"
definition ConditionUnknown :: string where "ConditionUnknown = ''Unknown''"
definition ConditionSeverityError :: string where "ConditionSeverityError = ''''"
definition ConditionSeverityInfo :: string where "ConditionSeverityInfo = ''Info''"

fun new_deps :: "string \<Rightarrow> string list \<Rightarrow> string list \<Rightarrow> string list" where
  "new_deps hp deps [] = deps"
| "new_deps hp deps (d # ds) =
     (if d = hp \<or> List.member deps d then new_deps hp deps ds else new_deps hp (deps @ [d]) ds)"

definition newConditionSet :: "string \<Rightarrow> string list \<Rightarrow> cond_set" where
  "newConditionSet hp ds = \<lparr>happy = hp, dependents = new_deps hp [] ds\<rparr>"

definition NewLivingConditionSet :: "string list \<Rightarrow> cond_set" where
  "NewLivingConditionSet ds = newConditionSet ''Ready'' ds"

definition mk_condition :: "string \<Rightarrow> string \<Rightarrow> string \<Rightarrow> string \<Rightarrow> string \<Rightarrow> condition" where
  "mk_condition t status reason message severity =
     \<lparr>c_Type = t, c_Status = status, c_Severity = severity, c_LastTransitionTime = 0,
      c_Reason = reason, c_Message = message\<rparr>"

definition GetCondition :: "em_status \<Rightarrow> string \<Rightarrow> condition option" where
  "GetCondition st t = find (\<lambda>c. c_Type c = t) (st_Conditions st)"

text \<open>The methods of \<^verbatim>\<open>*Condition\<close> are nil-safe: a nil condition is unknown, not true, not false.\<close>

definition IsTrue :: "condition option \<Rightarrow> bool" where
  "IsTrue c = (case c of None \<Rightarrow> False | Some d \<Rightarrow> c_Status d = ConditionTrue)"

definition IsFalse :: "condition \<Rightarrow> bool" where
  "IsFalse c = (c_Status c = ConditionFalse)"

definition IsUnknown :: "condition \<Rightarrow> bool" where
  "IsUnknown c = (c_Status c = ConditionUnknown)"

text \<open>
  The loop of \<^verbatim>\<open>SetCondition\<close>: the other conditions are kept, and \<open>None\<close> is the early return when
  only the transition time would change.
\<close>

fun set_scan :: "condition \<Rightarrow> condition list \<Rightarrow> condition list \<Rightarrow> condition list option" where
  "set_scan cond acc [] = Some acc"
| "set_scan cond acc (c # cs) =
     (if c_Type c \<noteq> c_Type cond then set_scan cond (acc @ [c]) cs
      else let cond' = cond\<lparr>c_LastTransitionTime := c_LastTransitionTime c\<rparr>
           in if cond' = c then None else set_scan cond' acc cs)"

definition SetCondition :: "clock \<Rightarrow> condition \<Rightarrow> em_status \<Rightarrow> em_status" where
  "SetCondition clk cond st = (case set_scan cond [] (st_Conditions st) of
       None \<Rightarrow> st
     | Some others \<Rightarrow> st\<lparr>
         st_Conditions := sort_slice (\<lambda>a b. c_Type a < c_Type b)
           (others @ [cond\<lparr>c_LastTransitionTime := clk (st_reads st)\<rparr>]),
         st_reads := Suc (st_reads st)\<rparr>)"

definition isTerminal :: "cond_set \<Rightarrow> string \<Rightarrow> bool" where
  "isTerminal r t = (List.member (dependents r) t \<or> t = happy r)"

definition severity :: "cond_set \<Rightarrow> string \<Rightarrow> string" where
  "severity r t = (if isTerminal r t then ConditionSeverityError else ConditionSeverityInfo)"

definition findUnhappyDependent :: "cond_set \<Rightarrow> em_status \<Rightarrow> condition option" where
  "findUnhappyDependent r st =
     (if dependents r = [] then None
      else let cs = filter (\<lambda>c. c_Severity c = ConditionSeverityError \<and> c_Type c \<noteq> happy r) (st_Conditions st);
               conditions = sort_slice (\<lambda>a b. c_LastTransitionTime a > c_LastTransitionTime b) cs
      in case find IsFalse conditions of
           Some c \<Rightarrow> Some c
         | None \<Rightarrow> (case find IsUnknown conditions of
             Some c \<Rightarrow> Some c
           | None \<Rightarrow> if length (dependents r) > length conditions
                     then Some (mk_condition '''' ConditionUnknown '''' '''' '''') else None))"

definition recomputeHappiness :: "clock \<Rightarrow> cond_set \<Rightarrow> string \<Rightarrow> em_status \<Rightarrow> em_status" where
  "recomputeHappiness clk r t st = (case findUnhappyDependent r st of
       Some c \<Rightarrow> SetCondition clk
         (mk_condition (happy r) (c_Status c) (c_Reason c) (c_Message c) (severity r (happy r))) st
     | None \<Rightarrow> if t \<noteq> happy r
         then SetCondition clk (mk_condition (happy r) ConditionTrue '''' '''' (severity r (happy r))) st
         else st)"

definition MarkTrue :: "clock \<Rightarrow> cond_set \<Rightarrow> string \<Rightarrow> em_status \<Rightarrow> em_status" where
  "MarkTrue clk r t st =
     recomputeHappiness clk r t (SetCondition clk (mk_condition t ConditionTrue '''' '''' (severity r t)) st)"

text \<open>The message arrives formatted.\<close>

definition MarkFalse :: "clock \<Rightarrow> cond_set \<Rightarrow> string \<Rightarrow> string \<Rightarrow> string \<Rightarrow> em_status \<Rightarrow> em_status" where
  "MarkFalse clk r t reason message st =
     fold (\<lambda>ty. SetCondition clk (mk_condition ty ConditionFalse reason message (severity r ty)))
       (t # map (\<lambda>_. happy r) (filter (\<lambda>d. d = t) (dependents r))) st"

definition initializeTerminalCondition :: "clock \<Rightarrow> string \<Rightarrow> string \<Rightarrow> em_status \<Rightarrow> em_status" where
  "initializeTerminalCondition clk status t st = (case GetCondition st t of
       Some _ \<Rightarrow> st
     | None \<Rightarrow> SetCondition clk (mk_condition t status '''' '''' ConditionSeverityError) st)"

definition InitializeConditions_set :: "clock \<Rightarrow> cond_set \<Rightarrow> em_status \<Rightarrow> em_status" where
  "InitializeConditions_set clk r st =
     (let hc = GetCondition st (happy r);
          st1 = (case hc of Some _ \<Rightarrow> st
                 | None \<Rightarrow> SetCondition clk (mk_condition (happy r) ConditionUnknown '''' '''' ConditionSeverityError) st);
          status = (if IsTrue hc then ConditionTrue else ConditionUnknown)
      in fold (initializeTerminalCondition clk status) (dependents r) st1)"

section \<open>The lifecycle of an EventMesh\<close>

definition EventMeshConditionInstallSucceeded :: string where
  "EventMeshConditionInstallSucceeded = ''InstallSucceeded''"

definition EventMeshConditionDeploymentsAvailable :: string where
  "EventMeshConditionDeploymentsAvailable = ''DeploymentsAvailable''"

definition EventMeshCondSet :: cond_set where
  "EventMeshCondSet = NewLivingConditionSet
     [EventMeshConditionInstallSucceeded, EventMeshConditionDeploymentsAvailable]"

definition GetTopLevelCondition :: "em_status \<Rightarrow> condition option" where
  "GetTopLevelCondition st = GetCondition st (happy EventMeshCondSet)"

definition IsReady :: "em_status \<Rightarrow> bool" where
  "IsReady st = IsTrue (GetTopLevelCondition st)"

definition InitializeConditions :: "clock \<Rightarrow> em_status \<Rightarrow> em_status" where
  "InitializeConditions clk = InitializeConditions_set clk EventMeshCondSet"

definition MarkInstallSucceeded :: "clock \<Rightarrow> em_status \<Rightarrow> em_status" where
  "MarkInstallSucceeded clk = MarkTrue clk EventMeshCondSet EventMeshConditionInstallSucceeded"

definition MarkInstallFailed :: "clock \<Rightarrow> string \<Rightarrow> string \<Rightarrow> em_status \<Rightarrow> em_status" where
  "MarkInstallFailed clk reason message =
     MarkFalse clk EventMeshCondSet EventMeshConditionInstallSucceeded reason message"

definition MarkDeploymentsAvailable :: "clock \<Rightarrow> em_status \<Rightarrow> em_status" where
  "MarkDeploymentsAvailable clk = MarkTrue clk EventMeshCondSet EventMeshConditionDeploymentsAvailable"

definition MarkDeploymentsNotReady :: "clock \<Rightarrow> string list \<Rightarrow> em_status \<Rightarrow> em_status" where
  "MarkDeploymentsNotReady clk deployments =
     MarkFalse clk EventMeshCondSet EventMeshConditionDeploymentsAvailable
       ''NotReady'' (''Waiting on deployments: '' @ Join deployments '', '')"

lemmas condition_consts =
  ConditionTrue_def ConditionFalse_def ConditionUnknown_def ConditionSeverityError_def
  ConditionSeverityInfo_def EventMeshConditionInstallSucceeded_def
  EventMeshConditionDeploymentsAvailable_def

lemma EventMeshCondSet_simps [simp]:
  "happy EventMeshCondSet = ''Ready''"
  "dependents EventMeshCondSet = [''InstallSucceeded'', ''DeploymentsAvailable'']"
  by (simp_all add: EventMeshCondSet_def NewLivingConditionSet_def newConditionSet_def condition_consts)

section \<open>Well-formed statuses and the view\<close>

text \<open>
  What the manager keeps true of a status it started from empty: one condition per type, only
  the three managed types, error severity, and a status of the three-valued kind.
\<close>

definition wf_status :: "em_status \<Rightarrow> bool" where
  "wf_status st \<longleftrightarrow> distinct (map c_Type (st_Conditions st)) \<and>
     (\<forall>c\<in>set (st_Conditions st).
        c_Type c \<in> {''Ready'', ''InstallSucceeded'', ''DeploymentsAvailable''} \<and>
        c_Severity c = ConditionSeverityError \<and>
        c_Status c \<in> {ConditionTrue, ConditionFalse, ConditionUnknown})"

text \<open>A condition without its transition time.\<close>

definition cond_body :: "condition \<Rightarrow> string \<times> string \<times> string" where
  "cond_body c = (c_Status c, c_Reason c, c_Message c)"

definition cond_view :: "em_status \<Rightarrow> string \<Rightarrow> (string \<times> string \<times> string) option" where
  "cond_view st t = map_option cond_body (GetCondition st t)"

lemma find_distinct_iff:
  "distinct (map f xs) \<Longrightarrow> find (\<lambda>x. f x = t) xs = Some c \<longleftrightarrow> c \<in> set xs \<and> f c = t"
  by (induction xs) force+

lemma find_None_iff_set: "find P xs = None \<longleftrightarrow> (\<forall>x\<in>set xs. \<not> P x)"
  by (auto simp: find_None_iff)

lemma GetCondition_Some_iff:
  "distinct (map c_Type (st_Conditions st)) \<Longrightarrow>
     GetCondition st t = Some c \<longleftrightarrow> c \<in> set (st_Conditions st) \<and> c_Type c = t"
  by (simp add: GetCondition_def find_distinct_iff)

lemma set_scan_None:
  "set_scan cond acc cs = None \<Longrightarrow> distinct (map c_Type cs) \<Longrightarrow>
     \<exists>c\<in>set cs. c_Type c = c_Type cond \<and> c = cond\<lparr>c_LastTransitionTime := c_LastTransitionTime c\<rparr>"
proof (induction cond acc cs rule: set_scan.induct)
  case (2 cond acc c cs)
  show ?case
  proof (cases "c_Type c = c_Type cond")
    case True
    then have fresh: "\<forall>d\<in>set cs. c_Type d \<noteq> c_Type cond"
      using "2.prems"(2) by (metis distinct.simps(2) image_eqI list.set_map list.simps(9))
    have scan_fresh: "set_scan e a xs \<noteq> None" if "\<forall>d\<in>set xs. c_Type d \<noteq> c_Type e" for e a xs
      using that by (induction xs arbitrary: a) auto
    show ?thesis
    proof (cases "cond\<lparr>c_LastTransitionTime := c_LastTransitionTime c\<rparr> = c")
      case True
      with \<open>c_Type c = c_Type cond\<close> show ?thesis by force
    next
      case False
      with True "2.prems"(1) scan_fresh [of cs "cond\<lparr>c_LastTransitionTime := c_LastTransitionTime c\<rparr>" acc] fresh
      show ?thesis by (simp add: Let_def)
    qed
  next
    case False
    with 2 show ?thesis by auto
  qed
qed simp

lemma set_scan_Some:
  "set_scan cond acc cs = Some others \<Longrightarrow> others = acc @ filter (\<lambda>c. c_Type c \<noteq> c_Type cond) cs"
  by (induction cond acc cs arbitrary: others rule: set_scan.induct)
    (auto simp: Let_def split: if_splits)

lemma SetCondition_cases:
  assumes "distinct (map c_Type (st_Conditions st))"
  obtains (same) c where "SetCondition clk cond st = st" "c \<in> set (st_Conditions st)"
      "c_Type c = c_Type cond" "c = cond\<lparr>c_LastTransitionTime := c_LastTransitionTime c\<rparr>"
    | (set) "set (st_Conditions (SetCondition clk cond st)) =
        insert (cond\<lparr>c_LastTransitionTime := clk (st_reads st)\<rparr>) {c \<in> set (st_Conditions st). c_Type c \<noteq> c_Type cond}"
      "distinct (map c_Type (st_Conditions (SetCondition clk cond st)))"
proof (cases "set_scan cond [] (st_Conditions st)")
  case None
  from set_scan_None [OF this assms] None show ?thesis
    by (auto simp: SetCondition_def intro: same)
next
  case (Some others)
  then have others: "others = filter (\<lambda>c. c_Type c \<noteq> c_Type cond) (st_Conditions st)"
    using set_scan_Some by fastforce
  show ?thesis
  proof (rule set)
    show "set (st_Conditions (SetCondition clk cond st)) =
        insert (cond\<lparr>c_LastTransitionTime := clk (st_reads st)\<rparr>) {c \<in> set (st_Conditions st). c_Type c \<noteq> c_Type cond}"
      using Some others by (auto simp: SetCondition_def)
    have "distinct (map c_Type (filter (\<lambda>c. c_Type c \<noteq> c_Type cond) (st_Conditions st)))"
      using assms by (rule distinct_map_filter)
    then show "distinct (map c_Type (st_Conditions (SetCondition clk cond st)))"
      using Some others by (auto simp: SetCondition_def)
  qed
qed

lemma SetCondition_view:
  assumes "distinct (map c_Type (st_Conditions st))"
  shows "distinct (map c_Type (st_Conditions (SetCondition clk cond st)))"
    and "cond_view (SetCondition clk cond st) t =
      (if t = c_Type cond then Some (cond_body cond) else cond_view st t)"
proof -
  let ?st = "SetCondition clk cond st"
  show "distinct (map c_Type (st_Conditions ?st))"
    using assms by (cases rule: SetCondition_cases [where clk = clk and cond = cond]) (use assms in simp_all)
  show "cond_view ?st t = (if t = c_Type cond then Some (cond_body cond) else cond_view st t)"
    using assms
  proof (cases rule: SetCondition_cases [where clk = clk and cond = cond])
    case (same c)
    then have "GetCondition st (c_Type cond) = Some c"
      using assms by (simp add: GetCondition_Some_iff)
    moreover have "cond_body c = cond_body cond"
      using same(4) by (metis cond_body_def condition.select_convs condition.update_convs(4) condition.surjective)
    ultimately show ?thesis using same(1) by (simp add: cond_view_def)
  next
    case set
    have "GetCondition ?st t = (if t = c_Type cond then Some (cond\<lparr>c_LastTransitionTime := clk (st_reads st)\<rparr>)
        else GetCondition st t)"
    proof (cases "t = c_Type cond")
      case True
      with set show ?thesis by (simp add: GetCondition_Some_iff)
    next
      case False
      have "GetCondition ?st t = Some c \<longleftrightarrow> GetCondition st t = Some c" for c
        using set assms False by (auto simp: GetCondition_Some_iff)
      with False show ?thesis by (metis not_Some_eq)
    qed
    then show ?thesis by (simp add: cond_view_def cond_body_def)
  qed
qed

lemma SetCondition_wf:
  assumes "wf_status st" and "c_Type cond \<in> {''Ready'', ''InstallSucceeded'', ''DeploymentsAvailable''}"
    and "c_Severity cond = ConditionSeverityError"
    and "c_Status cond \<in> {ConditionTrue, ConditionFalse, ConditionUnknown}"
  shows "wf_status (SetCondition clk cond st)"
proof -
  from assms(1) have d: "distinct (map c_Type (st_Conditions st))" by (simp add: wf_status_def)
  then show ?thesis
  proof (cases rule: SetCondition_cases [where clk = clk and cond = cond])
    case (same c)
    with assms(1) show ?thesis by simp
  next
    case set
    with assms show ?thesis by (auto simp: wf_status_def)
  qed
qed

lemma wf_status_distinct: "wf_status st \<Longrightarrow> distinct (map c_Type (st_Conditions st))"
  by (simp add: wf_status_def)


section \<open>Each operation as a table on the view\<close>

lemma severity_managed [simp]:
  "t \<in> {''Ready'', ''InstallSucceeded'', ''DeploymentsAvailable''} \<Longrightarrow>
     severity EventMeshCondSet t = ConditionSeverityError"
  by (auto simp: severity_def isTerminal_def)

lemma mk_condition_sel [simp]:
  "c_Type (mk_condition t s r m v) = t" "c_Status (mk_condition t s r m v) = s"
  "c_Severity (mk_condition t s r m v) = v" "c_Reason (mk_condition t s r m v) = r"
  "c_Message (mk_condition t s r m v) = m" "cond_body (mk_condition t s r m v) = (s, r, m)"
  by (simp_all add: mk_condition_def cond_body_def)

lemma find_unique:
  "c \<in> set xs \<Longrightarrow> P c \<Longrightarrow> (\<And>y. y \<in> set xs \<Longrightarrow> P y \<Longrightarrow> y = c) \<Longrightarrow> find P xs = Some c"
proof (induction xs)
  case (Cons x xs)
  show ?case
  proof (cases "P x")
    case True
    with Cons.prems(3) [of x] show ?thesis by simp
  next
    case False
    with Cons.prems(1,2) have "c \<in> set xs" by auto
    moreover have "y = c" if "y \<in> set xs" "P y" for y
      by (rule Cons.prems(3)) (use that in simp_all)
    ultimately have "find P xs = Some c" by (rule Cons.IH [OF _ Cons.prems(2)])
    with False show ?thesis by simp
  qed
qed simp

text \<open>The two dependent conditions, each with the other one.\<close>

definition other_dependent :: "string \<Rightarrow> string" where
  "other_dependent t = (if t = ''InstallSucceeded'' then ''DeploymentsAvailable'' else ''InstallSucceeded'')"

abbreviation is_dependent :: "string \<Rightarrow> bool" where
  "is_dependent t \<equiv> t \<in> {''InstallSucceeded'', ''DeploymentsAvailable''}"

text \<open>
  What \<^verbatim>\<open>findUnhappyDependent\<close> looks at: the error conditions other than the happy one. With one
  dependent present and the other known, they are exactly these.
\<close>

definition unhappy_candidates :: "em_status \<Rightarrow> condition list" where
  "unhappy_candidates st =
     filter (\<lambda>c. c_Severity c = ConditionSeverityError \<and> c_Type c \<noteq> ''Ready'') (st_Conditions st)"

lemma unhappy_candidates_set:
  assumes wf: "wf_status st" and t: "is_dependent t"
  shows "set (unhappy_candidates st) = set_option (GetCondition st t) \<union> set_option (GetCondition st (other_dependent t))"
    and "distinct (unhappy_candidates st)"
proof -
  note d = wf_status_distinct [OF wf]
  have managed: "c_Severity c = ConditionSeverityError \<and> (c_Type c \<noteq> ''Ready'' \<longleftrightarrow> c_Type c = t \<or> c_Type c = other_dependent t)"
    if "c \<in> set (st_Conditions st)" for c
  proof -
    have "c_Type c = ''Ready'' \<or> c_Type c = ''InstallSucceeded'' \<or> c_Type c = ''DeploymentsAvailable''"
      "c_Severity c = ConditionSeverityError"
      using wf that by (simp_all add: wf_status_def)
    moreover have "t = ''InstallSucceeded'' \<or> t = ''DeploymentsAvailable''" using t by simp
    ultimately show ?thesis by (elim disjE) (simp_all add: other_dependent_def)
  qed
  have "c \<in> set (unhappy_candidates st) \<longleftrightarrow>
      GetCondition st t = Some c \<or> GetCondition st (other_dependent t) = Some c" for c
    using managed [of c] by (simp add: unhappy_candidates_def GetCondition_Some_iff [OF d]) blast
  then show "set (unhappy_candidates st) = set_option (GetCondition st t) \<union> set_option (GetCondition st (other_dependent t))"
    by (auto simp: set_eq_iff elem_set)
  show "distinct (unhappy_candidates st)"
    using d by (simp add: unhappy_candidates_def distinct_map)
qed

lemma findUnhappyDependent_other:
  assumes wf: "wf_status st" and t: "is_dependent t" and tv: "cond_view st t = Some (ConditionTrue, r, m)"
  shows "findUnhappyDependent EventMeshCondSet st = (case GetCondition st (other_dependent t) of
      None \<Rightarrow> Some (mk_condition '''' ConditionUnknown '''' '''' '''')
    | Some c \<Rightarrow> if c_Status c = ConditionTrue then None else Some c)"
proof -
  note d = wf_status_distinct [OF wf]
  let ?L = "sort_slice (\<lambda>a b. c_LastTransitionTime a > c_LastTransitionTime b) (unhappy_candidates st)"
  from tv obtain ct where ct: "GetCondition st t = Some ct" "c_Status ct = ConditionTrue"
    by (auto simp: cond_view_def cond_body_def)
  have L: "set ?L = insert ct (set_option (GetCondition st (other_dependent t)))"
    using unhappy_candidates_set(1) [OF wf t] ct by simp
  have len: "length ?L = card (set ?L)"
    using unhappy_candidates_set(2) [OF wf t] by (simp add: distinct_card)
  have fu: "findUnhappyDependent EventMeshCondSet st = (case find IsFalse ?L of
      Some c \<Rightarrow> Some c
    | None \<Rightarrow> (case find IsUnknown ?L of Some c \<Rightarrow> Some c
      | None \<Rightarrow> if 2 > length ?L then Some (mk_condition '''' ConditionUnknown '''' '''' '''') else None))"
    unfolding findUnhappyDependent_def Let_def unhappy_candidates_def EventMeshCondSet_simps by simp
  show ?thesis
  proof (cases "GetCondition st (other_dependent t)")
    case None
    then have "find IsFalse ?L = None" "find IsUnknown ?L = None" "length ?L = 1"
      using L len ct(2) by (auto simp: find_None_iff_set IsFalse_def IsUnknown_def condition_consts
          simp del: set_sort_slice length_sort_slice)
    with None fu show ?thesis by simp
  next
    case (Some c)
    then have c: "c_Type c = other_dependent t" "c \<in> set (st_Conditions st)" and "c_Type ct = t"
      using ct(1) d by (simp_all add: GetCondition_Some_iff)
    then have "ct \<noteq> c" by (auto simp: other_dependent_def split: if_splits)
    with L len Some have L: "set ?L = {ct, c}" and len: "length ?L = 2"
      by (simp_all del: set_sort_slice length_sort_slice)
    have status: "c_Status c \<in> {ConditionTrue, ConditionFalse, ConditionUnknown}"
      using wf c by (simp add: wf_status_def)
    have F: "find IsFalse ?L = (if IsFalse c then Some c else None)"
      using L ct(2) by (auto simp: find_None_iff_set IsFalse_def condition_consts
          intro!: find_unique simp del: set_sort_slice)
    have U: "find IsUnknown ?L = (if IsUnknown c then Some c else None)"
      using L ct(2) by (auto simp: find_None_iff_set IsUnknown_def condition_consts
          intro!: find_unique simp del: set_sort_slice)
    show ?thesis
      using Some status F U len fu
      by (auto simp: IsFalse_def IsUnknown_def condition_consts)
  qed
qed

text \<open>The value the happy condition takes after one dependent became true.\<close>

definition ready_after :: "(string \<times> string \<times> string) option \<Rightarrow> string \<times> string \<times> string" where
  "ready_after other = (case other of
       None \<Rightarrow> (ConditionUnknown, '''', '''')
     | Some (s, r, m) \<Rightarrow> if s = ConditionTrue then (ConditionTrue, '''', '''') else (s, r, m))"

lemma MarkTrue_refines:
  assumes wf: "wf_status st" and t: "is_dependent t"
  shows "wf_status (MarkTrue clk EventMeshCondSet t st)"
    and "cond_view (MarkTrue clk EventMeshCondSet t st) =
      (cond_view st)(t \<mapsto> (ConditionTrue, '''', ''''), ''Ready'' \<mapsto> ready_after (cond_view st (other_dependent t)))"
proof -
  let ?st = "SetCondition clk (mk_condition t ConditionTrue '''' '''' ConditionSeverityError) st"
  have sev: "severity EventMeshCondSet t = ConditionSeverityError" using t by (intro severity_managed) auto
  have wf1: "wf_status ?st" using t by (intro SetCondition_wf [OF wf]) auto
  note d1 = wf_status_distinct [OF wf1]
  have v1: "cond_view ?st x = (if x = t then Some (ConditionTrue, '''', '''') else cond_view st x)" for x
    using SetCondition_view(2) [OF wf_status_distinct [OF wf]] by simp
  have ne: "other_dependent t \<noteq> t" "t \<noteq> ''Ready''" using t by (auto simp: other_dependent_def)
  define rc where "rc = ready_after (cond_view st (other_dependent t))"
  have unh: "findUnhappyDependent EventMeshCondSet ?st = (case GetCondition ?st (other_dependent t) of
      None \<Rightarrow> Some (mk_condition '''' ConditionUnknown '''' '''' '''')
    | Some c \<Rightarrow> if c_Status c = ConditionTrue then None else Some c)"
    using findUnhappyDependent_other [OF wf1 t] v1 [of t] by simp
  have ov: "cond_view st (other_dependent t) = map_option cond_body (GetCondition ?st (other_dependent t))"
    using v1 [of "other_dependent t"] ne by (simp add: cond_view_def)
  have rec: "MarkTrue clk EventMeshCondSet t st = SetCondition clk
      (mk_condition ''Ready'' (fst rc) (fst (snd rc)) (snd (snd rc)) ConditionSeverityError) ?st"
    using ne unh ov by (auto simp: MarkTrue_def recomputeHappiness_def sev rc_def ready_after_def cond_body_def
        split: option.splits)
  have rs: "fst rc \<in> {ConditionTrue, ConditionFalse, ConditionUnknown}"
  proof (cases "GetCondition ?st (other_dependent t)")
    case (Some c)
    then have "c \<in> set (st_Conditions ?st)" using d1 by (simp add: GetCondition_Some_iff)
    then show ?thesis using wf1 Some ov by (auto simp: wf_status_def rc_def ready_after_def cond_body_def)
  qed (simp add: rc_def ov ready_after_def)
  show "wf_status (MarkTrue clk EventMeshCondSet t st)"
    unfolding rec using rs by (intro SetCondition_wf [OF wf1]) auto
  show "cond_view (MarkTrue clk EventMeshCondSet t st) =
      (cond_view st)(t \<mapsto> (ConditionTrue, '''', ''''), ''Ready'' \<mapsto> ready_after (cond_view st (other_dependent t)))"
    unfolding rec using v1 by (auto simp: fun_eq_iff SetCondition_view(2) [OF d1] rc_def)
qed

lemma MarkFalse_refines:
  assumes wf: "wf_status st" and t: "is_dependent t"
  shows "wf_status (MarkFalse clk EventMeshCondSet t reason message st)"
    and "cond_view (MarkFalse clk EventMeshCondSet t reason message st) =
      (cond_view st)(t \<mapsto> (ConditionFalse, reason, message), ''Ready'' \<mapsto> (ConditionFalse, reason, message))"
proof -
  let ?st = "SetCondition clk (mk_condition t ConditionFalse reason message ConditionSeverityError) st"
  have sev: "severity EventMeshCondSet t = ConditionSeverityError" using t by (intro severity_managed) auto
  have eq: "MarkFalse clk EventMeshCondSet t reason message st =
      SetCondition clk (mk_condition ''Ready'' ConditionFalse reason message ConditionSeverityError) ?st"
    using t by (auto simp: MarkFalse_def sev)
  have wf1: "wf_status ?st" using t by (intro SetCondition_wf [OF wf]) auto
  show "wf_status (MarkFalse clk EventMeshCondSet t reason message st)"
    unfolding eq by (intro SetCondition_wf [OF wf1]) auto
  show "cond_view (MarkFalse clk EventMeshCondSet t reason message st) =
      (cond_view st)(t \<mapsto> (ConditionFalse, reason, message), ''Ready'' \<mapsto> (ConditionFalse, reason, message))"
    unfolding eq
    by (auto simp: fun_eq_iff SetCondition_view(2) [OF wf_status_distinct [OF wf1]]
        SetCondition_view(2) [OF wf_status_distinct [OF wf]])
qed

text \<open>Filling an unset entry of the view.\<close>

definition fill :: "string \<Rightarrow> string \<Rightarrow> (string \<Rightarrow> (string \<times> string \<times> string) option) \<Rightarrow>
    (string \<Rightarrow> (string \<times> string \<times> string) option)" where
  "fill t s v = (if v t = None then v(t \<mapsto> (s, '''', '''')) else v)"

lemma initializeTerminalCondition_refines:
  assumes wf: "wf_status st" and t: "is_dependent t" and s: "s \<in> {ConditionTrue, ConditionUnknown}"
  shows "wf_status (initializeTerminalCondition clk s t st)"
    and "cond_view (initializeTerminalCondition clk s t st) = fill t s (cond_view st)"
proof -
  let ?c = "mk_condition t s '''' '''' ConditionSeverityError"
  have w: "wf_status (SetCondition clk ?c st)" using t s by (intro SetCondition_wf [OF wf]) auto
  then show "wf_status (initializeTerminalCondition clk s t st)"
    using wf by (simp add: initializeTerminalCondition_def split: option.splits)
  show "cond_view (initializeTerminalCondition clk s t st) = fill t s (cond_view st)"
    by (auto simp: initializeTerminalCondition_def fill_def cond_view_def [of st t] fun_eq_iff
        SetCondition_view(2) [OF wf_status_distinct [OF wf]] split: option.splits)
qed

lemma InitializeConditions_refines:
  assumes wf: "wf_status st"
  shows "wf_status (InitializeConditions clk st)"
    and "cond_view (InitializeConditions clk st) =
      (let s = (if map_option fst (cond_view st ''Ready'') = Some ConditionTrue then ConditionTrue else ConditionUnknown)
       in fill ''DeploymentsAvailable'' s (fill ''InstallSucceeded'' s (fill ''Ready'' ConditionUnknown (cond_view st))))"
proof -
  let ?s = "if IsTrue (GetCondition st ''Ready'') then ConditionTrue else ConditionUnknown"
  define st1 where "st1 = (case GetCondition st ''Ready'' of Some _ \<Rightarrow> st
      | None \<Rightarrow> SetCondition clk (mk_condition ''Ready'' ConditionUnknown '''' '''' ConditionSeverityError) st)"
  have wf1: "wf_status st1"
    using wf by (auto simp: st1_def split: option.splits intro: SetCondition_wf)
  have v1: "cond_view st1 = fill ''Ready'' ConditionUnknown (cond_view st)"
    by (auto simp: st1_def fill_def fun_eq_iff cond_view_def [of st "''Ready''"]
        SetCondition_view(2) [OF wf_status_distinct [OF wf]] split: option.splits)
  have s: "?s \<in> {ConditionTrue, ConditionUnknown}" by auto
  have eq: "InitializeConditions clk st = initializeTerminalCondition clk ?s ''DeploymentsAvailable''
      (initializeTerminalCondition clk ?s ''InstallSucceeded'' st1)"
    unfolding InitializeConditions_def InitializeConditions_set_def Let_def st1_def EventMeshCondSet_simps by simp
  note i1 = initializeTerminalCondition_refines [OF wf1 _ s, of "''InstallSucceeded''" clk]
  have wf2: "wf_status (initializeTerminalCondition clk ?s ''InstallSucceeded'' st1)" by (rule i1(1)) simp
  note i2 = initializeTerminalCondition_refines [OF wf2 _ s, of "''DeploymentsAvailable''" clk]
  show "wf_status (InitializeConditions clk st)" unfolding eq by (rule i2(1)) simp
  have s_eq: "?s = (if map_option fst (cond_view st ''Ready'') = Some ConditionTrue then ConditionTrue else ConditionUnknown)"
    by (auto simp: IsTrue_def cond_view_def cond_body_def split: option.splits)
  have "cond_view (InitializeConditions clk st) = fill ''DeploymentsAvailable'' ?s
      (fill ''InstallSucceeded'' ?s (fill ''Ready'' ConditionUnknown (cond_view st)))"
    unfolding eq v1 [symmetric] using i1(2) i2(2) by simp
  then show "cond_view (InitializeConditions clk st) =
      (let s = (if map_option fst (cond_view st ''Ready'') = Some ConditionTrue then ConditionTrue else ConditionUnknown)
       in fill ''DeploymentsAvailable'' s (fill ''InstallSucceeded'' s (fill ''Ready'' ConditionUnknown (cond_view st))))"
    unfolding Let_def s_eq .
qed

section \<open>The lifecycle as a state machine\<close>

datatype lifecycle_op =
    OpInitialize
  | OpInstallSucceeded
  | OpInstallFailed string string
  | OpDeploymentsAvailable
  | OpDeploymentsNotReady "string list"

fun lifecycle_step :: "clock \<Rightarrow> lifecycle_op \<Rightarrow> em_status \<Rightarrow> em_status" where
  "lifecycle_step clk OpInitialize st = InitializeConditions clk st"
| "lifecycle_step clk OpInstallSucceeded st = MarkInstallSucceeded clk st"
| "lifecycle_step clk (OpInstallFailed reason message) st = MarkInstallFailed clk reason message st"
| "lifecycle_step clk OpDeploymentsAvailable st = MarkDeploymentsAvailable clk st"
| "lifecycle_step clk (OpDeploymentsNotReady ds) st = MarkDeploymentsNotReady clk ds st"

text \<open>The statuses that the operator's calls can produce from a status without conditions.\<close>

inductive lifecycle :: "clock \<Rightarrow> em_status \<Rightarrow> bool" for clk :: clock where
  fresh: "st_Conditions st = [] \<Longrightarrow> lifecycle clk st"
| step: "lifecycle clk st \<Longrightarrow> lifecycle clk (lifecycle_step clk op st)"

definition dependents_true :: "em_status \<Rightarrow> bool" where
  "dependents_true st \<longleftrightarrow> IsTrue (GetCondition st ''InstallSucceeded'') \<and> IsTrue (GetCondition st ''DeploymentsAvailable'')"

definition ready_inv :: "em_status \<Rightarrow> bool" where
  "ready_inv st \<longleftrightarrow> wf_status st \<and> (IsReady st \<longleftrightarrow> dependents_true st)"

lemma IsTrue_view: "IsTrue (GetCondition st t) \<longleftrightarrow> map_option fst (cond_view st t) = Some ConditionTrue"
  by (auto simp: IsTrue_def cond_view_def cond_body_def split: option.splits)

lemma IsReady_view: "IsReady st \<longleftrightarrow> map_option fst (cond_view st ''Ready'') = Some ConditionTrue"
  by (simp add: IsReady_def GetTopLevelCondition_def IsTrue_view)

lemma fst_ready_after:
  "fst (ready_after v) = ConditionTrue \<longleftrightarrow> map_option fst v = Some ConditionTrue"
  by (auto simp: ready_after_def condition_consts split: option.splits)

lemma MarkTrue_ready_inv:
  "wf_status st \<Longrightarrow> is_dependent t \<Longrightarrow> ready_inv (MarkTrue clk EventMeshCondSet t st)"
  using MarkTrue_refines [of st t clk]
  by (auto simp: ready_inv_def dependents_true_def IsTrue_view IsReady_view fst_ready_after other_dependent_def)

lemma MarkFalse_ready_inv:
  "wf_status st \<Longrightarrow> is_dependent t \<Longrightarrow> ready_inv (MarkFalse clk EventMeshCondSet t reason message st)"
  using MarkFalse_refines [of st t clk reason message]
  by (auto simp: ready_inv_def dependents_true_def IsTrue_view IsReady_view condition_consts)

lemma InitializeConditions_ready_inv:
  assumes "ready_inv st"
  shows "ready_inv (InitializeConditions clk st)"
proof -
  from assms have wf: "wf_status st" and r: "IsReady st \<longleftrightarrow> dependents_true st"
    by (simp_all add: ready_inv_def)
  show ?thesis
    using InitializeConditions_refines [OF wf, of clk] r
    by (auto simp: ready_inv_def dependents_true_def IsTrue_view IsReady_view Let_def fill_def
        condition_consts split: if_splits option.splits)
qed

lemma lifecycle_ready_inv: "lifecycle clk st \<Longrightarrow> ready_inv st"
proof (induction rule: lifecycle.induct)
  case (fresh st)
  then show ?case
    by (simp add: ready_inv_def wf_status_def IsReady_view IsTrue_view dependents_true_def
        cond_view_def GetCondition_def IsTrue_def)
next
  case (step st op)
  then have "wf_status st" by (simp add: ready_inv_def)
  with step.IH show ?case
    by (cases op) (simp_all add: MarkInstallSucceeded_def MarkInstallFailed_def MarkDeploymentsAvailable_def
        MarkDeploymentsNotReady_def condition_consts MarkTrue_ready_inv MarkFalse_ready_inv
        InitializeConditions_ready_inv)
qed

text \<open>
  Claim C5. In every status the operator's lifecycle calls can produce, \<open>IsReady\<close> holds
  exactly when both \<open>InstallSucceeded\<close> and \<open>DeploymentsAvailable\<close> are true, whatever the
  order and number of the calls and whatever the clock reads.
\<close>

theorem ready_iff_dependents:
  "lifecycle clk st \<Longrightarrow> IsReady st \<longleftrightarrow>
     IsTrue (GetCondition st EventMeshConditionInstallSucceeded) \<and>
     IsTrue (GetCondition st EventMeshConditionDeploymentsAvailable)"
  using lifecycle_ready_inv by (simp add: ready_inv_def dependents_true_def condition_consts)

text \<open>A run of the machine, for the witnesses.\<close>

definition blank_status :: em_status where
  "blank_status = \<lparr>st_ObservedGeneration = 0, st_Conditions = [], st_reads = 0\<rparr>"

definition installed_status :: em_status where
  "installed_status = MarkDeploymentsAvailable int (MarkInstallSucceeded int (InitializeConditions int blank_status))"

lemma lifecycle_installed: "lifecycle int installed_status"
  unfolding installed_status_def
  using lifecycle.step [of int _ OpDeploymentsAvailable] lifecycle.step [of int _ OpInstallSucceeded]
    lifecycle.step [of int _ OpInitialize] lifecycle.fresh [of blank_status int]
  by (simp add: blank_status_def)

theorem ready_iff_dependents_witness:
  "lifecycle int installed_status \<and>
   (IsReady installed_status \<longleftrightarrow>
      IsTrue (GetCondition installed_status EventMeshConditionInstallSucceeded) \<and>
      IsTrue (GetCondition installed_status EventMeshConditionDeploymentsAvailable)) \<and>
   IsReady installed_status"
proof -
  have "IsReady installed_status" by code_simp
  with lifecycle_installed ready_iff_dependents [OF lifecycle_installed] show ?thesis by blast
qed

text \<open>
  When the installation succeeds while the Deployments are not available, the Ready
  condition takes status, reason and message of the unavailable-Deployments condition, and
  that condition itself is untouched.
\<close>

theorem install_succeeded_keeps_blocker:
  assumes "wf_status st"
    and "cond_view st EventMeshConditionDeploymentsAvailable = Some (ConditionFalse, reason, message)"
  shows "cond_view (MarkInstallSucceeded clk st) ''Ready'' = Some (ConditionFalse, reason, message) \<and>
    cond_view (MarkInstallSucceeded clk st) EventMeshConditionDeploymentsAvailable =
      Some (ConditionFalse, reason, message) \<and>
    cond_view (MarkInstallSucceeded clk st) EventMeshConditionInstallSucceeded = Some (ConditionTrue, '''', '''')"
  using assms MarkTrue_refines(2) [of st "''InstallSucceeded''" clk]
  by (simp add: MarkInstallSucceeded_def condition_consts ready_after_def other_dependent_def)

definition waiting_status :: em_status where
  "waiting_status = MarkDeploymentsNotReady int [''imc-controller''] (InitializeConditions int blank_status)"

theorem install_succeeded_keeps_blocker_witness:
  "cond_view (MarkInstallSucceeded int waiting_status) ''Ready'' =
     Some (''False'', ''NotReady'', ''Waiting on deployments: imc-controller'')"
proof -
  have wf: "wf_status waiting_status" by code_simp
  have v: "cond_view waiting_status EventMeshConditionDeploymentsAvailable =
      Some (ConditionFalse, ''NotReady'', ''Waiting on deployments: imc-controller'')"
    by code_simp
  from install_succeeded_keeps_blocker [OF wf v, of int] show ?thesis by (simp add: condition_consts)
qed

section \<open>Marking a condition unknown\<close>

text \<open>
  The manager's fourth marking operation, which the framework around the reconciler uses for a new
  generation. Its loop over the dependents returns early at a false one.
\<close>

fun mark_unknown_loop :: "clock \<Rightarrow> cond_set \<Rightarrow> string \<Rightarrow> string \<Rightarrow> string \<Rightarrow> bool \<Rightarrow> string list \<Rightarrow> em_status \<Rightarrow> em_status" where
  "mark_unknown_loop clk r t reason message isDependent [] st =
     (if isDependent then SetCondition clk (mk_condition (happy r) ConditionUnknown reason message (severity r (happy r))) st
      else st)"
| "mark_unknown_loop clk r t reason message isDependent (d # ds) st =
     (if (case GetCondition st d of None \<Rightarrow> False | Some c \<Rightarrow> IsFalse c)
      then if (case GetCondition st (happy r) of None \<Rightarrow> False | Some c \<Rightarrow> IsFalse c) then st
           else MarkFalse clk r (happy r) reason message st
      else mark_unknown_loop clk r t reason message (isDependent \<or> d = t) ds st)"

definition MarkUnknown :: "clock \<Rightarrow> cond_set \<Rightarrow> string \<Rightarrow> string \<Rightarrow> string \<Rightarrow> em_status \<Rightarrow> em_status" where
  "MarkUnknown clk r t reason message st =
     mark_unknown_loop clk r t reason message False (dependents r)
       (SetCondition clk (mk_condition t ConditionUnknown reason message (severity r t)) st)"

lemma IsFalse_view:
  "(case GetCondition st t of None \<Rightarrow> False | Some c \<Rightarrow> IsFalse c) \<longleftrightarrow> map_option fst (cond_view st t) = Some ConditionFalse"
  by (auto simp: IsFalse_def cond_view_def cond_body_def split: option.splits)

text \<open>Marking Ready unknown: a dependent that is false makes it false instead.\<close>

lemma MarkUnknown_Ready_refines:
  assumes wf: "wf_status st"
  shows "wf_status (MarkUnknown clk EventMeshCondSet ''Ready'' reason message st)"
    and "cond_view (MarkUnknown clk EventMeshCondSet ''Ready'' reason message st) =
      (cond_view st)(''Ready'' \<mapsto>
        (if map_option fst (cond_view st ''InstallSucceeded'') = Some ConditionFalse \<or>
            map_option fst (cond_view st ''DeploymentsAvailable'') = Some ConditionFalse
         then ConditionFalse else ConditionUnknown, reason, message))"
proof -
  let ?st = "SetCondition clk (mk_condition ''Ready'' ConditionUnknown reason message ConditionSeverityError) st"
  let ?f = "SetCondition clk (mk_condition ''Ready'' ConditionFalse reason message ConditionSeverityError) ?st"
  let ?bad = "map_option fst (cond_view st ''InstallSucceeded'') = Some ConditionFalse \<or>
            map_option fst (cond_view st ''DeploymentsAvailable'') = Some ConditionFalse"
  have sev: "severity EventMeshCondSet ''Ready'' = ConditionSeverityError" by (intro severity_managed) auto
  have wf1: "wf_status ?st" by (intro SetCondition_wf [OF wf]) auto
  have v1: "cond_view ?st x = (if x = ''Ready'' then Some (ConditionUnknown, reason, message) else cond_view st x)" for x
    using SetCondition_view(2) [OF wf_status_distinct [OF wf]] by simp
  have ne: "ConditionUnknown \<noteq> ConditionFalse" by (simp add: condition_consts)
  have eq: "MarkUnknown clk EventMeshCondSet ''Ready'' reason message st = (if ?bad then ?f else ?st)"
    using ne by (auto simp: MarkUnknown_def MarkFalse_def sev IsFalse_view v1)
  have wf2: "wf_status ?f" by (intro SetCondition_wf [OF wf1]) auto
  then show "wf_status (MarkUnknown clk EventMeshCondSet ''Ready'' reason message st)" unfolding eq using wf1 by simp
  show "cond_view (MarkUnknown clk EventMeshCondSet ''Ready'' reason message st) =
      (cond_view st)(''Ready'' \<mapsto> (if ?bad then ConditionFalse else ConditionUnknown, reason, message))"
    unfolding eq by (auto simp: fun_eq_iff SetCondition_view(2) [OF wf_status_distinct [OF wf1]] v1)
qed

end
