(* ===== verification/Scheme_Convert.thy ===== *)
theory Scheme_Convert
  imports Unstructured
begin

text \<open>
  \<^verbatim>\<open>scheme.Scheme.Convert\<close> between unstructured objects and Go structs
  (\<^verbatim>\<open>k8s.io/apimachinery/pkg/runtime\<close>, converter.go and scheme.go), which every ConfigMap and
  workload transformer goes through. A Go type is a value of \<open>gotype\<close>, a typed Go value a
  value of \<open>goval\<close>; conversion is by recursion on the type, as the reflection-based code is.
  The lemmas show what survives a round trip: every field of the struct, and so the identity
  of the object, while fields unknown to the type and null or empty optional fields vanish.
\<close>

section \<open>Go types and values\<close>

text \<open>
  A struct lists its fields with JSON name and the \<^verbatim>\<open>omitempty\<close> mark; inlined structs are
  flattened. \<open>TNamed\<close> is a type whose inside the operator never looks at (a struct of
  \<^verbatim>\<open>k8s.io/api\<close>, or a type with its own JSON marshaller); its conversion is a parameter.
  \<open>TInt w\<close> is a signed integer of \<open>w\<close> bits (32 or 64).
\<close>

datatype gotype =
    TString
  | TBool
  | TInt nat
  | TPtr gotype
  | TSlice gotype
  | TMap gotype
  | TStruct "(string \<times> bool \<times> gotype) list"
  | TNamed string

datatype goval =
    VString string
  | VBool bool
  | VInt "64 word"
  | VPtr "goval option"
  | VSlice "goval list option"
  | VMap "(string \<times> goval) list option"
  | VStruct "(string \<times> bool \<times> goval) list"
  | VNamed gval

text \<open>
  What the operator's process finds around it: \<open>env_namespace\<close> is \<^verbatim>\<open>system.Namespace()\<close>, the
  next two the Unicode case tables, \<open>env_float_int\<close> the integer a float64 is equal to (if any),
  \<open>env_named\<close> and \<open>env_named_zero\<close> the image of a \<^const>\<open>TNamed\<close> value (and of its zero value)
  under the converter, the next two \<^verbatim>\<open>encoding/json\<close>, then the expansion of a
  \<^verbatim>\<open>regexp\<close> template with the given groups, and \<^verbatim>\<open>sort.Slice\<close>, which is not stable.
\<close>

record goenv =
  env_namespace :: string
  env_lower :: "string \<Rightarrow> string"
  env_upper :: "string \<Rightarrow> string"
  env_float_int :: "64 word \<Rightarrow> (64 word) option"
  env_named :: "string \<Rightarrow> gval \<Rightarrow> gval res"
  env_named_zero :: "string \<Rightarrow> gval"
  env_json_unmarshal :: "string \<Rightarrow> gval res"
  env_json_marshal :: "gval \<Rightarrow> string res"
  env_expand :: "string \<Rightarrow> string list \<Rightarrow> string"
  env_sort :: "(goval \<Rightarrow> goval \<Rightarrow> bool) \<Rightarrow> goval list \<Rightarrow> goval list"

fun zero_of :: "goenv \<Rightarrow> gotype \<Rightarrow> goval" where
  "zero_of env TString = VString ''''"
| "zero_of env TBool = VBool False"
| "zero_of env (TInt w) = VInt 0"
| "zero_of env (TPtr t) = VPtr None"
| "zero_of env (TSlice t) = VSlice None"
| "zero_of env (TMap t) = VMap None"
| "zero_of env (TStruct fs) = VStruct (map (\<lambda>(n, om, t). (n, om, zero_of env t)) fs)"
| "zero_of env (TNamed n) = VNamed (env_named_zero env n)"

text \<open>\<^verbatim>\<open>sv.Convert(dt)\<close> to a narrower integer truncates; the value is kept sign-extended.\<close>

definition convert_int :: "nat \<Rightarrow> 64 word \<Rightarrow> 64 word" where
  "convert_int w i = (if w = 32 then scast (ucast i :: 32 word) else i)"

definition restore_err :: "string \<Rightarrow> 'a res" where
  "restore_err what = Err (ErrMsg (''cannot restore '' @ what))"

fun fromUnstructured :: "goenv \<Rightarrow> gotype \<Rightarrow> gval \<Rightarrow> goval res" where
  "fromUnstructured env TString sv = (case sv of
       GNil \<Rightarrow> Ok (zero_of env TString) | GString s \<Rightarrow> Ok (VString s) | _ \<Rightarrow> restore_err ''string'')"
| "fromUnstructured env TBool sv = (case sv of
       GNil \<Rightarrow> Ok (zero_of env TBool) | GBool b \<Rightarrow> Ok (VBool b) | _ \<Rightarrow> restore_err ''bool'')"
| "fromUnstructured env (TInt w) sv = (case sv of
       GNil \<Rightarrow> Ok (zero_of env (TInt w))
     | GInt i \<Rightarrow> Ok (VInt (convert_int w i))
     | GFloat f \<Rightarrow> (case env_float_int env f of
           Some i \<Rightarrow> Ok (VInt (convert_int w i)) | None \<Rightarrow> restore_err ''int'')
     | _ \<Rightarrow> restore_err ''int'')"
| "fromUnstructured env (TPtr t) sv = (case sv of
       GNil \<Rightarrow> Ok (zero_of env (TPtr t))
     | _ \<Rightarrow> bind_res (fromUnstructured env t sv) (\<lambda>v. Ok (VPtr (Some v))))"
| "fromUnstructured env (TSlice t) sv = (case sv of
       GNil \<Rightarrow> Ok (zero_of env (TSlice t))
     | GSlice xs \<Rightarrow> bind_res (map_res (fromUnstructured env t) xs) (\<lambda>vs. Ok (VSlice (Some vs)))
     | _ \<Rightarrow> restore_err ''slice'')"
| "fromUnstructured env (TMap t) sv = (case sv of
       GNil \<Rightarrow> Ok (zero_of env (TMap t))
     | GMap m \<Rightarrow> bind_res (map_res (\<lambda>(k, x). bind_res (fromUnstructured env t x) (\<lambda>v. Ok (k, v))) m)
         (\<lambda>vs. Ok (VMap (Some vs)))
     | _ \<Rightarrow> restore_err ''map'')"
| "fromUnstructured env (TStruct fs) sv = (case sv of
       GNil \<Rightarrow> Ok (zero_of env (TStruct fs))
     | GMap m \<Rightarrow> bind_res (map_res (\<lambda>(n, om, t). bind_res (case map_of m n of
             None \<Rightarrow> Ok (zero_of env t)
           | Some x \<Rightarrow> fromUnstructured env t x) (\<lambda>v. Ok (n, om, v))) fs) (\<lambda>vs. Ok (VStruct vs))
     | _ \<Rightarrow> restore_err ''struct'')"
| "fromUnstructured env (TNamed n) sv = (case sv of
       GNil \<Rightarrow> Ok (zero_of env (TNamed n))
     | _ \<Rightarrow> bind_res (env_named env n sv) (\<lambda>v. Ok (VNamed v)))"

fun isZero :: "goval \<Rightarrow> bool" where
  "isZero (VString s) = (s = '''')"
| "isZero (VBool b) = (\<not> b)"
| "isZero (VInt i) = (i = 0)"
| "isZero (VPtr p) = (p = None)"
| "isZero (VSlice s) = (s = None \<or> s = Some [])"
| "isZero (VMap m) = (m = None \<or> m = Some [])"
| "isZero (VStruct fs) = False"
| "isZero (VNamed v) = False"

fun toUnstructured :: "goval \<Rightarrow> gval" where
  "toUnstructured (VString s) = GString s"
| "toUnstructured (VBool b) = GBool b"
| "toUnstructured (VInt i) = GInt i"
| "toUnstructured (VPtr None) = GNil"
| "toUnstructured (VPtr (Some v)) = toUnstructured v"
| "toUnstructured (VSlice None) = GNil"
| "toUnstructured (VSlice (Some vs)) = GSlice (map toUnstructured vs)"
| "toUnstructured (VMap None) = GNil"
| "toUnstructured (VMap (Some m)) = GMap (map (\<lambda>(k, v). (k, toUnstructured v)) m)"
| "toUnstructured (VStruct fs) =
     GMap (concat (map (\<lambda>(n, om, v). if om \<and> isZero v then [] else [(n, toUnstructured v)]) fs))"
| "toUnstructured (VNamed v) = v"

section \<open>Fields of a struct value\<close>

definition fld :: "goval \<Rightarrow> string \<Rightarrow> goval" where
  "fld v n = (case v of
       VStruct fs \<Rightarrow> (case map_of fs n of Some (om, w) \<Rightarrow> w | None \<Rightarrow> VPtr None)
     | _ \<Rightarrow> VPtr None)"

definition set_fld :: "goval \<Rightarrow> string \<Rightarrow> goval \<Rightarrow> goval" where
  "set_fld v n x = (case v of
       VStruct fs \<Rightarrow> VStruct (map (\<lambda>(m, om, w). (m, om, if m = n then x else w)) fs)
     | _ \<Rightarrow> v)"

definition fld_names :: "goval \<Rightarrow> string list" where
  "fld_names v = (case v of VStruct fs \<Rightarrow> map fst fs | _ \<Rightarrow> [])"

section \<open>The object types\<close>

definition TypeMeta_fields :: "(string \<times> bool \<times> gotype) list" where
  "TypeMeta_fields = [(''kind'', True, TString), (''apiVersion'', True, TString)]"

definition OwnerReference_type :: gotype where
  "OwnerReference_type = TStruct [(''apiVersion'', False, TString), (''kind'', False, TString),
     (''name'', False, TString), (''uid'', False, TString), (''controller'', True, TPtr TBool),
     (''blockOwnerDeletion'', True, TPtr TBool)]"

definition ManagedFieldsEntry_type :: gotype where
  "ManagedFieldsEntry_type = TStruct [(''manager'', True, TString), (''operation'', True, TString),
     (''apiVersion'', True, TString), (''time'', True, TPtr (TNamed ''Time'')), (''fieldsType'', True, TString),
     (''fieldsV1'', True, TPtr (TNamed ''FieldsV1'')), (''subresource'', True, TString)]"

definition ObjectMeta_fields :: "(string \<times> bool \<times> gotype) list" where
  "ObjectMeta_fields = [(''name'', True, TString), (''generateName'', True, TString),
     (''namespace'', True, TString), (''selfLink'', True, TString), (''uid'', True, TString),
     (''resourceVersion'', True, TString), (''generation'', True, TInt 64),
     (''creationTimestamp'', True, TNamed ''Time''), (''deletionTimestamp'', True, TPtr (TNamed ''Time'')),
     (''deletionGracePeriodSeconds'', True, TPtr (TInt 64)), (''labels'', True, TMap TString),
     (''annotations'', True, TMap TString), (''ownerReferences'', True, TSlice OwnerReference_type),
     (''finalizers'', True, TSlice TString), (''managedFields'', True, TSlice ManagedFieldsEntry_type)]"

definition ObjectMeta_type :: gotype where
  "ObjectMeta_type = TStruct ObjectMeta_fields"

definition ConfigMap_fields :: "(string \<times> bool \<times> gotype) list" where
  "ConfigMap_fields = TypeMeta_fields @ [(''metadata'', True, ObjectMeta_type),
     (''immutable'', True, TPtr TBool), (''data'', True, TMap TString),
     (''binaryData'', True, TMap (TNamed ''[]byte''))]"

definition ConfigMap_type :: gotype where
  "ConfigMap_type = TStruct ConfigMap_fields"

text \<open>
  The two directions of \<^verbatim>\<open>Scheme.Convert\<close> for a registered kind \<open>g\<close> with Go type \<open>ty\<close>. Towards
  the struct, the object's own group, version and kind must be the registered ones (no other
  registered type converts to it), and the copy into the target clears the type meta. Back, the
  content replaces the object's and the registered kind is set. \<open>flat_err\<close> is
  \<^verbatim>\<open>fmt.Errorf("m: %v", err)\<close>, which does not wrap.
\<close>

definition clear_type_meta :: "goval \<Rightarrow> goval" where
  "clear_type_meta v = set_fld (set_fld v ''kind'' (VString '''')) ''apiVersion'' (VString '''')"

definition flat_err :: "string \<Rightarrow> 'a res \<Rightarrow> 'a res" where
  "flat_err m r = (case r of Err e \<Rightarrow> Err (ErrMsg (m @ '': '' @ err_text e)) | _ \<Rightarrow> r)"

definition Convert_from :: "goenv \<Rightarrow> gvk \<Rightarrow> gotype \<Rightarrow> gobj \<Rightarrow> goval res" where
  "Convert_from env g ty u =
     (let k = GroupVersionKind u in
      if Kind k = '''' then Err (ErrMsg ''unstructured object has no kind'')
      else if Version k = '''' then Err (ErrMsg ''unstructured object has no version'')
      else if k \<noteq> g then Err (ErrMsg ''no kind is registered, or unknown conversion'')
      else bind_res (flat_err ''unable to convert unstructured object'' (fromUnstructured env ty (GMap u)))
             (\<lambda>v. Ok (clear_type_meta v)))"

definition Convert_to :: "gvk \<Rightarrow> goval \<Rightarrow> gobj res" where
  "Convert_to g v = (case toUnstructured v of
       GMap m \<Rightarrow> Ok (setNestedField (setNestedField m (GString (GroupVersion_String g)) [''apiVersion''])
                    (GString (Kind g)) [''kind''])
     | _ \<Rightarrow> Err (ErrMsg ''ToUnstructured requires a struct''))"

definition ConfigMap_gvk :: gvk where
  "ConfigMap_gvk = \<lparr>Group = '''', Version = ''v1'', Kind = ''ConfigMap''\<rparr>"


section \<open>Round trips\<close>

lemma flat_err_eq_Ok [simp]: "flat_err m r = Ok x \<longleftrightarrow> r = Ok x"
  by (cases r) (simp_all add: flat_err_def)

text \<open>A struct restored from a map: every field is the image of the entry of its name.\<close>

lemma map_of_triples:
  "distinct (map fst fs) \<Longrightarrow> (n, om, x) \<in> set fs \<Longrightarrow> map_of fs n = Some (om, x)"
  by simp

lemma struct_fields_restored:
  assumes "map_res (\<lambda>(n, om, t). bind_res (f n t) (\<lambda>v. Ok (n, om, v))) fs = Ok vs"
  shows "map fst vs = map fst fs \<and>
    (\<forall>n om t. map_of fs n = Some (om, t) \<longrightarrow> (\<exists>w. f n t = Ok w \<and> map_of vs n = Some (om, w)))"
  using assms
proof (induction fs arbitrary: vs)
  case (Cons a fs)
  then show ?case by (cases a) (auto simp: go_outcome)
qed simp

lemma struct_restored:
  assumes "fromUnstructured env (TStruct fs) (GMap m) = Ok v" and "map_of fs n = Some (om, t)"
  shows "\<exists>vs w. v = VStruct vs \<and> map fst vs = map fst fs \<and> map_of vs n = Some (om, w) \<and>
    (case map_of m n of None \<Rightarrow> Ok (zero_of env t) | Some x \<Rightarrow> fromUnstructured env t x) = Ok w"
proof -
  from assms(1) obtain vs where vs: "v = VStruct vs"
    and r: "map_res (\<lambda>(n, om, t). bind_res ((\<lambda>n t. case map_of m n of None \<Rightarrow> Ok (zero_of env t)
        | Some x \<Rightarrow> fromUnstructured env t x) n t) (\<lambda>v. Ok (n, om, v))) fs = Ok vs"
    by (auto simp: go_outcome)
  from struct_fields_restored [OF r] assms(2) vs show ?thesis by blast
qed

lemma from_struct_fld_names:
  "fromUnstructured env (TStruct fs) (GMap m) = Ok v \<Longrightarrow> fld_names v = map fst fs"
  using struct_fields_restored [of "\<lambda>n t. case map_of m n of None \<Rightarrow> Ok (zero_of env t)
        | Some x \<Rightarrow> fromUnstructured env t x" fs]
  by (auto simp: go_outcome fld_names_def)

lemma from_struct_fld:
  assumes "fromUnstructured env (TStruct fs) (GMap m) = Ok v" and "map_of fs n = Some (om, t)"
  shows "(case map_of m n of None \<Rightarrow> Ok (zero_of env t) | Some x \<Rightarrow> fromUnstructured env t x) = Ok (fld v n)"
  using struct_restored [OF assms] by (auto simp: fld_def)

definition omitempty :: "goval \<Rightarrow> string \<Rightarrow> bool" where
  "omitempty v n = (case v of VStruct fs \<Rightarrow> map_option fst (map_of fs n) = Some True | _ \<Rightarrow> False)"

lemma from_struct_omitempty:
  assumes "fromUnstructured env (TStruct fs) (GMap m) = Ok v" and "map_of fs n = Some (om, t)"
  shows "omitempty v n = om"
  using struct_restored [OF assms] by (auto simp: omitempty_def)

lemma map_of_emitted:
  "distinct (map fst fs) \<Longrightarrow>
     map_of (concat (map (\<lambda>(n, om, v). if om \<and> isZero v then [] else [(n, toUnstructured v)]) fs)) n =
       (case map_of fs n of None \<Rightarrow> None | Some (om, v) \<Rightarrow> if om \<and> isZero v then None else Some (toUnstructured v))"
proof (induction fs)
  case (Cons a fs)
  obtain k om v where a: "a = (k, om, v)" by (cases a)
  from Cons.prems a have "map_of fs k = None" by (simp add: map_of_eq_None_iff)
  with Cons a show ?case by auto
qed simp

definition struct_val :: "goval \<Rightarrow> bool" where
  "struct_val v \<longleftrightarrow> (\<exists>fs. v = VStruct fs)"

lemma from_struct_struct_val:
  "fromUnstructured env (TStruct fs) (GMap m) = Ok v \<Longrightarrow> struct_val v"
  by (auto simp: go_outcome struct_val_def)

lemma set_fld_names [simp]: "fld_names (set_fld v n x) = fld_names v"
  by (cases v) (auto simp: fld_names_def set_fld_def)

lemma set_fld_struct_val [simp]: "struct_val (set_fld v n x) = struct_val v"
  by (cases v) (auto simp: struct_val_def set_fld_def)

lemma map_of_set_fld:
  "map_of (map (\<lambda>(m, om, w). (m, om, if m = n then x else w)) fs) k =
     (case map_of fs k of None \<Rightarrow> None | Some (om, w) \<Rightarrow> Some (om, if k = n then x else w))"
  by (induction fs) auto

lemma fld_set_fld [simp]:
  "n \<in> set (fld_names v) \<Longrightarrow> fld (set_fld v n x) n = x"
  by (cases v) (auto simp: fld_def set_fld_def fld_names_def map_of_set_fld split: option.splits
      dest: weak_map_of_SomeI simp: map_of_eq_None_iff)

lemma fld_set_fld_other [simp]: "n \<noteq> k \<Longrightarrow> fld (set_fld v n x) k = fld v k"
  by (cases v) (auto simp: fld_def set_fld_def map_of_set_fld split: option.splits)

lemma omitempty_set_fld [simp]: "omitempty (set_fld v n x) k = omitempty v k"
  by (cases v) (auto simp: omitempty_def set_fld_def map_of_set_fld split: option.splits)

text \<open>Reading the emitted object back by field name.\<close>

lemma emitted_field:
  assumes "struct_val v" and "distinct (fld_names v)" and "n \<in> set (fld_names v)"
  shows "\<exists>m. toUnstructured v = GMap m \<and>
    map_of m n = (if omitempty v n \<and> isZero (fld v n) then None else Some (toUnstructured (fld v n)))"
proof -
  from assms(1) obtain fs where v: "v = VStruct fs" by (auto simp: struct_val_def)
  with assms(3) obtain om w where "map_of fs n = Some (om, w)"
    by (cases "map_of fs n") (auto simp: fld_names_def map_of_eq_None_iff)
  with v assms(2) map_of_emitted [of fs n] show ?thesis
    by (auto simp: fld_names_def fld_def omitempty_def)
qed


lemma from_nil_as_empty: "fromUnstructured env (TStruct fs) GNil = fromUnstructured env (TStruct fs) (GMap [])"
proof -
  have "map_res (\<lambda>(n, om, t). bind_res (case map_of [] n of None \<Rightarrow> Ok (zero_of env t)
        | Some x \<Rightarrow> fromUnstructured env t x) (\<lambda>v. Ok (n, om, v))) fs =
      Ok (map (\<lambda>(n, om, t). (n, om, zero_of env t)) fs)"
    by (rule map_res_total) auto
  then show ?thesis by simp
qed

text \<open>The map a struct field is restored from; absent and null are the empty map.\<close>

definition sub_object :: "gobj \<Rightarrow> string \<Rightarrow> gobj" where
  "sub_object u n = (case map_of u n of Some (GMap m) \<Rightarrow> m | _ \<Rightarrow> [])"

lemma from_sub_struct:
  assumes "fromUnstructured env (TStruct fs) (GMap u) = Ok v" and "map_of fs n = Some (om, TStruct gs)"
  shows "fromUnstructured env (TStruct gs) (GMap (sub_object u n)) = Ok (fld v n)"
proof -
  have r: "(case map_of u n of None \<Rightarrow> Ok (zero_of env (TStruct gs)) | Some x \<Rightarrow> fromUnstructured env (TStruct gs) x) = Ok (fld v n)"
    by (rule from_struct_fld [OF assms])
  have z: "Ok (zero_of env (TStruct gs)) = fromUnstructured env (TStruct gs) (GMap [])"
    using from_nil_as_empty [of env gs] by simp
  show ?thesis
  proof (cases "map_of u n")
    case None
    with r z show ?thesis by (simp add: sub_object_def del: fromUnstructured.simps zero_of.simps)
  next
    case (Some x)
    with r have x: "fromUnstructured env (TStruct gs) x = Ok (fld v n)" by simp
    show ?thesis
    proof (cases "x = GNil")
      case True
      with x Some show ?thesis
        by (simp only: sub_object_def from_nil_as_empty option.simps gval.simps)
    next
      case False
      with x obtain m where "x = GMap m"
        by (cases x) (simp_all add: restore_err_def)
      with x Some show ?thesis by (simp add: sub_object_def del: fromUnstructured.simps)
    qed
  qed
qed

text \<open>A string field as the object's accessor reads it.\<close>

lemma from_string_fld:
  assumes "fromUnstructured env (TStruct fs) (GMap m) = Ok v" and "map_of fs n = Some (om, TString)"
  shows "fld v n = VString (getNestedString m [n])"
  using from_struct_fld [OF assms]
  by (cases "map_of m n")
    (auto simp: getNestedString_def NestedString_def NestedFieldNoCopy_def restore_err_def split: gval.splits)

lemma getNestedString_sub:
  "getNestedString (sub_object u f) [n] = getNestedString u [f, n]"
  by (cases "map_of u f"; cases "the (map_of u f)")
    (auto simp: sub_object_def getNestedString_def NestedString_def NestedFieldNoCopy_def)

lemma emitted_string:
  assumes "struct_val v" "distinct (fld_names v)" "n \<in> set (fld_names v)" "fld v n = VString s"
    and "toUnstructured v = GMap m"
  shows "getNestedString m [n] = s"
  using emitted_field [OF assms(1-3)] assms(4,5)
  by (auto simp: getNestedString_def NestedString_def NestedFieldNoCopy_def split: if_splits)

lemma emitted_sub:
  assumes "struct_val v" "distinct (fld_names v)" "f \<in> set (fld_names v)" "struct_val (fld v f)"
    and "toUnstructured v = GMap m"
  shows "\<exists>m'. toUnstructured (fld v f) = GMap m' \<and> map_of m f = Some (GMap m')"
  using emitted_field [OF assms(1-3)] assms(4,5) by (auto simp: struct_val_def)

text \<open>Types of API objects: type meta, then an object meta, under distinct names.\<close>

definition object_fields :: "(string \<times> bool \<times> gotype) list \<Rightarrow> bool" where
  "object_fields fs \<longleftrightarrow> distinct (map fst fs) \<and>
     map_of fs ''kind'' = Some (True, TString) \<and> map_of fs ''apiVersion'' = Some (True, TString) \<and>
     map_of fs ''metadata'' = Some (True, ObjectMeta_type)"

text \<open>
  A typed object that still has the metadata identity of \<open>u\<close>: what every edit of a converted
  object that leaves name and namespace alone keeps.
\<close>

definition same_identity :: "(string \<times> bool \<times> gotype) list \<Rightarrow> gobj \<Rightarrow> goval \<Rightarrow> bool" where
  "same_identity fs u v \<longleftrightarrow> struct_val v \<and> fld_names v = map fst fs \<and> struct_val (fld v ''metadata'') \<and>
     distinct (fld_names (fld v ''metadata'')) \<and>
     {''name'', ''namespace''} \<subseteq> set (fld_names (fld v ''metadata'')) \<and>
     fld (fld v ''metadata'') ''name'' = VString (GetName u) \<and>
     fld (fld v ''metadata'') ''namespace'' = VString (GetNamespace u)"

lemma clear_type_meta_fld [simp]:
  "n \<noteq> ''kind'' \<Longrightarrow> n \<noteq> ''apiVersion'' \<Longrightarrow> fld (clear_type_meta v) n = fld v n"
  by (simp add: clear_type_meta_def)

lemma clear_type_meta_names [simp]: "fld_names (clear_type_meta v) = fld_names v"
  "struct_val (clear_type_meta v) = struct_val v"
  by (simp_all add: clear_type_meta_def)

lemma Convert_from_Ok:
  assumes "Convert_from env g ty u = Ok v"
  obtains w where "GroupVersionKind u = g" "fromUnstructured env ty (GMap u) = Ok w" "v = clear_type_meta w"
  using assms by (auto simp: Convert_from_def Let_def go_outcome split: if_splits)

lemma Convert_from_identity:
  assumes "Convert_from env g (TStruct fs) u = Ok v" and "object_fields fs"
  shows "same_identity fs u v"
proof -
  from assms(1) obtain w where w: "fromUnstructured env (TStruct fs) (GMap u) = Ok w" and v: "v = clear_type_meta w"
    by (rule Convert_from_Ok)
  have md: "fromUnstructured env (TStruct ObjectMeta_fields) (GMap (sub_object u ''metadata'')) = Ok (fld w ''metadata'')"
    using assms(2) by (intro from_sub_struct [OF w]) (simp add: object_fields_def ObjectMeta_type_def)
  have fields: "map_of ObjectMeta_fields ''name'' = Some (True, TString)"
    "map_of ObjectMeta_fields ''namespace'' = Some (True, TString)"
    "distinct (map fst ObjectMeta_fields)" "{''name'', ''namespace''} \<subseteq> set (map fst ObjectMeta_fields)"
    by (simp_all add: ObjectMeta_fields_def)
  show ?thesis
    using from_string_fld [OF md fields(1)] from_string_fld [OF md fields(2)]
      from_struct_struct_val [OF w] from_struct_fld_names [OF w]
      from_struct_struct_val [OF md] from_struct_fld_names [OF md] fields(3,4)
    by (simp add: same_identity_def v getNestedString_sub GetName_def GetNamespace_def)
qed

lemma setNestedField_top:
  "f \<noteq> n \<Longrightarrow> getNestedString (setNestedField m x [f]) (n # ns) = getNestedString m (n # ns)"
  "getNestedString (setNestedField m (GString s) [f]) [f] = s"
  by (simp_all add: setNestedField_def getNestedString_def NestedString_def NestedFieldNoCopy_def)

lemma map_of_setNestedField_top:
  "map_of (setNestedField m x [f]) n = (if n = f then Some x else map_of m n)"
  by (simp add: setNestedField_def)

text \<open>Group versions the printer and the parser agree on.\<close>

definition printable_gvk :: "gvk \<Rightarrow> bool" where
  "printable_gvk g \<longleftrightarrow> ParseGroupVersion (GroupVersion_String g) = Some (Group g, Version g)"

lemma Convert_to_identity:
  assumes "same_identity fs u v" and "object_fields fs" and "Convert_to g v = Ok u'"
    and "GroupVersionKind u = g" and "Kind g \<noteq> ''''" and "printable_gvk g"
  shows "res_key u' = res_key u"
proof -
  from assms(3) obtain m where m: "toUnstructured v = GMap m"
    and u': "u' = setNestedField (setNestedField m (GString (GroupVersion_String g)) [''apiVersion'']) (GString (Kind g)) [''kind'']"
    by (auto simp: Convert_to_def split: gval.splits)
  let ?md = "fld v ''metadata''"
  have mem: "''metadata'' \<in> set (fld_names v)" "distinct (fld_names v)"
    using assms(1,2) by (force simp: same_identity_def object_fields_def dest: map_of_SomeD)+
  obtain mm where mm: "toUnstructured ?md = GMap mm" "map_of m ''metadata'' = Some (GMap mm)"
    using emitted_sub [OF _ mem(2,1) _ m] assms(1) by (auto simp: same_identity_def)
  have sub: "getNestedString u' [''metadata'', n] = getNestedString mm [n]" for n
    by (subst getNestedString_sub [symmetric])
      (simp add: u' sub_object_def map_of_setNestedField_top mm(2))
  have "GetName u' = GetName u" "GetNamespace u' = GetNamespace u"
    using assms(1) sub emitted_string [of ?md _ _ mm] mm(1)
    by (simp_all add: GetName_def GetNamespace_def same_identity_def)
  moreover have k: "GetKind u' = Kind g" "GetAPIVersion u' = GroupVersion_String g"
    by (simp_all add: u' GetKind_def GetAPIVersion_def setNestedField_top)
  moreover have "GroupVersionKind u' = g"
    using assms(6) k by (simp add: GroupVersionKind_def printable_gvk_def)
  moreover have "GetKind u = Kind g"
    using assms(4,5) by (auto simp: GroupVersionKind_def split: option.splits)
  ultimately show ?thesis using assms(4) by (simp add: res_key_def)
qed


section \<open>String maps\<close>

definition typed_string_map :: "string gomap option \<Rightarrow> goval" where
  "typed_string_map d = VMap (map_option (map (\<lambda>(k, s). (k, VString s))) d)"

text \<open>An empty map is not emitted, so it reads back as absent.\<close>

definition emitted_map :: "string gomap option \<Rightarrow> string gomap option" where
  "emitted_map d = (if d = Some [] then None else d)"

lemma from_string_entries:
  "map_res (\<lambda>(k, x). bind_res (fromUnstructured env TString x) (\<lambda>v. Ok (k, v))) m = Ok vs \<longleftrightarrow>
     (\<exists>sm. string_map_of m = Ok sm \<and> vs = map (\<lambda>(k, s). (k, VString s)) sm)"
proof (induction m arbitrary: vs)
  case (Cons a m)
  obtain k x where a: "a = (k, x)" by (cases a)
  have "fromUnstructured env TString x = Ok v \<longleftrightarrow> (\<exists>s. coerce_string x = Ok s \<and> v = VString s)" for v
    by (cases x) (auto simp: restore_err_def)
  with Cons a show ?case
    by (auto simp: string_map_of_def go_outcome simp del: fromUnstructured.simps)
qed (auto simp: string_map_of_def)

lemma from_string_map_fld:
  assumes "fromUnstructured env (TStruct fs) (GMap u) = Ok v" and "map_of fs n = Some (om, TMap TString)"
  shows "\<exists>d. NestedNullCoercingStringMap u [n] = Ok d \<and> fld v n = typed_string_map d"
proof -
  have r: "(case map_of u n of None \<Rightarrow> Ok (zero_of env (TMap TString))
      | Some x \<Rightarrow> fromUnstructured env (TMap TString) x) = Ok (fld v n)"
    by (rule from_struct_fld [OF assms])
  show ?thesis
  proof (cases "map_of u n")
    case None
    with r show ?thesis
      by (simp add: NestedNullCoercingStringMap_def NestedFieldNoCopy_def typed_string_map_def)
  next
    case (Some x)
    with r have x: "fromUnstructured env (TMap TString) x = Ok (fld v n)" by simp
    show ?thesis
    proof (cases x)
      case (GMap m)
      with x obtain vs where vs: "fld v n = VMap (Some vs)"
        "map_res (\<lambda>(k, x). bind_res (fromUnstructured env TString x) (\<lambda>v. Ok (k, v))) m = Ok vs"
        by (auto simp: go_outcome simp del: fromUnstructured.simps(1) dest: sym)
      then obtain sm where "string_map_of m = Ok sm" "vs = map (\<lambda>(k, s). (k, VString s)) sm"
        using from_string_entries by blast
      with vs(1) show ?thesis
        by (simp add: NestedNullCoercingStringMap_def NestedFieldNoCopy_def Some GMap typed_string_map_def)
    qed (use x in \<open>simp_all add: NestedNullCoercingStringMap_def NestedFieldNoCopy_def Some
        typed_string_map_def restore_err_def\<close>)
  qed
qed

lemma string_map_of_emitted: "string_map_of (map (\<lambda>(k, s). (k, GString s)) m) = Ok m"
  by (induction m) (auto simp: string_map_of_def)

lemma toUnstructured_string_map:
  "toUnstructured (typed_string_map (Some m)) = GMap (map (\<lambda>(k, s). (k, GString s)) m)"
  by (simp add: typed_string_map_def case_prod_unfold o_def)

lemma emitted_string_map:
  assumes "struct_val v" "distinct (fld_names v)" "n \<in> set (fld_names v)" "omitempty v n"
    and "fld v n = typed_string_map d" and "toUnstructured v = GMap m"
  shows "NestedNullCoercingStringMap m [n] = Ok (emitted_map d)"
proof -
  have e: "map_of m n = (if isZero (typed_string_map d) then None else Some (toUnstructured (typed_string_map d)))"
    using emitted_field [OF assms(1-3)] assms(4-6) by auto
  show ?thesis
  proof (cases d)
    case None
    with e show ?thesis
      by (simp add: typed_string_map_def emitted_map_def NestedNullCoercingStringMap_def NestedFieldNoCopy_def)
  next
    case (Some sm)
    then have z: "isZero (typed_string_map d) \<longleftrightarrow> sm = []" by (simp add: typed_string_map_def)
    with e Some show ?thesis
      by (simp add: emitted_map_def NestedNullCoercingStringMap_def NestedFieldNoCopy_def
          toUnstructured_string_map string_map_of_emitted)
  qed
qed


lemma nested_map_sub:
  assumes "map_of u f = Some (GMap m)"
  shows "NestedNullCoercingStringMap u [f, n] = NestedNullCoercingStringMap m [n]"
  using assms by (simp add: NestedNullCoercingStringMap_def NestedFieldNoCopy_def)

lemma Convert_to_field:
  assumes "Convert_to g v = Ok u'" and "n \<noteq> ''kind''" and "n \<noteq> ''apiVersion''"
  shows "\<exists>m. toUnstructured v = GMap m \<and> map_of u' n = map_of m n"
  using assms by (auto simp: Convert_to_def map_of_setNestedField_top split: gval.splits)

lemma Convert_to_struct: "struct_val v \<Longrightarrow> \<exists>u'. Convert_to g v = Ok u'"
  by (auto simp: struct_val_def Convert_to_def)

text \<open>
  The string maps of the metadata (labels, annotations) survive an edit that leaves the typed
  metadata alone.
\<close>

lemma metadata_map_preserved:
  assumes "Convert_from env g (TStruct fs) u = Ok v" and "object_fields fs"
    and "struct_val v'" and "fld_names v' = map fst fs" and "fld v' ''metadata'' = fld v ''metadata''"
    and "Convert_to g v' = Ok u'" and "n \<in> {''labels'', ''annotations''}"
    and "NestedNullCoercingStringMap u [''metadata'', n] = Ok d"
  shows "NestedNullCoercingStringMap u' [''metadata'', n] = Ok (emitted_map d)"
proof -
  from assms(1) obtain w where w: "fromUnstructured env (TStruct fs) (GMap u) = Ok w" and v: "v = clear_type_meta w"
    by (rule Convert_from_Ok)
  let ?md = "fld w ''metadata''"
  have md: "fromUnstructured env (TStruct ObjectMeta_fields) (GMap (sub_object u ''metadata'')) = Ok ?md"
    using assms(2) by (intro from_sub_struct [OF w]) (simp add: object_fields_def ObjectMeta_type_def)
  have f: "map_of ObjectMeta_fields n = Some (True, TMap TString)" "n \<in> set (map fst ObjectMeta_fields)"
    "distinct (map fst ObjectMeta_fields)"
    using assms(7) by (auto simp: ObjectMeta_fields_def)
  obtain d' where d': "NestedNullCoercingStringMap (sub_object u ''metadata'') [n] = Ok d'" "fld ?md n = typed_string_map d'"
    using from_string_map_fld [OF md f(1)] by blast
  have "NestedNullCoercingStringMap u [''metadata'', n] = NestedNullCoercingStringMap (sub_object u ''metadata'') [n]"
    using assms(8) by (cases "map_of u ''metadata''"; cases "the (map_of u ''metadata'')")
      (auto simp: sub_object_def NestedNullCoercingStringMap_def NestedFieldNoCopy_def)
  with assms(8) d'(1) have dd: "d' = d" by simp
  obtain m where m: "toUnstructured v' = GMap m" "map_of u' ''metadata'' = map_of m ''metadata''"
    using Convert_to_field [OF assms(6), of "''metadata''"] by auto
  have mem: "''metadata'' \<in> set (fld_names v')" "distinct (fld_names v')"
    using assms(2,4) by (force simp: object_fields_def dest: map_of_SomeD)+
  have sv: "struct_val (fld v' ''metadata'')" using from_struct_struct_val [OF md] assms(5) v by simp
  obtain mm where mm: "toUnstructured ?md = GMap mm" "map_of m ''metadata'' = Some (GMap mm)"
    using emitted_sub [OF assms(3) mem(2,1) sv m(1)] assms(5) v by auto
  have "NestedNullCoercingStringMap mm [n] = Ok (emitted_map d')"
    using from_struct_fld_names [OF md] f d'(2) mm(1) from_struct_struct_val [OF md]
      from_struct_omitempty [OF md f(1)]
    by (intro emitted_string_map [of ?md]) simp_all
  with m(2) mm(2) dd show ?thesis by (simp add: nested_map_sub)
qed


section \<open>Emitted objects convert again\<close>

text \<open>
  Values of a type. For a \<^const>\<open>TNamed\<close> type all that matters is that the converter takes the
  image back.
\<close>

fun has_type :: "goenv \<Rightarrow> gotype \<Rightarrow> goval \<Rightarrow> bool" where
  "has_type env TString v = (case v of VString s \<Rightarrow> True | _ \<Rightarrow> False)"
| "has_type env TBool v = (case v of VBool b \<Rightarrow> True | _ \<Rightarrow> False)"
| "has_type env (TInt w) v = (case v of VInt i \<Rightarrow> True | _ \<Rightarrow> False)"
| "has_type env (TPtr t) v = (case v of VPtr None \<Rightarrow> True | VPtr (Some w) \<Rightarrow> has_type env t w | _ \<Rightarrow> False)"
| "has_type env (TSlice t) v = (case v of VSlice None \<Rightarrow> True | VSlice (Some ws) \<Rightarrow> list_all (has_type env t) ws | _ \<Rightarrow> False)"
| "has_type env (TMap t) v = (case v of VMap None \<Rightarrow> True | VMap (Some m) \<Rightarrow> list_all (\<lambda>(k, w). has_type env t w) m | _ \<Rightarrow> False)"
| "has_type env (TStruct fs) v = (case v of
     VStruct vs \<Rightarrow> map (\<lambda>(n, om, w). (n, om)) vs = map (\<lambda>(n, om, t). (n, om)) fs \<and>
       list_all (\<lambda>(n, om, t). has_type env t (fld (VStruct vs) n)) fs
   | _ \<Rightarrow> False)"
| "has_type env (TNamed n) v = (case v of VNamed g \<Rightarrow> g = GNil \<or> is_ok (env_named env n g) | _ \<Rightarrow> False)"

fun wf_type :: "gotype \<Rightarrow> bool" where
  "wf_type (TPtr t) = wf_type t"
| "wf_type (TSlice t) = wf_type t"
| "wf_type (TMap t) = wf_type t"
| "wf_type (TStruct fs) = (distinct (map fst fs) \<and> list_all (\<lambda>(n, om, t). wf_type t) fs)"
| "wf_type t = True"

text \<open>What is asked of the parameters: what a named type's conversion emits, it accepts.\<close>

definition env_stable :: "goenv \<Rightarrow> bool" where
  "env_stable env \<longleftrightarrow> (\<forall>n. env_named_zero env n = GNil \<or> is_ok (env_named env n (env_named_zero env n))) \<and>
     (\<forall>n x y. env_named env n x = Ok y \<longrightarrow> y = GNil \<or> is_ok (env_named env n y))"

lemma fld_VStruct: "map_of vs n = Some (om, w) \<Longrightarrow> fld (VStruct vs) n = w"
  by (simp add: fld_def)

lemma has_type_zero:
  "env_stable env \<Longrightarrow> wf_type ty \<Longrightarrow> has_type env ty (zero_of env ty)"
proof (induction ty)
  case (TStruct fs)
  have "has_type env t (fld (zero_of env (TStruct fs)) n)" if t: "(n, om, t) \<in> set fs" for n om t
  proof -
    have "map_of (map (\<lambda>(n, om, t). (n, om, zero_of env t)) fs) n = Some (om, zero_of env t)"
      using t TStruct.prems(2) by (intro map_of_triples) (force simp: o_def case_prod_unfold)+
    moreover have "wf_type t" using t TStruct.prems(2) by (auto simp: list_all_iff)
    ultimately show ?thesis
      using TStruct.IH [of "(n, om, t)"] t TStruct.prems(1) by (simp add: fld_VStruct snds.simps)
  qed
  then show ?case by (auto simp: list_all_iff o_def case_prod_unfold)
qed (simp_all add: env_stable_def)


lemma map_res_set:
  "map_res f xs = Ok ys \<Longrightarrow> y \<in> set ys \<Longrightarrow> \<exists>x\<in>set xs. f x = Ok y"
  by (induction xs arbitrary: ys) (auto simp: go_outcome)

lemma map_res_is_ok: "is_ok (map_res f xs) \<longleftrightarrow> (\<forall>x\<in>set xs. is_ok (f x))"
proof (induction xs)
  case (Cons a xs)
  then show ?case by (cases "f a"; cases "map_res f xs") auto
qed simp

lemma struct_marks_restored:
  "map_res (\<lambda>(n, om, t). bind_res (f n t) (\<lambda>v. Ok (n, om, v))) fs = Ok vs \<Longrightarrow>
     map (\<lambda>(n, om, w). (n, om)) vs = map (\<lambda>(n, om, t). (n, om)) fs"
proof (induction fs arbitrary: vs)
  case (Cons a fs)
  then show ?case by (cases a) (auto simp: go_outcome)
qed simp

lemma from_has_type:
  "env_stable env \<Longrightarrow> wf_type ty \<Longrightarrow> fromUnstructured env ty x = Ok v \<Longrightarrow> has_type env ty v"
proof (induction ty arbitrary: x v)
  case (TPtr t)
  show ?case
  proof (cases "x = GNil")
    case False
    with TPtr.prems(3) obtain w where "fromUnstructured env t x = Ok w" "v = VPtr (Some w)"
      by (cases x) (auto simp: go_outcome)
    with TPtr show ?thesis by simp
  qed (use TPtr.prems(3) in auto)
next
  case (TSlice t)
  show ?case
  proof (cases "x = GNil")
    case False
    with TSlice.prems(3) obtain xs ws where "map_res (fromUnstructured env t) xs = Ok ws" "v = VSlice (Some ws)"
      by (cases x) (auto simp: go_outcome restore_err_def)
    with TSlice.IH TSlice.prems(1,2) map_res_set [of "fromUnstructured env t" xs ws] show ?thesis
      by (fastforce simp: list_all_iff)
  qed (use TSlice.prems(3) in auto)
next
  case (TMap t)
  let ?f = "\<lambda>(k, x). bind_res (fromUnstructured env t x) (\<lambda>v. Ok (k, v))"
  show ?case
  proof (cases "x = GNil")
    case False
    with TMap.prems(3) obtain xs ws where ws: "map_res ?f xs = Ok ws" "v = VMap (Some ws)"
      by (cases x) (auto simp: go_outcome restore_err_def)
    have "has_type env t w" if "(k, w) \<in> set ws" for k w
      using map_res_set [OF ws(1) that] TMap.IH TMap.prems(1,2) by (auto simp: go_outcome)
    with ws(2) show ?thesis by (auto simp: list_all_iff)
  qed (use TMap.prems(3) in auto)
next
  case (TStruct fs)
  show ?case
  proof (cases "x = GNil")
    case True
    with TStruct.prems has_type_zero [of env "TStruct fs"] show ?thesis
      by (simp del: has_type.simps zero_of.simps wf_type.simps)
  next
    case False
    with TStruct.prems(3) obtain m where x: "x = GMap m" by (cases x) (auto simp: restore_err_def)
    with TStruct.prems(3) obtain vs where vs: "v = VStruct vs"
      "map_res (\<lambda>(n, om, t). bind_res ((\<lambda>n t. case map_of m n of None \<Rightarrow> Ok (zero_of env t)
         | Some x \<Rightarrow> fromUnstructured env t x) n t) (\<lambda>v. Ok (n, om, v))) fs = Ok vs"
      by (auto simp: go_outcome)
    have "has_type env t (fld v n)" if t: "(n, om, t) \<in> set fs" for n om t
    proof -
      have wt: "wf_type t" "map_of fs n = Some (om, t)"
        using t TStruct.prems(2) by (auto simp: list_all_iff)
      have "(case map_of m n of None \<Rightarrow> Ok (zero_of env t) | Some x \<Rightarrow> fromUnstructured env t x) = Ok (fld v n)"
        using from_struct_fld [of env fs m v n om t] TStruct.prems(3) x wt(2) by simp
      then show ?thesis
        using TStruct.IH [of "(n, om, t)"] t TStruct.prems(1) wt(1) has_type_zero [of env t]
        by (auto simp: snds.simps split: option.splits)
    qed
    with struct_marks_restored [OF vs(2)] vs(1) show ?thesis by (auto simp: list_all_iff)
  qed
next
  case (TNamed n)
  then show ?case by (auto simp: env_stable_def go_outcome split: gval.splits)
qed (auto simp: restore_err_def split: gval.splits option.splits)

lemma has_type_names: "has_type env (TStruct fs) v \<Longrightarrow> struct_val v \<and> fld_names v = map fst fs"
proof -
  assume "has_type env (TStruct fs) v"
  then obtain vs where vs: "v = VStruct vs" "map (\<lambda>(n, om, w). (n, om)) vs = map (\<lambda>(n, om, t). (n, om)) fs"
    by (auto split: goval.splits)
  then have "map fst (map (\<lambda>(n, om, w). (n, om)) vs) = map fst (map (\<lambda>(n, om, t). (n, om)) fs)" by simp
  then show ?thesis using vs(1) by (simp add: struct_val_def fld_names_def o_def case_prod_unfold)
qed

lemma is_ok_from_GNil: "is_ok (fromUnstructured env ty GNil)"
  by (cases ty) simp_all

text \<open>What the converter emits from a value of a type, it takes back.\<close>

lemma emitted_convertible:
  "wf_type ty \<Longrightarrow> has_type env ty v \<Longrightarrow> is_ok (fromUnstructured env ty (toUnstructured v))"
proof (induction ty arbitrary: v)
  case (TPtr t)
  show ?case
  proof (cases "toUnstructured v = GNil")
    case True
    then show ?thesis by (metis is_ok_from_GNil)
  next
    case False
    with TPtr.prems obtain w where w: "v = VPtr (Some w)" "has_type env t w"
      by (auto split: goval.splits option.splits)
    with TPtr.IH [of w] TPtr.prems(1) have "is_ok (fromUnstructured env t (toUnstructured w))" by simp
    with False w(1) show ?thesis
      by (cases "toUnstructured w"; cases "fromUnstructured env t (toUnstructured w)") auto
  qed
next
  case (TSlice t)
  show ?case
  proof (cases "v = VSlice None")
    case False
    with TSlice.prems obtain ws where ws: "v = VSlice (Some ws)" "list_all (has_type env t) ws"
      by (auto split: goval.splits option.splits)
    have "is_ok (map_res (fromUnstructured env t) (map toUnstructured ws))"
      unfolding map_res_is_ok using TSlice.IH TSlice.prems(1) ws(2) by (auto simp: list_all_iff)
    with ws(1) show ?thesis
      by (cases "map_res (fromUnstructured env t) (map toUnstructured ws)") auto
  qed simp
next
  case (TMap t)
  show ?case
  proof (cases "v = VMap None")
    case False
    with TMap.prems obtain m where m: "v = VMap (Some m)" "list_all (\<lambda>(k, w). has_type env t w) m"
      by (auto split: goval.splits option.splits)
    let ?f = "\<lambda>(k, x). bind_res (fromUnstructured env t x) (\<lambda>v. Ok (k, v))"
    have "is_ok (?f (k, toUnstructured w))" if "(k, w) \<in> set m" for k w
      using TMap.IH [of w] TMap.prems(1) m(2) that
      by (cases "fromUnstructured env t (toUnstructured w)") (auto simp: list_all_iff)
    then have "is_ok (map_res ?f (map (\<lambda>(k, v). (k, toUnstructured v)) m))"
      unfolding map_res_is_ok by auto
    with m(1) show ?thesis
      by (cases "map_res ?f (map (\<lambda>(k, v). (k, toUnstructured v)) m)") auto
  qed simp
next
  case (TStruct fs)
  note names = has_type_names [OF TStruct.prems(2)]
  from TStruct.prems(2) obtain vs where vs: "v = VStruct vs" by (auto split: goval.splits)
  obtain m where m: "toUnstructured v = GMap m" using vs by simp
  let ?g = "\<lambda>n t. case map_of m n of None \<Rightarrow> Ok (zero_of env t) | Some x \<Rightarrow> fromUnstructured env t x"
  let ?f = "\<lambda>(n, om, t). bind_res (?g n t) (\<lambda>v. Ok (n, om, v))"
  have "is_ok (?f (n, om, t))" if t: "(n, om, t) \<in> set fs" for n om t
  proof -
    have wt: "wf_type t" "has_type env t (fld v n)" "n \<in> set (fld_names v)" "distinct (fld_names v)"
      using t TStruct.prems names vs by (force simp: list_all_iff)+
    have "is_ok (fromUnstructured env t (toUnstructured (fld v n)))"
      using TStruct.IH [of "(n, om, t)"] t wt(1,2) by (simp add: snds.simps)
    then have "is_ok (?g n t)"
      using emitted_field [of v n] names wt(3,4) m by (auto split: if_splits option.splits)
    then show ?thesis by (cases "?g n t") auto
  qed
  then have "is_ok (map_res ?f fs)" unfolding map_res_is_ok by auto
  then show ?case using m by (cases "map_res ?f fs") auto
next
  case (TNamed n)
  then show ?case
    by (cases v; cases "fromUnstructured env (TNamed n) (toUnstructured v)")
      (auto simp: go_outcome split: gval.splits)
qed (auto split: goval.splits)


lemma from_struct_is_ok:
  "is_ok (fromUnstructured env (TStruct fs) (GMap m)) \<longleftrightarrow>
     (\<forall>(n, om, t)\<in>set fs. is_ok (case map_of m n of None \<Rightarrow> Ok (zero_of env t) | Some x \<Rightarrow> fromUnstructured env t x))"
proof -
  let ?g = "\<lambda>n t. case map_of m n of None \<Rightarrow> Ok (zero_of env t) | Some x \<Rightarrow> fromUnstructured env t x"
  let ?f = "\<lambda>(n, om, t). bind_res (?g n t) (\<lambda>v. Ok (n, om, v))"
  have "is_ok (fromUnstructured env (TStruct fs) (GMap m)) = is_ok (map_res ?f fs)"
    by (cases "map_res ?f fs") auto
  also have "\<dots> \<longleftrightarrow> (\<forall>(n, om, t)\<in>set fs. is_ok (?g n t))"
  proof -
    have "is_ok (bind_res r (\<lambda>v. Ok (n, om, v))) = is_ok r" for r :: "goval res" and n :: string and om :: bool
      by (cases r) auto
    then show ?thesis unfolding map_res_is_ok by (simp add: case_prod_unfold)
  qed
  finally show ?thesis .
qed

lemma has_type_set_fld:
  assumes "has_type env (TStruct fs) v" and "distinct (map fst fs)"
    and "map_of fs n = Some (om, t)" and "has_type env t x"
  shows "has_type env (TStruct fs) (set_fld v n x)"
proof -
  from assms(1) obtain vs where vs: "v = VStruct vs" by (auto split: goval.splits)
  have m: "map (\<lambda>(n, om, w). (n, om)) (map (\<lambda>(m, om, w). (m, om, if m = n then x else w)) vs) = map (\<lambda>(n, om, w). (n, om)) vs"
    by (simp add: o_def case_prod_unfold)
  have "has_type env t' (fld (set_fld v n x) n')" if "(n', om', t') \<in> set fs" for n' om' t'
  proof (cases "n' = n")
    case True
    with that assms(2,3) have "t' = t" by (metis map_of_triples option.inject prod.inject)
    moreover have "n \<in> set (fld_names v)"
      using has_type_names [OF assms(1)] assms(3) by (force dest: map_of_SomeD)
    ultimately show ?thesis using True assms(4) by simp
  next
    case False
    with that assms(1) vs show ?thesis by (auto simp: list_all_iff)
  qed
  then show ?thesis using assms(1) vs m by (auto simp: list_all_iff set_fld_def)
qed

text \<open>
  The object emitted from a typed value of a registered kind converts again, so a chain of
  converting transformers does not get stuck on its own output.
\<close>

lemma Convert_to_reconverts:
  assumes "Convert_to g v = Ok u'" and "has_type env (TStruct fs) v" and "wf_type (TStruct fs)"
    and "object_fields fs" and "printable_gvk g" and "Kind g \<noteq> ''''" and "Version g \<noteq> ''''"
  shows "is_ok (Convert_from env g (TStruct fs) u')"
proof -
  from assms(1) obtain m where m: "toUnstructured v = GMap m"
    and u': "u' = setNestedField (setNestedField m (GString (GroupVersion_String g)) [''apiVersion'']) (GString (Kind g)) [''kind'']"
    by (auto simp: Convert_to_def split: gval.splits)
  have k: "GroupVersionKind u' = g"
    using assms(5) by (simp add: GroupVersionKind_def printable_gvk_def GetKind_def GetAPIVersion_def u' setNestedField_top)
  have ok: "is_ok (fromUnstructured env (TStruct fs) (GMap m))"
    using emitted_convertible [OF assms(3,2)] m by simp
  have "is_ok (case map_of u' n of None \<Rightarrow> Ok (zero_of env t) | Some x \<Rightarrow> fromUnstructured env t x)"
    if t: "(n, om, t) \<in> set fs" for n om t
  proof (cases "n \<in> {''kind'', ''apiVersion''}")
    case True
    have "map_of fs n = Some (om, t)" using t assms(4) by (simp add: object_fields_def)
    with True assms(4) have "t = TString" by (auto simp: object_fields_def)
    with True show ?thesis by (auto simp: u' map_of_setNestedField_top)
  next
    case False
    with ok t show ?thesis unfolding from_struct_is_ok by (auto simp: u' map_of_setNestedField_top)
  qed
  then have "is_ok (fromUnstructured env (TStruct fs) (GMap u'))" unfolding from_struct_is_ok by auto
  then show ?thesis
    using k assms(6,7) by (auto simp: Convert_from_def Let_def is_ok_def flat_err_def split: res.splits)
qed

lemma Convert_from_has_type:
  assumes "Convert_from env g (TStruct fs) u = Ok v" and "env_stable env" and "wf_type (TStruct fs)" and "object_fields fs"
  shows "has_type env (TStruct fs) v"
proof -
  from assms(1) obtain w where w: "fromUnstructured env (TStruct fs) (GMap u) = Ok w" and v: "v = clear_type_meta w"
    by (rule Convert_from_Ok)
  have d: "distinct (map fst fs)" "map_of fs ''kind'' = Some (True, TString)" "map_of fs ''apiVersion'' = Some (True, TString)"
    using assms(4) by (simp_all add: object_fields_def)
  have "has_type env (TStruct fs) w" by (rule from_has_type [OF assms(2,3) w])
  then show ?thesis
    unfolding v clear_type_meta_def
    by (intro has_type_set_fld [OF has_type_set_fld [OF _ d(1,2)] d(1,3)]) simp_all
qed

end
