(* ===== verification/Event_Mesh_API.thy ===== *)
theory Event_Mesh_API
  imports Scheme_Convert Conditions
begin

text \<open>
  The EventMesh resource (\<^verbatim>\<open>pkg/apis/operator/v1alpha1\<close>): its types, defaulting and validation,
  with Knative's \<^verbatim>\<open>FieldError\<close> and feature-flag parsing, which the reconciler and the webhook
  call. Integers of the API are signed 32-bit words.
\<close>

section \<open>Types\<close>

definition LogLevels :: "string list" where
  "LogLevels = [''trace'', ''debug'', ''info'', ''warn'', ''error'', ''fatal'']"

definition BrokerClassKafka :: string where
  "BrokerClassKafka = ''Kafka''"

definition BrokerClassMTChannelBased :: string where
  "BrokerClassMTChannelBased = ''MTChannelBasedBroker''"

definition ChannelImplementationKafka :: string where
  "ChannelImplementationKafka = ''KafkaChannel''"

definition ChannelImplementationIMC :: string where
  "ChannelImplementationIMC = ''InMemoryChannel''"

definition BrokerClasses :: "string list" where
  "BrokerClasses = [BrokerClassKafka, BrokerClassMTChannelBased]"

definition ChannelImplementations :: "string list" where
  "ChannelImplementations = [ChannelImplementationKafka, ChannelImplementationIMC]"

text \<open>
  A container's override entries. Kubernetes values the operator only moves around
  (tolerations, affinity, resource quantities, environment variables) are typed Go values.
  Whether an empty map or slice is nil makes no difference to the code that reads them.
\<close>

record resource_requirements_override =
  rr_Container :: string
  rr_Limits :: "goval gomap"
  rr_Requests :: "goval gomap"

record env_requirements_override =
  er_Container :: string
  er_EnvVars :: "goval list"

record probes_requirements_override =
  pr_Container :: string
  pr_InitialDelaySeconds :: "32 word"
  pr_TimeoutSeconds :: "32 word"
  pr_PeriodSeconds :: "32 word"
  pr_SuccessThreshold :: "32 word"
  pr_FailureThreshold :: "32 word"
  pr_TerminationGracePeriodSeconds :: "(64 word) option"

record workload_override =
  wo_Name :: string
  wo_Labels :: "string gomap"
  wo_Annotations :: "string gomap"
  wo_Replicas :: "(32 word) option"
  wo_NodeSelector :: "string gomap"
  wo_TopologySpreadConstraints :: "goval list"
  wo_Tolerations :: "goval list"
  wo_Affinity :: "goval option"
  wo_Resources :: "resource_requirements_override list"
  wo_Env :: "env_requirements_override list"
  wo_ReadinessProbes :: "probes_requirements_override list"
  wo_LivenessProbes :: "probes_requirements_override list"
  wo_HostNetwork :: "bool option"

record event_mesh_spec_overrides =
  Config :: "(string gomap) gomap"
  Workloads :: "workload_override list option"

record event_mesh_spec_features =
  Eventing :: "string gomap option"
  EventingKafkaBroker :: "string gomap option"

record event_mesh_spec_kafka =
  BootstrapServers :: "string list"
  AuthSecretRef :: "string option"
  NumPartitions :: "32 word"
  ReplicationFactor :: "32 word"
  TopicConfigOptions :: "string gomap"

record event_mesh_spec =
  Kafka :: event_mesh_spec_kafka
  LogLevel :: string
  DefaultBroker :: string
  DefaultChannel :: string
  Features :: "event_mesh_spec_features option"
  Overrides :: "event_mesh_spec_overrides option"

text \<open>Of the object's metadata, what the operator reads or writes; \<open>None\<close> is no deletion timestamp.\<close>

record event_mesh =
  em_Name :: string
  em_Namespace :: string
  em_UID :: string
  em_Generation :: int
  em_ResourceVersion :: string
  em_Finalizers :: "string list"
  em_DeletionTimestamp :: "int option"
  em_Spec :: event_mesh_spec
  em_Status :: em_status

definition SchemeGroupVersion_WithKind :: "string \<Rightarrow> gvk" where
  "SchemeGroupVersion_WithKind kind = \<lparr>Group = ''operator.knative.dev'', Version = ''v1alpha1'', Kind = kind\<rparr>"

definition GetGroupVersionKind :: gvk where
  "GetGroupVersionKind = SchemeGroupVersion_WithKind ''EventMesh''"

text \<open>\<^verbatim>\<open>GetByName\<close> and \<^verbatim>\<open>HasAtLeastOneWithReplicasSet\<close>; a nil slice has no elements.\<close>

fun GetByName_loop :: "workload_override list \<Rightarrow> string \<Rightarrow> workload_override list \<Rightarrow> workload_override list" where
  "GetByName_loop acc name [] = acc"
| "GetByName_loop acc name (w # ws) =
     GetByName_loop (if wo_Name w = name then acc @ [w] else acc) name ws"

definition GetByName :: "workload_override list option \<Rightarrow> string \<Rightarrow> workload_override list" where
  "GetByName wlos name = GetByName_loop [] name (case wlos of None \<Rightarrow> [] | Some ws \<Rightarrow> ws)"

fun HasAtLeastOneWithReplicasSet :: "workload_override list \<Rightarrow> bool" where
  "HasAtLeastOneWithReplicasSet [] = False"
| "HasAtLeastOneWithReplicasSet (w # ws) =
     (if wo_Replicas w \<noteq> None then True else HasAtLeastOneWithReplicasSet ws)"

text \<open>\<^verbatim>\<open>v1alpha1 is the highest known version\<close>: both conversions always fail.\<close>

definition ConvertTo :: "event_mesh \<Rightarrow> string \<Rightarrow> unit res" where
  "ConvertTo em objType = Err (ErrMsg (''v1alpha1 is the highest known version, got: '' @ objType))"

definition ConvertFrom :: "event_mesh \<Rightarrow> string \<Rightarrow> event_mesh res" where
  "ConvertFrom em objType = Err (ErrMsg (''v1alpha1 is the highest known version, got: '' @ objType))"

section \<open>Defaulting\<close>

definition Kafka_SetDefaults :: "event_mesh_spec_kafka \<Rightarrow> event_mesh_spec_kafka" where
  "Kafka_SetDefaults kafka =
     (let k1 = (if sint (NumPartitions kafka) \<le> 0 then kafka\<lparr>NumPartitions := 3\<rparr> else kafka)
      in if sint (ReplicationFactor k1) \<le> 0 then k1\<lparr>ReplicationFactor := 1\<rparr> else k1)"

text \<open>\<open>uni\<close> is the Unicode part of \<^verbatim>\<open>strings.ToLower\<close>.\<close>

definition Spec_SetDefaults :: "(string \<Rightarrow> string) \<Rightarrow> event_mesh_spec \<Rightarrow> event_mesh_spec" where
  "Spec_SetDefaults uni spec =
     (let s1 = spec\<lparr>Kafka := Kafka_SetDefaults (Kafka spec)\<rparr>;
          s2 = s1\<lparr>LogLevel := ToLower uni (LogLevel s1)\<rparr>
      in if LogLevel s2 = '''' then s2\<lparr>LogLevel := ''info''\<rparr> else s2)"

definition SetDefaults :: "(string \<Rightarrow> string) \<Rightarrow> event_mesh \<Rightarrow> event_mesh" where
  "SetDefaults uni em = em\<lparr>em_Spec := Spec_SetDefaults uni (em_Spec em)\<rparr>"

section \<open>Field errors\<close>

text \<open>\<open>None\<close> is a nil \<^verbatim>\<open>*FieldError\<close>.\<close>

datatype field_error =
  FieldError (fe_Message: string) (fe_Paths: "string list") (fe_Level: nat) (fe_Details: string)
    (fe_errors: "field_error list")

definition fe_isEmpty :: "field_error option \<Rightarrow> bool" where
  "fe_isEmpty fe = (case fe of None \<Rightarrow> True
     | Some e \<Rightarrow> fe_Message e = '''' \<and> fe_Details e = '''' \<and> fe_errors e = [] \<and> fe_Paths e = [])"

definition add_error :: "field_error \<Rightarrow> field_error \<Rightarrow> field_error" where
  "add_error fe e = FieldError (fe_Message fe) (fe_Paths fe) (fe_Level fe) (fe_Details fe) (fe_errors fe @ [e])"

definition Also :: "field_error option \<Rightarrow> field_error option \<Rightarrow> field_error option" where
  "Also fe err =
     (if fe_isEmpty err then fe
      else let newErr = (if \<not> fe_isEmpty fe then the fe else FieldError '''' [] 0 '''' [])
           in Some (add_error newErr (the err)))"

definition isIndex :: "string \<Rightarrow> bool" where
  "isIndex part = (HasPrefix part ''['' \<and> HasPrefix (rev part) '']'')"

fun flatten_parts :: "string list \<Rightarrow> string list \<Rightarrow> string list" where
  "flatten_parts newPath [] = newPath"
| "flatten_parts newPath (p # ps) =
     (if p = '''' then flatten_parts newPath ps
      else if newPath \<noteq> [] \<and> isIndex p then flatten_parts (butlast newPath @ [last newPath @ p]) ps
      else flatten_parts (newPath @ [p]) ps)"

definition flatten :: "string list \<Rightarrow> string" where
  "flatten path = Join (flatten_parts [] (concat (map (Split (CHR ''.'')) path))) ''.''"

fun ViaField_err :: "string \<Rightarrow> field_error \<Rightarrow> field_error" where
  "ViaField_err prefix (FieldError m ps l d es) =
     foldl (\<lambda>newErr e. the (Also (Some newErr) (Some e)))
       (FieldError m (map (\<lambda>oldPath. flatten [prefix, oldPath]) ps) l d []) (map (ViaField_err prefix) es)"

definition ViaField :: "string \<Rightarrow> field_error option \<Rightarrow> field_error option" where
  "ViaField prefix fe = map_option (ViaField_err prefix) fe"

text \<open>The flat list of diagnostics, each with message, paths and details.\<close>

fun normalized :: "field_error \<Rightarrow> (string \<times> string list \<times> string) list" where
  "normalized (FieldError m ps l d es) =
     (if m \<noteq> '''' then [(m, ps, d)] else []) @ concat (map normalized es)"

definition diagnostics :: "field_error option \<Rightarrow> (string \<times> string list \<times> string) list" where
  "diagnostics fe = (case fe of None \<Rightarrow> [] | Some e \<Rightarrow> normalized e)"

definition ErrMissingField :: "string \<Rightarrow> field_error option" where
  "ErrMissingField path = Some (FieldError ''missing field(s)'' [path] 0 '''' [])"

definition ErrInvalidValue :: "string \<Rightarrow> string \<Rightarrow> string \<Rightarrow> field_error option" where
  "ErrInvalidValue val path details = Some (FieldError (''invalid value: '' @ val) [path] 0 details [])"

section \<open>Validation\<close>

definition one_of :: "string list \<Rightarrow> string" where
  "one_of xs = ''must be one of '' @ [CHR 34] @ Join xs '', '' @ [CHR 34]"

definition Kafka_Validate :: "event_mesh_spec_kafka \<Rightarrow> field_error option" where
  "Kafka_Validate kafka =
     (let e1 = (if length (BootstrapServers kafka) = 0 then Also None (ErrMissingField ''bootstrapServers'') else None);
          e2 = (if sint (NumPartitions kafka) < 0
                then Also e1 (ErrInvalidValue (int_str (sint (NumPartitions kafka))) ''numPartitions'' '''') else e1)
      in if sint (ReplicationFactor kafka) < 0
         then Also e2 (ErrInvalidValue (int_str (sint (ReplicationFactor kafka))) ''replicationFactor'' '''') else e2)"

definition Spec_Validate :: "event_mesh_spec \<Rightarrow> field_error option" where
  "Spec_Validate spec =
     (let e1 = (if LogLevel spec \<noteq> '''' \<and> \<not> List.member LogLevels (LogLevel spec)
                then Also None (ErrInvalidValue (LogLevel spec) ''logLevel'' (one_of LogLevels)) else None);
          e2 = (if DefaultBroker spec \<noteq> '''' \<and> \<not> List.member BrokerClasses (DefaultBroker spec)
                then Also e1 (ErrInvalidValue (DefaultBroker spec) ''defaultBroker'' (one_of BrokerClasses)) else e1);
          e3 = (if DefaultChannel spec \<noteq> '''' \<and> \<not> List.member ChannelImplementations (DefaultChannel spec)
                then Also e2 (ErrInvalidValue (DefaultChannel spec) ''defaultChannel'' (one_of ChannelImplementations)) else e2)
      in Also e3 (ViaField ''kafka'' (Kafka_Validate (Kafka spec))))"

definition Validate :: "event_mesh \<Rightarrow> field_error option" where
  "Validate em = ViaField ''spec'' (Spec_Validate (em_Spec em))"

section \<open>Feature flags\<close>

type_synonym flags = "string gomap"

definition TransportEncryption :: string where
  "TransportEncryption = ''transport-encryption''"

definition AuthorizationDefaultMode :: string where
  "AuthorizationDefaultMode = ''default-authorization-mode''"

definition OIDCDiscoveryBaseURL :: string where
  "OIDCDiscoveryBaseURL = ''oidc-discovery-base-url''"

definition NodeSelectorLabel :: string where
  "NodeSelectorLabel = ''apiserversources-nodeselector-''"

definition newDefaults :: flags where
  "newDefaults = [
     (''kreference-group'', ''Disabled''), (''delivery-retryafter'', ''Disabled''),
     (''delivery-timeout'', ''Enabled''), (''kreference-mapping'', ''Disabled''),
     (''transport-encryption'', ''Disabled''), (''authentication-oidc'', ''Disabled''),
     (''eventtype-auto-create'', ''Disabled''), (''new-apiserversource-filters'', ''Disabled''),
     (''default-authorization-mode'', ''Allow-Same-Namespace''),
     (''oidc-discovery-base-url'', ''https://kubernetes.default.svc''),
     (''requestreply-default-timeout'', ''30s'')]"

text \<open>
  \<^verbatim>\<open>strings.EqualFold\<close> against an ASCII word: besides the ASCII case pairs, Unicode folding maps
  U+017F to \<^verbatim>\<open>s\<close> and U+212A to \<^verbatim>\<open>k\<close>.
\<close>

fun fold_case :: "string \<Rightarrow> string" where
  "fold_case [] = []"
| "fold_case (c # s) =
     (if c = CHR 0xC5 \<and> take 1 s = [CHR 0xBF] then CHR ''s'' # fold_case (drop 1 s)
      else if c = CHR 0xE2 \<and> take 2 s = [CHR 0x84, CHR 0xAA] then CHR ''k'' # fold_case (drop 2 s)
      else ascii_lower c # fold_case s)"

definition EqualFold :: "string \<Rightarrow> string \<Rightarrow> bool" where
  "EqualFold v word = (fold_case v = map ascii_lower word)"

fun strip_first :: "string list \<Rightarrow> string \<Rightarrow> string option" where
  "strip_first [] s = None"
| "strip_first (p # ps) s =
     (if p \<noteq> '''' \<and> HasPrefix s p then Some (drop (length p) s) else strip_first ps s)"

lemma strip_first_shorter: "strip_first ps s = Some r \<Longrightarrow> length r < length s"
  by (induction ps) (auto simp: HasPrefix_iff split: if_splits)

function trim_left :: "string list \<Rightarrow> string \<Rightarrow> string" where
  "trim_left ps s = (case strip_first ps s of None \<Rightarrow> s | Some r \<Rightarrow> trim_left ps r)"
  by pat_completeness auto
termination
  by (relation "measure (\<lambda>(ps, s). length s)") (auto dest: strip_first_shorter)

declare trim_left.simps [simp del]

text \<open>The UTF-8 encodings of the characters with Unicode property White\_Space.\<close>

definition white_space :: "string list" where
  "white_space = [[CHR 0x09], [CHR 0x0A], [CHR 0x0B], [CHR 0x0C], [CHR 0x0D], [CHR 0x20],
     [CHR 0xC2, CHR 0x85], [CHR 0xC2, CHR 0xA0], [CHR 0xE1, CHR 0x9A, CHR 0x80],
     [CHR 0xE2, CHR 0x80, CHR 0x80], [CHR 0xE2, CHR 0x80, CHR 0x81], [CHR 0xE2, CHR 0x80, CHR 0x82],
     [CHR 0xE2, CHR 0x80, CHR 0x83], [CHR 0xE2, CHR 0x80, CHR 0x84], [CHR 0xE2, CHR 0x80, CHR 0x85],
     [CHR 0xE2, CHR 0x80, CHR 0x86], [CHR 0xE2, CHR 0x80, CHR 0x87], [CHR 0xE2, CHR 0x80, CHR 0x88],
     [CHR 0xE2, CHR 0x80, CHR 0x89], [CHR 0xE2, CHR 0x80, CHR 0x8A], [CHR 0xE2, CHR 0x80, CHR 0xA8],
     [CHR 0xE2, CHR 0x80, CHR 0xA9], [CHR 0xE2, CHR 0x80, CHR 0xAF], [CHR 0xE2, CHR 0x81, CHR 0x9F],
     [CHR 0xE3, CHR 0x80, CHR 0x80]]"

definition TrimSpace :: "string \<Rightarrow> string" where
  "TrimSpace s = rev (trim_left (map rev white_space) (rev (trim_left white_space s)))"

fun Contains :: "string \<Rightarrow> string \<Rightarrow> bool" where
  "Contains [] sub = (sub = '''')"
| "Contains (c # s) sub = (HasPrefix (c # s) sub \<or> Contains s sub)"

text \<open>One iteration of the loop of \<^verbatim>\<open>NewFlagsConfigFromMap\<close>.\<close>

definition set_flag :: "string \<Rightarrow> string \<Rightarrow> flags \<Rightarrow> flags" where
  "set_flag k v flags =
     (if HasPrefix k ''_'' then flags
      else let key = TrimSpace k in
        if EqualFold v ''Allowed'' then AList.update key ''Allowed'' flags
        else if EqualFold v ''Disabled'' then AList.update key ''Disabled'' flags
        else if EqualFold v ''Enabled'' then AList.update key ''Enabled'' flags
        else if key = TransportEncryption \<and> EqualFold v ''Permissive'' then AList.update key ''Permissive'' flags
        else if key = TransportEncryption \<and> EqualFold v ''Strict'' then AList.update key ''Strict'' flags
        else if key = AuthorizationDefaultMode \<and> EqualFold v ''Allow-All'' then AList.update key ''Allow-All'' flags
        else if key = AuthorizationDefaultMode \<and> EqualFold v ''Deny-All'' then AList.update key ''Deny-All'' flags
        else if key = AuthorizationDefaultMode \<and> EqualFold v ''Allow-Same-Namespace''
          then AList.update key ''Allow-Same-Namespace'' flags
        else if Contains k NodeSelectorLabel \<or> key = OIDCDiscoveryBaseURL then AList.update key v flags
        else AList.update k v flags)"

fun flags_loop :: "string gomap \<Rightarrow> flags \<Rightarrow> flags" where
  "flags_loop [] flags = flags"
| "flags_loop ((k, v) # data) flags = flags_loop data (set_flag k v flags)"

definition NewFlagsConfigFromMap :: "string gomap \<Rightarrow> flags res" where
  "NewFlagsConfigFromMap data = Ok (flags_loop data newDefaults)"

definition IsDisabledTransportEncryption :: "flags \<Rightarrow> bool" where
  "IsDisabledTransportEncryption e = (get_or '''' e TransportEncryption = ''Disabled'')"

text \<open>A nil map iterates like an empty one.\<close>

definition GetEventingFeatureFlags :: "event_mesh_spec_features option \<Rightarrow> flags res" where
  "GetEventingFeatureFlags ems = (case ems of
       None \<Rightarrow> NewFlagsConfigFromMap []
     | Some f \<Rightarrow> NewFlagsConfigFromMap (case Eventing f of None \<Rightarrow> [] | Some m \<Rightarrow> m))"


section \<open>What the webhook guarantees\<close>

lemma GetByName_filter: "GetByName wlos name = filter (\<lambda>w. wo_Name w = name) (case wlos of None \<Rightarrow> [] | Some ws \<Rightarrow> ws)"
proof -
  have "GetByName_loop acc name ws = acc @ filter (\<lambda>w. wo_Name w = name) ws" for acc ws
    by (induction ws arbitrary: acc) auto
  then show ?thesis by (simp add: GetByName_def)
qed

lemma HasAtLeastOneWithReplicasSet_iff:
  "HasAtLeastOneWithReplicasSet ws \<longleftrightarrow> (\<exists>w\<in>set ws. wo_Replicas w \<noteq> None)"
  by (induction ws) auto

text \<open>
  Collecting and prefixing errors, seen through the flat list of diagnostics: \<^const>\<open>Also\<close>
  appends, \<^const>\<open>ViaField\<close> prefixes every path. Neither depends on how errors were nested.
\<close>

definition under :: "string \<Rightarrow> string \<times> string list \<times> string \<Rightarrow> string \<times> string list \<times> string" where
  "under prefix d = (case d of (m, ps, det) \<Rightarrow> (m, map (\<lambda>p. flatten [prefix, p]) ps, det))"

lemma normalized_empty: "fe_isEmpty (Some e) \<Longrightarrow> normalized e = []"
  by (cases e) (simp add: fe_isEmpty_def)

lemma normalized_add_error [simp]: "normalized (add_error fe e) = normalized fe @ normalized e"
  by (cases fe) (simp add: add_error_def)

lemma diagnostics_Also [simp]: "diagnostics (Also fe err) = diagnostics fe @ diagnostics err"
  by (cases fe; cases err)
    (auto simp: Also_def diagnostics_def Let_def normalized_empty, auto simp: fe_isEmpty_def)

lemma diagnostics_foldl_Also:
  "normalized (foldl (\<lambda>n e. the (Also (Some n) (Some e))) fe es) = normalized fe @ concat (map normalized es)"
proof (induction es arbitrary: fe)
  case (Cons e es)
  have "normalized (the (Also (Some fe) (Some e))) = normalized fe @ normalized e"
    using diagnostics_Also [of "Some fe" "Some e"]
    by (cases "Also (Some fe) (Some e)") (auto simp: diagnostics_def Also_def Let_def split: if_splits)
  with Cons show ?case by simp
qed simp

lemma normalized_ViaField_err: "normalized (ViaField_err prefix e) = map (under prefix) (normalized e)"
proof (induction e)
  case (FieldError m ps l d es)
  then have "map (normalized \<circ> ViaField_err prefix) es = map (\<lambda>e. map (under prefix) (normalized e)) es"
    by simp
  then show ?case
    by (simp add: diagnostics_foldl_Also map_concat o_def under_def cong: map_cong)
qed

lemma diagnostics_ViaField [simp]: "diagnostics (ViaField prefix fe) = map (under prefix) (diagnostics fe)"
  by (cases fe) (simp_all add: ViaField_def diagnostics_def normalized_ViaField_err)

lemma diagnostics_None [simp]: "diagnostics None = []"
  by (simp add: diagnostics_def)

lemma diagnostics_ErrInvalidValue [simp]:
  "diagnostics (ErrInvalidValue v p d) = [(''invalid value: '' @ v, [p], d)]"
  by (simp add: ErrInvalidValue_def diagnostics_def)

lemma diagnostics_ErrMissingField [simp]:
  "diagnostics (ErrMissingField p) = [(''missing field(s)'', [p], '''')]"
  by (simp add: ErrMissingField_def diagnostics_def)

definition only_if :: "bool \<Rightarrow> 'a list \<Rightarrow> 'a list" where
  "only_if b xs = (if b then xs else [])"

lemma only_if_simps [simp]: "only_if True xs = xs" "only_if False xs = []"
  "map f (only_if b xs) = only_if b (map f xs)" "only_if b xs = [] \<longleftrightarrow> (b \<longrightarrow> xs = [])"
  by (simp_all add: only_if_def)

lemma diagnostics_if: "diagnostics (if b then Also e f else e) = diagnostics e @ only_if b (diagnostics f)"
  by simp

lemma diagnostics_Kafka_Validate:
  "diagnostics (Kafka_Validate kafka) =
     only_if (BootstrapServers kafka = []) [(''missing field(s)'', [''bootstrapServers''], '''')] @
     only_if (sint (NumPartitions kafka) < 0)
       [(''invalid value: '' @ int_str (sint (NumPartitions kafka)), [''numPartitions''], '''')] @
     only_if (sint (ReplicationFactor kafka) < 0)
       [(''invalid value: '' @ int_str (sint (ReplicationFactor kafka)), [''replicationFactor''], '''')]"
  unfolding Kafka_Validate_def Let_def diagnostics_if by simp

lemma diagnostics_Spec_Validate:
  "diagnostics (Spec_Validate spec) =
     only_if (LogLevel spec \<noteq> '''' \<and> LogLevel spec \<notin> set LogLevels)
       [(''invalid value: '' @ LogLevel spec, [''logLevel''], one_of LogLevels)] @
     only_if (DefaultBroker spec \<noteq> '''' \<and> DefaultBroker spec \<notin> set BrokerClasses)
       [(''invalid value: '' @ DefaultBroker spec, [''defaultBroker''], one_of BrokerClasses)] @
     only_if (DefaultChannel spec \<noteq> '''' \<and> DefaultChannel spec \<notin> set ChannelImplementations)
       [(''invalid value: '' @ DefaultChannel spec, [''defaultChannel''], one_of ChannelImplementations)] @
     map (under ''kafka'') (diagnostics (Kafka_Validate (Kafka spec)))"
  unfolding Spec_Validate_def Let_def diagnostics_Also diagnostics_if diagnostics_ViaField by simp

lemma flatten_two:
  "flatten [''spec'', ''logLevel''] = ''spec.logLevel''"
  "flatten [''spec'', ''defaultBroker''] = ''spec.defaultBroker''"
  "flatten [''spec'', ''defaultChannel''] = ''spec.defaultChannel''"
  "flatten [''spec'', ''kafka.bootstrapServers''] = ''spec.kafka.bootstrapServers''"
  "flatten [''spec'', ''kafka.numPartitions''] = ''spec.kafka.numPartitions''"
  "flatten [''spec'', ''kafka.replicationFactor''] = ''spec.kafka.replicationFactor''"
  "flatten [''kafka'', ''bootstrapServers''] = ''kafka.bootstrapServers''"
  "flatten [''kafka'', ''numPartitions''] = ''kafka.numPartitions''"
  "flatten [''kafka'', ''replicationFactor''] = ''kafka.replicationFactor''"
  by (simp_all add: flatten_def isIndex_def)

lemma Also_eq_None: "Also fe err = None \<longleftrightarrow> fe = None \<and> fe_isEmpty err"
  by (auto simp: Also_def Let_def fe_isEmpty_def)

lemma fe_isEmpty_diagnostics: "fe_isEmpty fe \<Longrightarrow> diagnostics fe = []"
  by (cases fe) (simp_all add: diagnostics_def normalized_empty)

lemma Kafka_Validate_None: "Kafka_Validate kafka = None \<longleftrightarrow> diagnostics (Kafka_Validate kafka) = []"
proof
  assume "diagnostics (Kafka_Validate kafka) = []"
  then show "Kafka_Validate kafka = None"
    by (simp add: diagnostics_Kafka_Validate) (simp add: Kafka_Validate_def Let_def)
qed simp

lemma Spec_Validate_None: "Spec_Validate spec = None \<longleftrightarrow> diagnostics (Spec_Validate spec) = []"
proof
  assume d: "diagnostics (Spec_Validate spec) = []"
  then have "Kafka_Validate (Kafka spec) = None"
    by (simp add: diagnostics_Spec_Validate Kafka_Validate_None)
  moreover have "\<not> (LogLevel spec \<noteq> '''' \<and> LogLevel spec \<notin> set LogLevels)"
    "\<not> (DefaultBroker spec \<noteq> '''' \<and> DefaultBroker spec \<notin> set BrokerClasses)"
    "\<not> (DefaultChannel spec \<noteq> '''' \<and> DefaultChannel spec \<notin> set ChannelImplementations)"
    using d by (simp_all add: diagnostics_Spec_Validate)
  ultimately show "Spec_Validate spec = None"
    by (auto simp: Spec_Validate_def Let_def ViaField_def Also_def fe_isEmpty_def)
qed simp

text \<open>
  Claim C12. Validation of an EventMesh reports exactly the violated constraints, in order
  and each under its full path: an unknown log level, broker class or channel implementation
  (when set), no bootstrap servers, a negative partition count or replication factor; and it
  admits the resource (a nil error) exactly when there is none.
\<close>

theorem Validate_exact:
  "diagnostics (Validate em) =
     (let spec = em_Spec em; kafka = Kafka spec in
      only_if (LogLevel spec \<noteq> '''' \<and> LogLevel spec \<notin> set LogLevels)
        [(''invalid value: '' @ LogLevel spec, [''spec.logLevel''], one_of LogLevels)] @
      only_if (DefaultBroker spec \<noteq> '''' \<and> DefaultBroker spec \<notin> set BrokerClasses)
        [(''invalid value: '' @ DefaultBroker spec, [''spec.defaultBroker''], one_of BrokerClasses)] @
      only_if (DefaultChannel spec \<noteq> '''' \<and> DefaultChannel spec \<notin> set ChannelImplementations)
        [(''invalid value: '' @ DefaultChannel spec, [''spec.defaultChannel''], one_of ChannelImplementations)] @
      only_if (BootstrapServers kafka = []) [(''missing field(s)'', [''spec.kafka.bootstrapServers''], '''')] @
      only_if (sint (NumPartitions kafka) < 0)
        [(''invalid value: '' @ int_str (sint (NumPartitions kafka)), [''spec.kafka.numPartitions''], '''')] @
      only_if (sint (ReplicationFactor kafka) < 0)
        [(''invalid value: '' @ int_str (sint (ReplicationFactor kafka)), [''spec.kafka.replicationFactor''], '''')]) \<and>
   (Validate em = None \<longleftrightarrow> diagnostics (Validate em) = [])"
proof
  show "Validate em = None \<longleftrightarrow> diagnostics (Validate em) = []"
    using Spec_Validate_None [of "em_Spec em"]
    by (simp add: Validate_def) (simp add: ViaField_def)
qed (simp add: Validate_def Let_def diagnostics_Spec_Validate diagnostics_Kafka_Validate under_def flatten_two)


lemma Validate_None_iff:
  "Validate em = None \<longleftrightarrow>
     LogLevel (em_Spec em) \<in> set ('''' # LogLevels) \<and>
     DefaultBroker (em_Spec em) \<in> set ('''' # BrokerClasses) \<and>
     DefaultChannel (em_Spec em) \<in> set ('''' # ChannelImplementations) \<and>
     BootstrapServers (Kafka (em_Spec em)) \<noteq> [] \<and>
     0 \<le> sint (NumPartitions (Kafka (em_Spec em))) \<and> 0 \<le> sint (ReplicationFactor (Kafka (em_Spec em)))"
  using Spec_Validate_None [of "em_Spec em"]
  by (simp add: Validate_def ViaField_def diagnostics_Spec_Validate diagnostics_Kafka_Validate) auto

lemma Kafka_SetDefaults_positive:
  "1 \<le> sint (NumPartitions (Kafka_SetDefaults kafka))" "1 \<le> sint (ReplicationFactor (Kafka_SetDefaults kafka))"
  by (auto simp: Kafka_SetDefaults_def Let_def)

lemma Kafka_SetDefaults_id:
  "1 \<le> sint (NumPartitions kafka) \<Longrightarrow> 1 \<le> sint (ReplicationFactor kafka) \<Longrightarrow> Kafka_SetDefaults kafka = kafka"
  by (simp add: Kafka_SetDefaults_def Let_def)

lemma Kafka_SetDefaults_servers [simp]: "BootstrapServers (Kafka_SetDefaults kafka) = BootstrapServers kafka"
  by (simp add: Kafka_SetDefaults_def Let_def)

lemma SetDefaults_spec:
  "Kafka (em_Spec (SetDefaults uni em)) = Kafka_SetDefaults (Kafka (em_Spec em))"
  "LogLevel (em_Spec (SetDefaults uni em)) =
     (let l = ToLower uni (LogLevel (em_Spec em)) in if l = '''' then ''info'' else l)"
  "DefaultBroker (em_Spec (SetDefaults uni em)) = DefaultBroker (em_Spec em)"
  "DefaultChannel (em_Spec (SetDefaults uni em)) = DefaultChannel (em_Spec em)"
  by (simp_all add: SetDefaults_def Spec_SetDefaults_def Let_def)

lemma ToLower_LogLevels: "l \<in> set LogLevels \<Longrightarrow> ToLower uni l = l \<and> l \<noteq> ''''"
  by (auto simp: LogLevels_def ToLower_def is_ascii_def ascii_lower_def)

text \<open>
  An EventMesh that went through defaulting is admitted by validation exactly when
  its lower-cased log level, its broker class and its channel implementation are empty or known
  and bootstrap servers are given: defaulting repairs every non-positive partition count and
  replication factor.
\<close>

theorem defaulted_admission:
  "Validate (SetDefaults uni em) = None \<longleftrightarrow>
     ToLower uni (LogLevel (em_Spec em)) \<in> set ('''' # LogLevels) \<and>
     DefaultBroker (em_Spec em) \<in> set ('''' # BrokerClasses) \<and>
     DefaultChannel (em_Spec em) \<in> set ('''' # ChannelImplementations) \<and>
     BootstrapServers (Kafka (em_Spec em)) \<noteq> []"
proof -
  have "''info'' \<in> set LogLevels" by (simp add: LogLevels_def)
  then show ?thesis
    using Kafka_SetDefaults_positive [of "Kafka (em_Spec em)"]
    by (auto simp: Validate_None_iff SetDefaults_spec Let_def)
qed

text \<open>
  For an admitted EventMesh, defaulting is stable: the reconciler, which defaults
  again before every run, sees the object the webhook stored. Its log level is then one of the
  known levels, and partition count and replication factor are at least one.
\<close>

theorem admitted_defaults_stable:
  assumes "Validate (SetDefaults uni em) = None"
  shows "SetDefaults uni (SetDefaults uni em) = SetDefaults uni em \<and>
    LogLevel (em_Spec (SetDefaults uni em)) \<in> set LogLevels \<and>
    1 \<le> sint (NumPartitions (Kafka (em_Spec (SetDefaults uni em)))) \<and>
    1 \<le> sint (ReplicationFactor (Kafka (em_Spec (SetDefaults uni em))))"
proof -
  let ?e = "SetDefaults uni em"
  have l: "LogLevel (em_Spec ?e) \<in> set LogLevels"
    using assms by (auto simp: Validate_None_iff SetDefaults_spec Let_def LogLevels_def split: if_splits)
  have k: "1 \<le> sint (NumPartitions (Kafka (em_Spec ?e)))" "1 \<le> sint (ReplicationFactor (Kafka (em_Spec ?e)))"
    by (simp_all add: SetDefaults_spec Kafka_SetDefaults_positive)
  have "Spec_SetDefaults uni (em_Spec ?e) = em_Spec ?e"
    using ToLower_LogLevels [OF l, of uni]
    by (simp add: Spec_SetDefaults_def [of uni "em_Spec ?e"] Let_def Kafka_SetDefaults_id [OF k])
  then have "SetDefaults uni ?e = ?e"
    by (simp add: SetDefaults_def [of uni ?e])
  with l k show ?thesis by blast
qed

text \<open>A sample resource as a user would write it.\<close>

definition sample_mesh :: event_mesh where
  "sample_mesh = \<lparr>em_Name = ''mesh'', em_Namespace = ''knative-eventing'', em_UID = ''u-1'', em_Generation = 1, em_ResourceVersion = ''7'', em_Finalizers = [],
     em_DeletionTimestamp = None,
     em_Spec = \<lparr>Kafka = \<lparr>BootstrapServers = [''b0:9092'', ''b1:9092''], AuthSecretRef = None, NumPartitions = 0,
        ReplicationFactor = -1, TopicConfigOptions = []\<rparr>, LogLevel = ''DEBUG'', DefaultBroker = '''',
        DefaultChannel = ''InMemoryChannel'',
        Features = Some \<lparr>Eventing = Some [(''transport-encryption'', ''strict'')], EventingKafkaBroker = None\<rparr>,
        Overrides = Some \<lparr>Config = [], Workloads = None\<rparr>\<rparr>,
     em_Status = \<lparr>st_ObservedGeneration = 0, st_Conditions = [], st_reads = 0\<rparr>\<rparr>"

theorem admitted_defaults_stable_witness:
  "SetDefaults id (SetDefaults id sample_mesh) = SetDefaults id sample_mesh \<and>
   LogLevel (em_Spec (SetDefaults id sample_mesh)) = ''debug'' \<and>
   NumPartitions (Kafka (em_Spec (SetDefaults id sample_mesh))) = 3"
proof -
  have "Validate (SetDefaults id sample_mesh) = None" by code_simp
  moreover have "LogLevel (em_Spec (SetDefaults id sample_mesh)) = ''debug''"
    "NumPartitions (Kafka (em_Spec (SetDefaults id sample_mesh))) = 3" by code_simp+
  ultimately show ?thesis using admitted_defaults_stable [of id sample_mesh] by blast
qed

section \<open>Transport encryption\<close>

lemma get_or_set_flag_other:
  assumes "TrimSpace k \<noteq> f" and "k \<noteq> f"
  shows "get_or z (set_flag k v flags) f = get_or z flags f"
proof -
  have "get_or z (AList.update (TrimSpace k) w flags) f = get_or z flags f"
    "get_or z (AList.update k w flags) f = get_or z flags f" for w
    using assms by (simp_all add: get_or_def)
  then show ?thesis
    by (simp only: set_flag_def Let_def if_distrib [where f = "\<lambda>m. get_or z m f"] if_cancel)
qed

lemma flags_loop_other:
  "\<forall>(k, v)\<in>set data. TrimSpace k \<noteq> f \<and> k \<noteq> f \<Longrightarrow> get_or z (flags_loop data flags) f = get_or z flags f"
  by (induction data flags rule: flags_loop.induct) (auto simp: get_or_set_flag_other)

lemma flags_loop_append: "flags_loop (xs @ ys) flags = flags_loop ys (flags_loop xs flags)"
  by (induction xs flags rule: flags_loop.induct) auto

lemma trim_left_stop: "strip_first ps s = None \<Longrightarrow> trim_left ps s = s"
  by (subst trim_left.simps) simp

lemma TrimSpace_TransportEncryption: "TrimSpace TransportEncryption = TransportEncryption"
proof -
  have "strip_first white_space TransportEncryption = None"
    "strip_first (map rev white_space) (rev TransportEncryption) = None"
    by (simp_all add: TransportEncryption_def white_space_def)
  then show ?thesis by (simp add: TrimSpace_def trim_left_stop)
qed

lemma EqualFold_words: "EqualFold v a \<Longrightarrow> map ascii_lower a \<noteq> map ascii_lower b \<Longrightarrow> \<not> EqualFold v b"
  by (simp add: EqualFold_def)

lemma set_flag_transport:
  "get_or '''' (set_flag TransportEncryption v flags) TransportEncryption = ''Disabled'' \<longleftrightarrow> EqualFold v ''Disabled''"
proof -
  have ne: "map ascii_lower ''Allowed'' \<noteq> map ascii_lower ''Disabled''"
    by code_simp
  have pre: "\<not> HasPrefix TransportEncryption ''_''"
    by (simp add: TransportEncryption_def)
  have d: "EqualFold ''Disabled'' ''Disabled''" by code_simp
  have other: "\<not> Contains TransportEncryption NodeSelectorLabel" "TransportEncryption \<noteq> OIDCDiscoveryBaseURL"
    "TransportEncryption \<noteq> AuthorizationDefaultMode"
    by code_simp+
  show ?thesis
    using EqualFold_words [of v "''Allowed''" "''Disabled''", OF _ ne] d
    by (auto simp: set_flag_def Let_def TrimSpace_TransportEncryption pre other get_or_def)
qed

text \<open>
  Transport encryption counts as disabled exactly when the feature map does not set
  the flag or sets it to \<open>Disabled\<close> in any letter case, in whatever order Go iterates the map,
  provided no other key becomes the flag's name when trimmed.
\<close>

theorem transport_encryption_disabled_iff:
  assumes "distinct (map fst m)"
    and "\<forall>(k, v)\<in>set m. TrimSpace k = TransportEncryption \<longrightarrow> k = TransportEncryption"
  shows "\<exists>flags. GetEventingFeatureFlags (Some \<lparr>Eventing = Some m, EventingKafkaBroker = ekb\<rparr>) = Ok flags \<and>
    (IsDisabledTransportEncryption flags \<longleftrightarrow>
       (case map_of m TransportEncryption of None \<Rightarrow> True | Some v \<Rightarrow> EqualFold v ''Disabled''))"
proof (cases "map_of m TransportEncryption")
  case None
  then have "\<forall>(k, v)\<in>set m. TrimSpace k \<noteq> TransportEncryption \<and> k \<noteq> TransportEncryption"
    using assms(2) by (force simp: map_of_eq_None_iff)
  then have "get_or '''' (flags_loop m newDefaults) TransportEncryption = get_or '''' newDefaults TransportEncryption"
    by (rule flags_loop_other)
  moreover have "get_or '''' newDefaults TransportEncryption = ''Disabled''" by code_simp
  ultimately show ?thesis
    using None by (simp add: GetEventingFeatureFlags_def NewFlagsConfigFromMap_def IsDisabledTransportEncryption_def)
next
  case (Some v)
  then obtain xs ys where m: "m = xs @ (TransportEncryption, v) # ys"
    by (meson map_of_SomeD split_list)
  have "TransportEncryption \<notin> fst ` set ys"
    using assms(1) m by simp
  then have "\<forall>(k, w)\<in>set ys. TrimSpace k \<noteq> TransportEncryption \<and> k \<noteq> TransportEncryption"
    using assms(2) m by (fastforce intro: rev_image_eqI)
  then have "get_or '''' (flags_loop m newDefaults) TransportEncryption =
      get_or '''' (set_flag TransportEncryption v (flags_loop xs newDefaults)) TransportEncryption"
    by (simp add: m flags_loop_append flags_loop_other)
  with Some show ?thesis
    by (simp add: GetEventingFeatureFlags_def NewFlagsConfigFromMap_def IsDisabledTransportEncryption_def
        set_flag_transport)
qed

theorem transport_encryption_disabled_iff_witness:
  "\<exists>flags. GetEventingFeatureFlags (Some \<lparr>Eventing = Some [(''x'', ''y''), (''transport-encryption'', ''DISABLED'')],
       EventingKafkaBroker = None\<rparr>) = Ok flags \<and> IsDisabledTransportEncryption flags"
proof -
  let ?m = "[(''x'', ''y''), (''transport-encryption'', ''DISABLED'')]"
  have "distinct (map fst ?m)" by simp
  moreover have "\<forall>(k, v)\<in>set ?m. TrimSpace k = TransportEncryption \<longrightarrow> k = TransportEncryption"
  proof -
    have "strip_first white_space ''x'' = None" "strip_first (map rev white_space) (rev ''x'') = None"
      by (simp_all add: white_space_def)
    then have "TrimSpace ''x'' = ''x''" by (simp add: TrimSpace_def trim_left_stop)
    then show ?thesis by (simp add: TransportEncryption_def)
  qed
  moreover have "case map_of ?m TransportEncryption of None \<Rightarrow> True | Some v \<Rightarrow> EqualFold v ''Disabled''"
  proof -
    have "EqualFold ''DISABLED'' ''Disabled''" by code_simp
    then show ?thesis by (simp add: TransportEncryption_def)
  qed
  ultimately show ?thesis
    using transport_encryption_disabled_iff [of ?m None] by blast
qed

end
