(* ===== verification/Config_Transformers.thy ===== *)
theory Config_Transformers
  imports Scheme_Convert Manifestival Event_Mesh_API
begin

text \<open>
  The transformers of \<^verbatim>\<open>pkg/manifests/transform\<close> that edit ConfigMaps, autoscalers, replica
  counts and owners. Each is a function from a resource to a resource, an error or a panic,
  with the guards of the source. The theorems give the exact effect of each on the data of
  the ConfigMap it addresses, and that every one of them keeps the identity of every resource.
\<close>

section \<open>ConfigMap data\<close>

definition str_val :: "goval \<Rightarrow> string" where
  "str_val v = (case v of VString s \<Rightarrow> s | _ \<Rightarrow> '''')"

text \<open>\<^verbatim>\<open>cm.Data\<close>: \<open>None\<close> is the nil map.\<close>

definition Data :: "goval \<Rightarrow> string gomap option" where
  "Data cm = (case fld cm ''data'' of VMap d \<Rightarrow> map_option (map (\<lambda>(k, v). (k, str_val v))) d | _ \<Rightarrow> None)"

definition set_Data :: "goval \<Rightarrow> string gomap option \<Rightarrow> goval" where
  "set_Data cm d = set_fld cm ''data'' (VMap (map_option (map (\<lambda>(k, s). (k, VString s))) d))"

text \<open>\<^verbatim>\<open>cm.Data[key] = value\<close>\<close>

definition put_data :: "string \<Rightarrow> string \<Rightarrow> string gomap option \<Rightarrow> string gomap option res" where
  "put_data key val d = (case d of
       None \<Rightarrow> Panic ''assignment to entry in nil map''
     | Some m \<Rightarrow> Ok (Some (AList.update key val m)))"

text \<open>Convert to a ConfigMap, edit its data, convert back.\<close>

definition with_configmap :: "goenv \<Rightarrow> (string gomap option \<Rightarrow> string gomap option res) \<Rightarrow> transformer" where
  "with_configmap env edit u =
     bind_res (wrap_err ''error converting unstructured to configmap'' (Convert_from env ConfigMap_gvk ConfigMap_type u))
       (\<lambda>cm. bind_res (edit (Data cm)) (\<lambda>d. Convert_to ConfigMap_gvk (set_Data cm d)))"

definition is_configmap :: "string \<Rightarrow> string \<Rightarrow> gobj \<Rightarrow> bool" where
  "is_configmap namespace name u \<longleftrightarrow> GetKind u = ''ConfigMap'' \<and> GetNamespace u = namespace \<and> GetName u = name"

section \<open>The ConfigMap transformers\<close>

definition ConfigMap :: "goenv \<Rightarrow> string \<Rightarrow> string \<Rightarrow> string \<Rightarrow> string \<Rightarrow> transformer" where
  "ConfigMap env name namespace key val u =
     (if GetKind u \<noteq> ''ConfigMap'' then Ok u
      else if GetNamespace u \<noteq> namespace \<or> GetName u \<noteq> name then Ok u
      else with_configmap env (put_data key val) u)"

fun put_data_all :: "string gomap \<Rightarrow> string gomap option \<Rightarrow> string gomap option res" where
  "put_data_all [] d = Ok d"
| "put_data_all ((k, v) # kvs) d = bind_res (put_data k v d) (put_data_all kvs)"

definition ConfigMapMultipleValues ::
    "goenv \<Rightarrow> string \<Rightarrow> string \<Rightarrow> string gomap \<Rightarrow> bool \<Rightarrow> transformer" where
  "ConfigMapMultipleValues env name namespace keyValues merge u =
     (if GetKind u \<noteq> ''ConfigMap'' then Ok u
      else if GetNamespace u \<noteq> namespace \<or> GetName u \<noteq> name then Ok u
      else with_configmap env (\<lambda>d. if merge then put_data_all keyValues d else Ok (Some keyValues)) u)"

definition BootstrapServers_tr :: "goenv \<Rightarrow> string list \<Rightarrow> transformer" where
  "BootstrapServers_tr env servers u =
     (if GetKind u \<noteq> ''ConfigMap'' then Ok u
      else if GetNamespace u \<noteq> env_namespace env \<or>
              (GetName u \<noteq> ''kafka-broker-config'' \<and> GetName u \<noteq> ''kafka-channel-config'') then Ok u
      else with_configmap env (put_data ''bootstrap.servers'' (Join servers '','')) u)"

definition NumberOfPartitions :: "goenv \<Rightarrow> 32 word \<Rightarrow> transformer" where
  "NumberOfPartitions env num =
     ConfigMap env ''kafka-broker-config'' (env_namespace env) ''default.topic.partitions'' (int_str (sint num))"

definition ReplicationFactor_tr :: "goenv \<Rightarrow> 32 word \<Rightarrow> transformer" where
  "ReplicationFactor_tr env num =
     ConfigMap env ''kafka-broker-config'' (env_namespace env) ''default.topic.replication.factor'' (int_str (sint num))"

definition topic_config_prefix :: string where
  "topic_config_prefix = ''default.topic.config.''"

definition KafkaTopicOption :: "goenv \<Rightarrow> string gomap \<Rightarrow> transformer" where
  "KafkaTopicOption env options =
     ConfigMapMultipleValues env ''kafka-broker-config'' (env_namespace env)
       (put_all (map (\<lambda>(k, v). (topic_config_prefix @ k, v)) options) []) True"

definition nl :: string where
  "nl = [CHR 0x0A]"

definition configMapForBrokerClass :: "string \<Rightarrow> string \<Rightarrow> string" where
  "configMapForBrokerClass brokerClass channel =
     (if brokerClass = BrokerClassMTChannelBased then
        (if channel = ChannelImplementationIMC then ''config-br-default-channel'' else ''kafka-channel'')
      else ''kafka-broker-config'')"

definition alternative_class :: "string \<Rightarrow> string" where
  "alternative_class brokerClass =
     (if brokerClass = BrokerClassKafka then BrokerClassMTChannelBased
      else if brokerClass = BrokerClassMTChannelBased then BrokerClassKafka
      else '''')"

definition broker_defaults :: "string \<Rightarrow> string \<Rightarrow> string \<Rightarrow> string" where
  "broker_defaults ns brokerClass channel =
     (let alternativeBrokerClass = alternative_class brokerClass in
      ''clusterDefault:'' @ nl @
      ''  brokerClass: '' @ brokerClass @ nl @
      ''  apiVersion: v1'' @ nl @
      ''  kind: ConfigMap'' @ nl @
      ''  name: '' @ configMapForBrokerClass brokerClass channel @ nl @
      ''  namespace: '' @ ns @ nl @
      ''  brokerClasses:'' @ nl @
      ''    '' @ alternativeBrokerClass @ '':'' @ nl @
      ''      apiVersion: v1'' @ nl @
      ''      kind: ConfigMap'' @ nl @
      ''      name: '' @ configMapForBrokerClass alternativeBrokerClass channel @ nl @
      ''      namespace: '' @ ns)"

definition DefaultBrokerClass :: "goenv \<Rightarrow> string \<Rightarrow> string \<Rightarrow> transformer" where
  "DefaultBrokerClass env brokerClass channel u =
     (if GetKind u \<noteq> ''ConfigMap'' then Ok u
      else if GetNamespace u \<noteq> env_namespace env \<or> GetName u \<noteq> ''config-br-defaults'' then Ok u
      else with_configmap env (put_data ''default-br-config''
             (broker_defaults (env_namespace env)
               (if brokerClass = '''' then BrokerClassKafka else brokerClass) channel)) u)"

definition channel_defaults :: "string \<Rightarrow> string" where
  "channel_defaults channel =
     ''clusterDefault:'' @ nl @ ''  apiVersion: messaging.knative.dev/v1'' @ nl @ ''  kind: '' @ channel"

definition DefaultChannelImplementation :: "goenv \<Rightarrow> string \<Rightarrow> transformer" where
  "DefaultChannelImplementation env channel u =
     (if GetKind u \<noteq> ''ConfigMap'' then Ok u
      else if GetNamespace u \<noteq> env_namespace env \<or> GetName u \<noteq> ''default-ch-webhook'' then Ok u
      else with_configmap env (put_data ''default-ch-config''
             (channel_defaults (if channel = '''' then ChannelImplementationKafka else channel))) u)"

definition NoOp :: transformer where
  "NoOp u = Ok u"

definition EventingFeatureFlags :: "goenv \<Rightarrow> event_mesh_spec_features option \<Rightarrow> transformer" where
  "EventingFeatureFlags env features = (case features of
       Some f \<Rightarrow> (case Eventing f of
           Some m \<Rightarrow> ConfigMapMultipleValues env ''config-features'' (env_namespace env) m False
         | None \<Rightarrow> NoOp)
     | None \<Rightarrow> NoOp)"

definition EventingKafkaBrokerFeatureFlags :: "goenv \<Rightarrow> event_mesh_spec_features option \<Rightarrow> transformer" where
  "EventingKafkaBrokerFeatureFlags env features = (case features of
       Some f \<Rightarrow> (case EventingKafkaBroker f of
           Some m \<Rightarrow> ConfigMapMultipleValues env ''config-kafka-features'' (env_namespace env) m False
         | None \<Rightarrow> NoOp)
     | None \<Rightarrow> NoOp)"

text \<open>
  \<^verbatim>\<open>updateConfigMap\<close> writes into the untyped object. The override data is a map of strings,
  so \<^verbatim>\<open>v == x\<close> compares a string with the dynamic value found.
\<close>

fun updateConfigMap :: "string gomap \<Rightarrow> transformer" where
  "updateConfigMap [] u = Ok u"
| "updateConfigMap ((k, v) # data) u =
     bind_res (NestedFieldNoCopy u [''data'', k]) (\<lambda>x.
       if x = Some (GString v) then updateConfigMap data u
       else bind_res (SetNestedField u (GString v) [''data'', k]) (updateConfigMap data))"

definition ConfigMapOverride :: "(string gomap) gomap \<Rightarrow> transformer" where
  "ConfigMapOverride config u =
     (if GetKind u = ''ConfigMap'' then
        (case map_of config (GetName u) of
           Some data \<Rightarrow> updateConfigMap data u
         | None \<Rightarrow>
             if length (GetName u) < 7 then Panic ''slice bounds out of range''
             else (case map_of config (drop 7 (GetName u)) of
                 Some data \<Rightarrow> updateConfigMap data u
               | None \<Rightarrow> Ok u))
      else Ok u)"

section \<open>Replicas and owners\<close>

text \<open>Go's \<^verbatim>\<open>int64\<close> arithmetic wraps, as the 64-bit words here do.\<close>

definition HPAReplicas :: "string \<Rightarrow> string \<Rightarrow> 64 word \<Rightarrow> transformer" where
  "HPAReplicas name namespace minReplicas u =
     (if GetKind u \<noteq> ''HorizontalPodAutoscaler'' \<or> GetNamespace u \<noteq> namespace \<or> GetName u \<noteq> name then Ok u
      else bind_res (NestedInt64 u [''spec'', ''minReplicas'']) (\<lambda>r. let mn = (case r of None \<Rightarrow> 0 | Some i \<Rightarrow> i) in
           bind_res (SetNestedField u (GInt minReplicas) [''spec'', ''minReplicas'']) (\<lambda>u1.
           bind_res (NestedInt64 u1 [''spec'', ''maxReplicas'']) (\<lambda>found. case found of
               None \<Rightarrow> Ok u1
             | Some mx \<Rightarrow> SetNestedField u1 (GInt (mx + (minReplicas - mn))) [''spec'', ''maxReplicas'']))))"

definition scalableKinds :: "gvk list" where
  "scalableKinds = [
     \<lparr>Group = ''apps'', Version = ''v1'', Kind = ''Deployment''\<rparr>,
     \<lparr>Group = ''apps'', Version = ''v1'', Kind = ''StatefulSet''\<rparr>,
     \<lparr>Group = ''apps'', Version = ''v1'', Kind = ''ReplicaSet''\<rparr>,
     \<lparr>Group = '''', Version = ''v1'', Kind = ''ReplicationController''\<rparr>]"

definition GroupVersionKind_String :: "gvk \<Rightarrow> string" where
  "GroupVersionKind_String g = Group g @ ''/'' @ Version g @ '', Kind='' @ Kind g"

definition Scale :: "gvk \<Rightarrow> string \<Rightarrow> string \<Rightarrow> 64 word \<Rightarrow> transformer" where
  "Scale g name namespace replicas u =
     (if \<not> List.member scalableKinds (GroupVersionKind u) then Ok u
      else if \<not> List.member scalableKinds g then Err (ErrMsg (GroupVersionKind_String g @ '' is not a scalable kind''))
      else if Group (GroupVersionKind u) \<noteq> Group g \<or> Version (GroupVersionKind u) \<noteq> Version g
              \<or> Kind (GroupVersionKind u) \<noteq> Kind g then Ok u
      else if GetNamespace u \<noteq> namespace \<or> GetName u \<noteq> name then Ok u
      else SetNestedField u (GInt replicas) [''spec'', ''replicas''])"

definition InjectOwner :: "owner \<Rightarrow> transformer" where
  "InjectOwner ow u = (if GetKind u = ''Namespace'' then Ok u else mf_InjectOwner ow u)"


section \<open>The effect of a ConfigMap edit\<close>

text \<open>The data of a ConfigMap as the API server's clients read it.\<close>

definition data_of :: "gobj \<Rightarrow> string gomap option res" where
  "data_of u = NestedNullCoercingStringMap u [''data'']"

text \<open>A resource that is a well-formed ConfigMap for the converter.\<close>

definition convertible :: "goenv \<Rightarrow> gobj \<Rightarrow> bool" where
  "convertible env u = is_ok (Convert_from env ConfigMap_gvk ConfigMap_type u)"

lemma ConfigMap_object_fields: "object_fields ConfigMap_fields"
  by (simp add: object_fields_def ConfigMap_fields_def TypeMeta_fields_def)

lemma ConfigMap_gvk_ok: "printable_gvk ConfigMap_gvk" "Kind ConfigMap_gvk \<noteq> ''''"
  by (simp_all add: printable_gvk_def ConfigMap_gvk_def ParseGroupVersion_def GroupVersion_String_def)

lemma set_Data_typed: "set_Data cm d = set_fld cm ''data'' (typed_string_map d)"
  by (simp add: set_Data_def typed_string_map_def)

lemma Data_typed: "fld cm ''data'' = typed_string_map d \<Longrightarrow> Data cm = d"
  by (cases d) (simp_all add: Data_def typed_string_map_def o_def case_prod_unfold str_val_def)

lemma convertible_Data:
  assumes "Convert_from env ConfigMap_gvk ConfigMap_type u = Ok cm"
  shows "data_of u = Ok (Data cm)" "struct_val cm" "fld_names cm = map fst ConfigMap_fields" "omitempty cm ''data''"
proof -
  from assms obtain w where w: "fromUnstructured env (TStruct ConfigMap_fields) (GMap u) = Ok w"
    and cm: "cm = clear_type_meta w"
    unfolding ConfigMap_type_def by (rule Convert_from_Ok)
  have f: "map_of ConfigMap_fields ''data'' = Some (True, TMap TString)"
    by (simp add: ConfigMap_fields_def TypeMeta_fields_def)
  show "data_of u = Ok (Data cm)"
    using from_string_map_fld [OF w f] Data_typed cm by (auto simp: data_of_def)
  show "struct_val cm" "fld_names cm = map fst ConfigMap_fields" "omitempty cm ''data''"
    using from_struct_struct_val [OF w] from_struct_fld_names [OF w] from_struct_omitempty [OF w f] cm
    by (simp_all add: clear_type_meta_def)
qed

lemma with_configmap_identity:
  assumes "with_configmap env edit u = Ok u'"
  shows "res_key u' = res_key u"
proof -
  from assms obtain cm d where cm: "Convert_from env ConfigMap_gvk ConfigMap_type u = Ok cm"
    and u': "Convert_to ConfigMap_gvk (set_Data cm d) = Ok u'"
    by (auto simp: with_configmap_def go_outcome)
  have "same_identity ConfigMap_fields u cm"
    using cm unfolding ConfigMap_type_def by (rule Convert_from_identity [OF _ ConfigMap_object_fields])
  then have "same_identity ConfigMap_fields u (set_Data cm d)"
    by (simp add: same_identity_def set_Data_typed)
  moreover have "GroupVersionKind u = ConfigMap_gvk"
    using cm by (rule Convert_from_Ok)
  ultimately show ?thesis
    using Convert_to_identity [OF _ ConfigMap_object_fields u'] ConfigMap_gvk_ok by blast
qed

lemma with_configmap_effect:
  assumes "convertible env u" and "data_of u = Ok d" and "edit d = Ok d'"
  shows "\<exists>u'. with_configmap env edit u = Ok u' \<and> data_of u' = Ok (emitted_map d') \<and> res_key u' = res_key u"
proof -
  from assms(1) obtain cm where cm: "Convert_from env ConfigMap_gvk ConfigMap_type u = Ok cm"
    by (auto simp: convertible_def is_ok_def split: res.splits)
  note c = convertible_Data [OF cm]
  from c(1) assms(2) have d: "Data cm = d" by simp
  let ?v = "set_Data cm d'"
  have sv: "struct_val ?v" using c(2) by (simp add: set_Data_typed)
  obtain u' where u': "Convert_to ConfigMap_gvk ?v = Ok u'"
    using Convert_to_struct [OF sv] by blast
  have w: "with_configmap env edit u = Ok u'"
    using cm d assms(3) u' by (simp add: with_configmap_def)
  obtain m where m: "toUnstructured ?v = GMap m" "map_of u' ''data'' = map_of m ''data''"
    using Convert_to_field [OF u', of "''data''"] by auto
  have mem: "''data'' \<in> set (fld_names ?v)" "distinct (fld_names ?v)"
    using c(3) by (simp_all add: set_Data_typed ConfigMap_fields_def TypeMeta_fields_def)
  have "NestedNullCoercingStringMap m [''data''] = Ok (emitted_map d')"
    using sv mem c(3,4) m(1)
    by (intro emitted_string_map [of ?v]) (simp_all add: set_Data_typed ConfigMap_fields_def TypeMeta_fields_def)
  then have "data_of u' = Ok (emitted_map d')"
    using m(2) by (simp add: data_of_def NestedNullCoercingStringMap_def NestedFieldNoCopy_def)
  with w with_configmap_identity [OF w] show ?thesis by blast
qed

lemma with_configmap_fails:
  assumes "convertible env u" and "data_of u = Ok d"
  shows "edit d = Panic p \<Longrightarrow> with_configmap env edit u = Panic p"
    and "edit d = Err e \<Longrightarrow> with_configmap env edit u = Err e"
proof -
  from assms(1) obtain cm where cm: "Convert_from env ConfigMap_gvk ConfigMap_type u = Ok cm"
    by (auto simp: convertible_def is_ok_def split: res.splits)
  with convertible_Data(1) [OF cm] assms(2)
  show "edit d = Panic p \<Longrightarrow> with_configmap env edit u = Panic p"
    and "edit d = Err e \<Longrightarrow> with_configmap env edit u = Err e"
    by (simp_all add: with_configmap_def)
qed


lemma ConfigMap_wf_type: "wf_type (TStruct ConfigMap_fields)"
  by (simp add: ConfigMap_fields_def TypeMeta_fields_def ObjectMeta_type_def ObjectMeta_fields_def
      OwnerReference_type_def ManagedFieldsEntry_type_def)

lemma has_type_string_map: "has_type env (TMap TString) (typed_string_map d)"
  by (cases d) (auto simp: typed_string_map_def list_all_iff)

lemma with_configmap_convertible:
  assumes "env_stable env" and "with_configmap env edit u = Ok u'"
  shows "convertible env u'"
proof -
  from assms(2) obtain cm d where cm: "Convert_from env ConfigMap_gvk (TStruct ConfigMap_fields) u = Ok cm"
    and u': "Convert_to ConfigMap_gvk (set_Data cm d) = Ok u'"
    by (auto simp: with_configmap_def ConfigMap_type_def go_outcome)
  have f: "map_of ConfigMap_fields ''data'' = Some (True, TMap TString)" "distinct (map fst ConfigMap_fields)"
    by (simp_all add: ConfigMap_fields_def TypeMeta_fields_def)
  have "has_type env (TStruct ConfigMap_fields) (set_Data cm d)"
    using Convert_from_has_type [OF cm assms(1) ConfigMap_wf_type ConfigMap_object_fields] f
    unfolding set_Data_typed by (intro has_type_set_fld [OF _ f(2,1)] has_type_string_map)
  then show ?thesis
    using Convert_to_reconverts [OF u' _ ConfigMap_wf_type ConfigMap_object_fields]
      ConfigMap_gvk_ok by (simp add: convertible_def ConfigMap_type_def ConfigMap_gvk_def)
qed

lemma emitted_map_update [simp]: "emitted_map (Some (AList.update k v m)) = Some (AList.update k v m)"
proof -
  have "AList.update k v m \<noteq> []"
    by (metis map_of_update fun_upd_same map_of.simps(1) option.distinct(1))
  then show ?thesis by (simp add: emitted_map_def)
qed

lemma put_data_effect:
  assumes "convertible env u" and "data_of u = Ok (Some m)"
  shows "\<exists>u'. with_configmap env (put_data key val) u = Ok u' \<and>
    data_of u' = Ok (Some (AList.update key val m)) \<and> res_key u' = res_key u"
  using with_configmap_effect [OF assms, of "put_data key val"] by (simp add: put_data_def)

lemma put_data_nil:
  "convertible env u \<Longrightarrow> data_of u = Ok None \<Longrightarrow>
     with_configmap env (put_data key val) u = Panic ''assignment to entry in nil map''"
  using with_configmap_fails(1) [of env u None "put_data key val"] by (simp add: put_data_def)

text \<open>
  On the ConfigMap it addresses, \<open>ConfigMap\<close> sets exactly the given key of the data,
  keeps every other key and the identity of the resource; if the ConfigMap has no data it
  panics, writing to a nil map.
\<close>

theorem ConfigMap_effect:
  assumes "convertible env u" and "GetKind u = ''ConfigMap''" and "GetNamespace u = namespace" and "GetName u = name"
  shows "case data_of u of
      Ok (Some m) \<Rightarrow> (\<exists>u'. ConfigMap env name namespace key val u = Ok u' \<and>
        data_of u' = Ok (Some (AList.update key val m)) \<and> res_key u' = res_key u)
    | Ok None \<Rightarrow> ConfigMap env name namespace key val u = Panic ''assignment to entry in nil map''
    | _ \<Rightarrow> False"
proof -
  from assms(1) obtain cm where "Convert_from env ConfigMap_gvk ConfigMap_type u = Ok cm"
    by (auto simp: convertible_def is_ok_def split: res.splits)
  then have d: "data_of u = Ok (Data cm)" by (rule convertible_Data)
  show ?thesis
  proof (cases "Data cm")
    case None
    with d put_data_nil [OF assms(1)] assms(2-4) show ?thesis by (simp add: ConfigMap_def)
  next
    case (Some m)
    with d put_data_effect [OF assms(1), of m key val] assms(2-4) show ?thesis by (simp add: ConfigMap_def)
  qed
qed

text \<open>A process environment and ConfigMaps for the witnesses.\<close>

definition sample_env :: goenv where
  "sample_env = \<lparr>env_namespace = ''knative-eventing'', env_lower = id, env_upper = id, env_float_int = (\<lambda>_. None),
     env_named = (\<lambda>_. Ok), env_named_zero = (\<lambda>_. GNil), env_json_unmarshal = (\<lambda>_. Ok (GMap [])),
     env_json_marshal = (\<lambda>_. Ok ''{}''), env_expand = (\<lambda>_ _. ''''), env_sort = sort_slice\<rparr>"

definition sample_configmap :: "string \<Rightarrow> (string \<times> gval) list \<Rightarrow> gobj" where
  "sample_configmap name rest = [(''apiVersion'', GString ''v1''), (''kind'', GString ''ConfigMap''),
     (''metadata'', GMap [(''name'', GString name), (''namespace'', GString ''knative-eventing'')])] @ rest"

definition sample_broker_config :: gobj where
  "sample_broker_config = sample_configmap ''kafka-broker-config''
     [(''data'', GMap [(''default.topic.partitions'', GString ''10''), (''auth.secret.ref.name'', GString ''s'')])]"

lemma sample_broker_config_facts:
  "convertible sample_env sample_broker_config" "GetKind sample_broker_config = ''ConfigMap''"
  "GetNamespace sample_broker_config = ''knative-eventing''" "GetName sample_broker_config = ''kafka-broker-config''"
  "data_of sample_broker_config = Ok (Some [(''default.topic.partitions'', ''10''), (''auth.secret.ref.name'', ''s'')])"
  by code_simp+

theorem ConfigMap_effect_witness:
  "\<exists>u'. ConfigMap sample_env ''kafka-broker-config'' ''knative-eventing'' ''default.topic.partitions'' ''3''
      sample_broker_config = Ok u' \<and>
    data_of u' = Ok (Some [(''default.topic.partitions'', ''3''), (''auth.secret.ref.name'', ''s'')])"
  using ConfigMap_effect [OF sample_broker_config_facts(1-4), of "''default.topic.partitions''" "''3''"]
  by (auto simp: sample_broker_config_facts(5))


section \<open>The Kafka broker configuration\<close>

lemma put_data_all_Some:
  "put_data_all kvs (Some m) = Ok (Some (put_all kvs m))"
  by (induction kvs m rule: put_all.induct) (simp_all add: put_data_def)

lemma update_nonempty [simp]: "AList.update k v m \<noteq> []"
  by (metis map_of_update fun_upd_same map_of.simps(1) option.distinct(1))

lemma put_all_nonempty: "m \<noteq> [] \<Longrightarrow> put_all kvs m \<noteq> []"
  by (induction kvs m rule: put_all.induct) simp_all

text \<open>A convertible ConfigMap with a given identity and given data.\<close>

definition cm_state :: "goenv \<Rightarrow> resource_key \<Rightarrow> gobj \<Rightarrow> string gomap \<Rightarrow> bool" where
  "cm_state env key u m \<longleftrightarrow> convertible env u \<and> res_key u = key \<and> data_of u = Ok (Some m)"

lemma put_step:
  assumes "env_stable env" and "cm_state env key u m"
  shows "\<exists>u'. with_configmap env (put_data a b) u = Ok u' \<and> cm_state env key u' (AList.update a b m)"
  using put_data_effect [of env u m a b] with_configmap_convertible [OF assms(1)] assms(2)
  by (auto simp: cm_state_def)

lemma put_all_step:
  assumes "env_stable env" and "cm_state env key u m" and "m \<noteq> []"
  shows "\<exists>u'. with_configmap env (put_data_all kvs) u = Ok u' \<and> cm_state env key u' (put_all kvs m)"
  using with_configmap_effect [of env u "Some m" "put_data_all kvs" "Some (put_all kvs m)"]
    with_configmap_convertible [OF assms(1)] assms(2,3) put_all_nonempty [OF assms(3)]
  by (auto simp: cm_state_def put_data_all_Some emitted_map_def)

lemma cm_state_key:
  "cm_state env key u m \<Longrightarrow> GetKind u = fst (snd key) \<and> GetNamespace u = fst (snd (snd key)) \<and> GetName u = snd (snd (snd key))"
  by (auto simp: cm_state_def res_key_def)

lemma map_of_prefixed:
  assumes "distinct (map fst options)"
  shows "map_of (put_all (map (\<lambda>(k, v). (p @ k, v)) options) []) = map_of (map (\<lambda>(k, v). (p @ k, v)) options)"
    and "distinct (map fst (put_all (map (\<lambda>(k, v). (p @ k, v)) options) []))"
proof -
  have "distinct (map (\<lambda>k. p @ k) (map fst options))"
    using assms by (subst distinct_map) (auto intro: inj_onI)
  then have "distinct (map fst (map (\<lambda>(k, v). (p @ k, v)) options))"
    by (simp add: o_def case_prod_unfold)
  then show "map_of (put_all (map (\<lambda>(k, v). (p @ k, v)) options) []) = map_of (map (\<lambda>(k, v). (p @ k, v)) options)"
    by (simp add: map_of_put_all)
  show "distinct (map fst (put_all (map (\<lambda>(k, v). (p @ k, v)) options) []))" by simp
qed

text \<open>
  Running the Kafka transformers in the parser's order over the broker's ConfigMap
  succeeds and leaves exactly this data: what was there, overlaid with the joined bootstrap
  servers, the partition count and the replication factor in decimal, and every topic option
  under the prefix \<open>default.topic.config.\<close>; the identity of the ConfigMap is kept. The order
  in which Go iterates the option map does not matter.
\<close>

theorem kafka_broker_config_effect:
  assumes "env_stable env" and "convertible env u" and "GetKind u = ''ConfigMap''"
    and "GetNamespace u = env_namespace env" and "GetName u = ''kafka-broker-config''"
    and "data_of u = Ok (Some d)" and "distinct (map fst (TopicConfigOptions k))"
  shows "\<exists>u' d'. transform_resource
      [Some (BootstrapServers_tr env (BootstrapServers k)), Some (NumberOfPartitions env (NumPartitions k)),
       Some (ReplicationFactor_tr env (ReplicationFactor k)), Some (KafkaTopicOption env (TopicConfigOptions k))] u = Ok u' \<and>
    data_of u' = Ok (Some d') \<and> res_key u' = res_key u \<and>
    map_of d' = (map_of d)(''bootstrap.servers'' \<mapsto> Join (BootstrapServers k) '','',
        ''default.topic.partitions'' \<mapsto> int_str (sint (NumPartitions k)),
        ''default.topic.replication.factor'' \<mapsto> int_str (sint (ReplicationFactor k)))
      ++ map_of (map (\<lambda>(o', v). (topic_config_prefix @ o', v)) (TopicConfigOptions k))"
proof -
  let ?key = "res_key u"
  let ?opts = "put_all (map (\<lambda>(k, v). (topic_config_prefix @ k, v)) (TopicConfigOptions k)) []"
  have s0: "cm_state env ?key u d" using assms(2,6) by (simp add: cm_state_def)
  have key: "fst (snd ?key) = ''ConfigMap''" "fst (snd (snd ?key)) = env_namespace env"
    "snd (snd (snd ?key)) = ''kafka-broker-config''"
    using assms(3-5) by (simp_all add: res_key_def)
  obtain u1 d1 where u1: "BootstrapServers_tr env (BootstrapServers k) u = Ok u1" "cm_state env ?key u1 d1"
    "d1 = AList.update ''bootstrap.servers'' (Join (BootstrapServers k) '','') d"
    using put_step [OF assms(1) s0] assms(3-5) by (fastforce simp: BootstrapServers_tr_def)
  obtain u2 d2 where u2: "NumberOfPartitions env (NumPartitions k) u1 = Ok u2" "cm_state env ?key u2 d2"
    "d2 = AList.update ''default.topic.partitions'' (int_str (sint (NumPartitions k))) d1"
    using put_step [OF assms(1) u1(2)] cm_state_key [OF u1(2)] key
    by (fastforce simp: NumberOfPartitions_def ConfigMap_def)
  obtain u3 d3 where u3: "ReplicationFactor_tr env (ReplicationFactor k) u2 = Ok u3" "cm_state env ?key u3 d3"
    "d3 = AList.update ''default.topic.replication.factor'' (int_str (sint (ReplicationFactor k))) d2"
    using put_step [OF assms(1) u2(2)] cm_state_key [OF u2(2)] key
    by (fastforce simp: ReplicationFactor_tr_def ConfigMap_def)
  obtain u4 where u4: "KafkaTopicOption env (TopicConfigOptions k) u3 = Ok u4" "cm_state env ?key u4 (put_all ?opts d3)"
    using put_all_step [OF assms(1) u3(2), of ?opts] cm_state_key [OF u3(2)] key u3(3)
    by (fastforce simp: KafkaTopicOption_def ConfigMapMultipleValues_def)
  have "map_of (put_all ?opts d3) = map_of d3 ++ map_of (map (\<lambda>(k, v). (topic_config_prefix @ k, v)) (TopicConfigOptions k))"
    using map_of_prefixed [OF assms(7)] by (simp add: map_of_put_all)
  with u1 u2 u3 u4 show ?thesis
    by (auto simp: transform_resource_def run_transformer_def cm_state_def)
qed

lemma sample_env_stable: "env_stable sample_env"
  by (simp add: env_stable_def sample_env_def)

theorem kafka_broker_config_effect_witness:
  "\<exists>u' d'. transform_resource
      [Some (BootstrapServers_tr sample_env [''b0:9092'', ''b1:9092'']), Some (NumberOfPartitions sample_env 3),
       Some (ReplicationFactor_tr sample_env 1), Some (KafkaTopicOption sample_env [(''retention.ms'', ''7'')])]
      sample_broker_config = Ok u' \<and> data_of u' = Ok (Some d') \<and>
    map_of d' ''bootstrap.servers'' = Some ''b0:9092,b1:9092'' \<and>
    map_of d' ''default.topic.config.retention.ms'' = Some ''7''"
proof -
  let ?k = "\<lparr>BootstrapServers = [''b0:9092'', ''b1:9092''], AuthSecretRef = None, NumPartitions = 3,
     ReplicationFactor = 1, TopicConfigOptions = [(''retention.ms'', ''7'')]\<rparr>"
  have ns: "GetNamespace sample_broker_config = env_namespace sample_env"
    by (simp add: sample_broker_config_facts sample_env_def)
  from kafka_broker_config_effect [OF sample_env_stable sample_broker_config_facts(1,2) ns
      sample_broker_config_facts(4,5), of ?k]
  show ?thesis by (fastforce simp: topic_config_prefix_def)
qed


section \<open>Replicas\<close>

lemma nested_two_Some:
  assumes "NestedFieldNoCopy u [f, g] = Ok (Some x)"
  shows "\<exists>m. map_of u f = Some (GMap m) \<and> map_of m g = Some x"
  using assms by (cases "map_of u f"; cases "the (map_of u f)")
    (auto simp: NestedFieldNoCopy_def split: option.splits)

lemma SetNestedField_two:
  "map_of u f = Some (GMap m) \<Longrightarrow> SetNestedField u v [f, g] = Ok (AList.update f (GMap (AList.update g v m)) u)"
  by simp

lemma NestedInt64_Some: "NestedInt64 u p = Ok (Some i) \<longleftrightarrow> NestedFieldNoCopy u p = Ok (Some (GInt i))"
proof (cases "NestedFieldNoCopy u p")
  case (Ok o')
  then show ?thesis by (cases o'; cases "the o'") (auto simp: NestedInt64_def)
qed (simp_all add: NestedInt64_def)

lemma spec_path_identity: "q \<in> identity_paths \<Longrightarrow> path_sep (''spec'' # p) q"
  by (auto simp: identity_paths_def)

lemma NestedInt64_cong: "NestedFieldNoCopy u p = NestedFieldNoCopy u' p \<Longrightarrow> NestedInt64 u p = NestedInt64 u' p"
  by (simp add: NestedInt64_def)

text \<open>
  For the addressed autoscaler, \<open>HPAReplicas\<close> sets the minimum to the requested
  value and moves the maximum by the same amount, in 64-bit wrap-around arithmetic, so that the
  distance between them is unchanged; every field apart from these two is as before. An absent
  minimum counts as zero.
\<close>

theorem HPAReplicas_effect:
  assumes "GetKind u = ''HorizontalPodAutoscaler''" and "GetNamespace u = namespace" and "GetName u = name"
    and "NestedInt64 u [''spec'', ''minReplicas''] = Ok mn" and "NestedInt64 u [''spec'', ''maxReplicas''] = Ok (Some mx)"
  shows "\<exists>u' mx'. HPAReplicas name namespace r u = Ok u' \<and>
    NestedInt64 u' [''spec'', ''minReplicas''] = Ok (Some r) \<and> NestedInt64 u' [''spec'', ''maxReplicas''] = Ok (Some mx') \<and>
    mx' - r = mx - (case mn of None \<Rightarrow> 0 | Some i \<Rightarrow> i) \<and> res_key u' = res_key u \<and>
    (\<forall>q. path_sep [''spec'', ''minReplicas''] q \<and> path_sep [''spec'', ''maxReplicas''] q \<longrightarrow>
       NestedFieldNoCopy u' q = NestedFieldNoCopy u q)"
proof -
  let ?mn = "case mn of None \<Rightarrow> 0 | Some i \<Rightarrow> i"
  let ?mx = "mx + (r - ?mn)"
  from assms(5) obtain m where m: "map_of u ''spec'' = Some (GMap m)"
    using nested_two_Some [of u "''spec''" "''maxReplicas''" "GInt mx"] by (auto simp: NestedInt64_Some)
  obtain u1 where u1: "SetNestedField u (GInt r) [''spec'', ''minReplicas''] = Ok u1"
    using SetNestedField_two [OF m] by blast
  have max1: "NestedInt64 u1 [''spec'', ''maxReplicas''] = Ok (Some mx)"
    using fields.read_update_sep [OF u1, of "[''spec'', ''maxReplicas'']"] assms(5) by (simp add: NestedInt64_Some)
  then obtain m1 where m1: "map_of u1 ''spec'' = Some (GMap m1)"
    using nested_two_Some [of u1 "''spec''" "''maxReplicas''" "GInt mx"] by (auto simp: NestedInt64_Some)
  obtain u2 where u2: "SetNestedField u1 (GInt ?mx) [''spec'', ''maxReplicas''] = Ok u2"
    using SetNestedField_two [OF m1] by blast
  have "HPAReplicas name namespace r u = Ok u2"
    using assms(1-4) u1 max1 u2 by (simp add: HPAReplicas_def Let_def)
  moreover have "NestedInt64 u2 [''spec'', ''minReplicas''] = Ok (Some r)"
    "NestedInt64 u2 [''spec'', ''maxReplicas''] = Ok (Some ?mx)"
    using fields.update_twice [OF u1 u2] by (simp_all add: NestedInt64_Some)
  moreover have "res_key u2 = res_key u"
    using SetNestedField_res_key [OF u1 spec_path_identity] SetNestedField_res_key [OF u2 spec_path_identity] by simp
  moreover have "NestedFieldNoCopy u2 q = NestedFieldNoCopy u q"
    if "path_sep [''spec'', ''minReplicas''] q" "path_sep [''spec'', ''maxReplicas''] q" for q
    using fields.read_update_sep [OF u1 that(1)] fields.read_update_sep [OF u2 that(2)] by simp
  ultimately show ?thesis by (intro exI [of _ u2] exI [of _ ?mx]) (simp add: algebra_simps)
qed

definition sample_hpa :: gobj where
  "sample_hpa = [(''apiVersion'', GString ''autoscaling/v2''), (''kind'', GString ''HorizontalPodAutoscaler''),
     (''metadata'', GMap [(''name'', GString ''broker-filter-hpa''), (''namespace'', GString ''knative-eventing'')]),
     (''spec'', GMap [(''minReplicas'', GInt 1), (''maxReplicas'', GInt 10)])]"

theorem HPAReplicas_effect_witness:
  "\<exists>u'. HPAReplicas ''broker-filter-hpa'' ''knative-eventing'' 4 sample_hpa = Ok u' \<and>
     NestedInt64 u' [''spec'', ''maxReplicas''] = Ok (Some 13)"
proof -
  have a: "GetKind sample_hpa = ''HorizontalPodAutoscaler''" "GetNamespace sample_hpa = ''knative-eventing''"
    "GetName sample_hpa = ''broker-filter-hpa''" "NestedInt64 sample_hpa [''spec'', ''minReplicas''] = Ok (Some 1)"
    "NestedInt64 sample_hpa [''spec'', ''maxReplicas''] = Ok (Some 10)"
    by code_simp+
  from HPAReplicas_effect [OF a, of 4] obtain u' mx' where
    u': "HPAReplicas ''broker-filter-hpa'' ''knative-eventing'' 4 sample_hpa = Ok u'"
    "NestedInt64 u' [''spec'', ''maxReplicas''] = Ok (Some mx')" "mx' - 4 = 10 - 1" by auto
  then have "mx' = 10 - 1 + 4" by (simp add: diff_eq_eq)
  with u' show ?thesis by auto
qed

text \<open>
  If the autoscaler had its minimum at most at its maximum, and moving the maximum
  does not leave the signed 64-bit range, the new minimum is at most the new maximum.
\<close>

theorem HPAReplicas_ordered:
  assumes "sint mn \<le> sint (mx :: 64 word)"
    and "- (2 ^ 63) \<le> sint mx + (sint r - sint mn)" and "sint mx + (sint r - sint mn) < 2 ^ 63"
    and "GetKind u = ''HorizontalPodAutoscaler''"
    and "NestedInt64 u [''spec'', ''minReplicas''] = Ok (Some mn)" and "NestedInt64 u [''spec'', ''maxReplicas''] = Ok (Some mx)"
    and "HPAReplicas (GetName u) (GetNamespace u) r u = Ok u'"
  shows "\<exists>mx'. NestedInt64 u' [''spec'', ''maxReplicas''] = Ok (Some mx') \<and>
    NestedInt64 u' [''spec'', ''minReplicas''] = Ok (Some r) \<and> sint r \<le> sint mx'"
proof -
  from assms(5,6,7) obtain u1 where u1: "SetNestedField u (GInt r) [''spec'', ''minReplicas''] = Ok u1"
    and u2: "SetNestedField u1 (GInt (mx + (r - mn))) [''spec'', ''maxReplicas''] = Ok u'"
  proof -
    from assms(4,5,7) obtain u1 where u1: "SetNestedField u (GInt r) [''spec'', ''minReplicas''] = Ok u1"
      and c: "bind_res (NestedInt64 u1 [''spec'', ''maxReplicas'']) (\<lambda>found. case found of None \<Rightarrow> Ok u1
         | Some mx \<Rightarrow> SetNestedField u1 (GInt (mx + (r - mn))) [''spec'', ''maxReplicas'']) = Ok u'"
      by (auto simp: HPAReplicas_def Let_def go_outcome simp del: SetNestedField.simps)
    have "NestedInt64 u1 [''spec'', ''maxReplicas''] = Ok (Some mx)"
      using fields.read_update_sep [OF u1, of "[''spec'', ''maxReplicas'']"] assms(6) by (simp add: NestedInt64_Some)
    with c u1 that show ?thesis by simp
  qed
  have "sint (mx + (r - mn)) = sint mx + (sint r - sint mn)"
  proof -
    have "mx + (r - mn) = word_of_int (sint mx + (sint r - sint mn))" by simp
    then have "sint (mx + (r - mn)) = signed_take_bit 63 (sint mx + (sint r - sint mn))"
      by (simp only: sint_sbintrunc') simp
    also have "\<dots> = sint mx + (sint r - sint mn)"
      using assms(2,3) by (intro signed_take_bit_int_eq_self) simp_all
    finally show ?thesis .
  qed
  with assms(1) fields.update_twice [OF u1 u2] show ?thesis by (auto simp: NestedInt64_Some)
qed


theorem HPAReplicas_ordered_witness:
  "\<exists>u' mx'. HPAReplicas ''broker-filter-hpa'' ''knative-eventing'' 4 sample_hpa = Ok u' \<and>
     NestedInt64 u' [''spec'', ''maxReplicas''] = Ok (Some mx') \<and> sint (4 :: 64 word) \<le> sint mx'"
proof -
  have b: "sint (1 :: 64 word) \<le> sint (10 :: 64 word)"
    "- (2 ^ 63) \<le> sint (10 :: 64 word) + (sint (4 :: 64 word) - sint (1 :: 64 word))"
    "sint (10 :: 64 word) + (sint (4 :: 64 word) - sint (1 :: 64 word)) < 2 ^ 63" by simp_all
  have a: "GetKind sample_hpa = ''HorizontalPodAutoscaler''"
    "NestedInt64 sample_hpa [''spec'', ''minReplicas''] = Ok (Some 1)"
    "NestedInt64 sample_hpa [''spec'', ''maxReplicas''] = Ok (Some 10)"
    and n: "GetName sample_hpa = ''broker-filter-hpa''" "GetNamespace sample_hpa = ''knative-eventing''"
    and o: "is_ok (HPAReplicas ''broker-filter-hpa'' ''knative-eventing'' 4 sample_hpa)"
    by code_simp+
  from o obtain u' where u': "HPAReplicas (GetName sample_hpa) (GetNamespace sample_hpa) 4 sample_hpa = Ok u'"
    by (auto simp: is_ok_def n split: res.splits)
  from HPAReplicas_ordered [OF b a u'] u' n show ?thesis by auto
qed

section \<open>ConfigMap overrides\<close>

lemma data_path_identity: "q \<in> identity_paths \<Longrightarrow> path_sep (''data'' # p) q"
  by (auto simp: identity_paths_def)

lemma updateConfigMap_identity: "updateConfigMap data u = Ok u' \<Longrightarrow> res_key u' = res_key u"
proof (induction data u rule: updateConfigMap.induct)
  case (2 k v data u)
  show ?case
  proof (cases "NestedFieldNoCopy u [''data'', k] = Ok (Some (GString v))")
    case True
    with 2 show ?thesis by simp
  next
    case False
    with 2(3) obtain x u1 where x: "NestedFieldNoCopy u [''data'', k] = Ok x" "x \<noteq> Some (GString v)"
      and u1: "SetNestedField u (GString v) [''data'', k] = Ok u1" "updateConfigMap data u1 = Ok u'"
      by (auto simp: go_outcome simp del: SetNestedField.simps split: if_splits)
    with 2(2) [OF x(2) u1(2)] SetNestedField_res_key [OF u1(1) data_path_identity] show ?thesis by simp
  qed
qed simp

lemma updateConfigMap_frame:
  "updateConfigMap data u = Ok u' \<Longrightarrow> \<forall>(k, v)\<in>set data. path_sep [''data'', k] q \<Longrightarrow>
     NestedFieldNoCopy u' q = NestedFieldNoCopy u q"
proof (induction data u rule: updateConfigMap.induct)
  case (2 k v data u)
  show ?case
  proof (cases "NestedFieldNoCopy u [''data'', k] = Ok (Some (GString v))")
    case True
    with 2 show ?thesis by simp
  next
    case False
    with 2(3) obtain x u1 where x: "NestedFieldNoCopy u [''data'', k] = Ok x" "x \<noteq> Some (GString v)"
      and u1: "SetNestedField u (GString v) [''data'', k] = Ok u1" "updateConfigMap data u1 = Ok u'"
      by (auto simp: go_outcome simp del: SetNestedField.simps split: if_splits)
    have "path_sep [''data'', k] q" using 2(4) by simp
    from fields.read_update_sep [OF u1(1) this] 2(2) [OF x(2) u1(2)] 2(4) show ?thesis by simp
  qed
qed simp

lemma updateConfigMap_sets:
  "updateConfigMap data u = Ok u' \<Longrightarrow> distinct (map fst data) \<Longrightarrow> (k, v) \<in> set data \<Longrightarrow>
     NestedFieldNoCopy u' [''data'', k] = Ok (Some (GString v))"
proof (induction data u rule: updateConfigMap.induct)
  case (2 a b data u)
  obtain u1 where u1: "updateConfigMap data u1 = Ok u'" "NestedFieldNoCopy u1 [''data'', a] = Ok (Some (GString b))"
    and ih: "(k, v) \<in> set data \<Longrightarrow> NestedFieldNoCopy u' [''data'', k] = Ok (Some (GString v))"
  proof (cases "NestedFieldNoCopy u [''data'', a] = Ok (Some (GString b))")
    case True
    with 2 that [of u] show ?thesis by simp
  next
    case False
    with 2(3) obtain x u1 where x: "NestedFieldNoCopy u [''data'', a] = Ok x" "x \<noteq> Some (GString b)"
      and u1: "SetNestedField u (GString b) [''data'', a] = Ok u1" "updateConfigMap data u1 = Ok u'"
      by (auto simp: go_outcome simp del: SetNestedField.simps split: if_splits)
    from that [OF u1(2) fields.read_update [OF u1(1)]] 2(2) [OF x(2) u1(2)] 2(4) show ?thesis by simp
  qed
  have "\<forall>(k', v')\<in>set data. path_sep [''data'', k'] [''data'', a]"
    using 2(4) by (auto simp: rev_image_eqI)
  then have "NestedFieldNoCopy u' [''data'', a] = Ok (Some (GString b))"
    using updateConfigMap_frame [OF u1(1)] u1(2) by simp
  with ih 2(5) show ?case by auto
qed simp

text \<open>
  A configuration override for a ConfigMap, under its name or under its name without
  the first seven characters, sets exactly the given keys: after a successful override each holds
  the given string, whatever the order of the override map, and everything else of the resource,
  the other keys and the identity included, is as before.
\<close>

theorem ConfigMapOverride_effect:
  assumes "GetKind u = ''ConfigMap''" and "ConfigMapOverride config u = Ok u'"
    and "map_of config (GetName u) = Some data \<or>
         map_of config (GetName u) = None \<and> map_of config (drop 7 (GetName u)) = Some data"
    and "distinct (map fst data)"
  shows "(\<forall>(k, v)\<in>set data. NestedFieldNoCopy u' [''data'', k] = Ok (Some (GString v))) \<and>
    (\<forall>q. (\<forall>k\<in>set (map fst data). path_sep [''data'', k] q) \<longrightarrow> NestedFieldNoCopy u' q = NestedFieldNoCopy u q) \<and>
    res_key u' = res_key u"
proof -
  have up: "updateConfigMap data u = Ok u'"
    using assms(1-3) by (auto simp: ConfigMapOverride_def split: option.splits if_splits)
  have "NestedFieldNoCopy u' q = NestedFieldNoCopy u q"
    if "\<forall>k\<in>set (map fst data). path_sep [''data'', k] q" for q
    using updateConfigMap_frame [OF up, of q] that by fastforce
  with updateConfigMap_sets [OF up assms(4)] updateConfigMap_identity [OF up] show ?thesis by auto
qed

theorem ConfigMapOverride_effect_witness:
  "\<exists>u'. ConfigMapOverride [(''features'', [(''a'', ''1''), (''b'', ''2'')])]
      (sample_configmap ''config-features'' [(''data'', GMap [(''a'', GString ''0'')])]) = Ok u' \<and>
    NestedFieldNoCopy u' [''data'', ''a''] = Ok (Some (GString ''1''))"
proof -
  let ?u = "sample_configmap ''config-features'' [(''data'', GMap [(''a'', GString ''0'')])]"
  let ?c = "[(''features'', [(''a'', ''1''), (''b'', ''2'')])]"
  have k: "GetKind ?u = ''ConfigMap''" and n: "GetName ?u = ''config-features''"
    and o: "is_ok (ConfigMapOverride ?c ?u)" by code_simp+
  from o obtain u' where u': "ConfigMapOverride ?c ?u = Ok u'" by (auto simp: is_ok_def split: res.splits)
  from ConfigMapOverride_effect [OF k u', of "[(''a'', ''1''), (''b'', ''2'')]"] n u'
  show ?thesis by auto
qed

text \<open>
  A ConfigMap whose name has fewer than seven characters makes the override panic
  with a slice out of range whenever its full name is not overridden, even for an empty override
  map: the code cuts the prefix \<open>config-\<close> off without testing for it.
\<close>

theorem ConfigMapOverride_short_name_panics:
  assumes "GetKind u = ''ConfigMap''" and "length (GetName u) < length ''config-''" and "map_of config (GetName u) = None"
  shows "ConfigMapOverride config u = Panic ''slice bounds out of range''"
  using assms by (simp add: ConfigMapOverride_def)

theorem ConfigMapOverride_short_name_panics_witness:
  "ConfigMapOverride [] (sample_configmap ''kafka'' []) = Panic ''slice bounds out of range''"
proof -
  have "GetKind (sample_configmap ''kafka'' []) = ''ConfigMap''" "GetName (sample_configmap ''kafka'' []) = ''kafka''"
    by code_simp+
  then show ?thesis using ConfigMapOverride_short_name_panics [of "sample_configmap ''kafka'' []" "[]"] by simp
qed


section \<open>Scaling and ownership\<close>

text \<open>
  \<open>Scale\<close> for a scalable kind sets the replica count of exactly the addressed
  resource and returns every other resource unchanged; it fails only if the resource is
  addressed and its \<open>spec\<close> is no object, and asking for a kind that cannot be scaled is an
  error as soon as a scalable resource passes by.
\<close>

theorem Scale_effect:
  assumes "g \<in> set scalableKinds"
  shows "(GroupVersionKind u = g \<and> GetNamespace u = namespace \<and> GetName u = name \<longrightarrow>
      Scale g name namespace replicas u = SetNestedField u (GInt replicas) [''spec'', ''replicas''] \<and>
      (\<forall>u'. Scale g name namespace replicas u = Ok u' \<longrightarrow>
         NestedInt64 u' [''spec'', ''replicas''] = Ok (Some replicas) \<and> res_key u' = res_key u)) \<and>
    (\<not> (GroupVersionKind u = g \<and> GetNamespace u = namespace \<and> GetName u = name) \<longrightarrow>
      Scale g name namespace replicas u = Ok u)"
proof -
  have eq: "Group (GroupVersionKind u) = Group g \<and> Version (GroupVersionKind u) = Version g \<and>
      Kind (GroupVersionKind u) = Kind g \<longleftrightarrow> GroupVersionKind u = g"
    by (metis (full_types) gvk.equality old.unit.exhaust)
  have "NestedInt64 u' [''spec'', ''replicas''] = Ok (Some replicas) \<and> res_key u' = res_key u"
    if "SetNestedField u (GInt replicas) [''spec'', ''replicas''] = Ok u'" for u'
    using fields.read_update [OF that] SetNestedField_res_key [OF that spec_path_identity]
    by (simp add: NestedInt64_Some)
  then show ?thesis
    using assms eq by (auto simp: Scale_def simp del: SetNestedField.simps)
qed

theorem Scale_effect_witness:
  "\<exists>u'. Scale \<lparr>Group = ''apps'', Version = ''v1'', Kind = ''Deployment''\<rparr> ''imc-controller'' ''knative-eventing'' 0
      [(''apiVersion'', GString ''apps/v1''), (''kind'', GString ''Deployment''),
       (''metadata'', GMap [(''name'', GString ''imc-controller''), (''namespace'', GString ''knative-eventing'')]),
       (''spec'', GMap [(''replicas'', GInt 1)])] = Ok u' \<and>
    NestedInt64 u' [''spec'', ''replicas''] = Ok (Some 0)"
proof -
  let ?g = "\<lparr>Group = ''apps'', Version = ''v1'', Kind = ''Deployment''\<rparr>"
  let ?u = "[(''apiVersion'', GString ''apps/v1''), (''kind'', GString ''Deployment''),
       (''metadata'', GMap [(''name'', GString ''imc-controller''), (''namespace'', GString ''knative-eventing'')]),
       (''spec'', GMap [(''replicas'', GInt 1)])]"
  have g: "?g \<in> set scalableKinds" by (simp add: scalableKinds_def)
  have "GroupVersionKind ?u = ?g" "GetNamespace ?u = ''knative-eventing''" "GetName ?u = ''imc-controller''"
    "is_ok (SetNestedField ?u (GInt 0) [''spec'', ''replicas''])" by code_simp+
  with Scale_effect [OF g, of ?u "''knative-eventing''" "''imc-controller''" 0] show ?thesis
    by (cases "SetNestedField ?u (GInt 0) [''spec'', ''replicas'']") simp_all
qed

text \<open>
  After \<open>InjectOwner\<close> every resource except a Namespace has exactly one owner
  reference, the controller reference to the owner, and its identity is kept; a Namespace is left
  alone, so deleting the owner never deletes the namespace.
\<close>

theorem InjectOwner_effect:
  assumes "case map_of u ''metadata'' of None \<Rightarrow> True | Some v \<Rightarrow> \<exists>m. v = GMap m"
  shows "\<exists>u'. InjectOwner ow u = Ok u' \<and> res_key u' = res_key u \<and>
    (if GetKind u = ''Namespace'' then u' = u
     else NestedFieldNoCopy u' [''metadata'', ''ownerReferences''] =
       Ok (Some (GSlice [owner_reference_to_unstructured (NewControllerRef ow)])))"
proof (cases "GetKind u = ''Namespace''")
  case False
  let ?refs = "GSlice [owner_reference_to_unstructured (NewControllerRef ow)]"
  obtain u' where u': "SetNestedField u ?refs [''metadata'', ''ownerReferences''] = Ok u'"
    using assms by (auto split: option.splits)
  then have "SetOwnerReferences u [NewControllerRef ow] = u'"
    by (simp add: SetOwnerReferences_def setNestedField_def del: SetNestedField.simps)
  with False fields.read_update [OF u'] SetOwnerReferences_res_key [of u "[NewControllerRef ow]"] show ?thesis
    by (auto simp: InjectOwner_def mf_InjectOwner_def)
qed (simp add: InjectOwner_def)

theorem InjectOwner_effect_witness:
  "\<exists>u'. InjectOwner \<lparr>owner_gvk = GetGroupVersionKind, owner_name = ''mesh'', owner_uid = ''u-1''\<rparr> sample_hpa = Ok u' \<and>
     NestedFieldNoCopy u' [''metadata'', ''ownerReferences''] = Ok (Some (GSlice [GMap
       [(''apiVersion'', GString ''operator.knative.dev/v1alpha1''), (''kind'', GString ''EventMesh''),
        (''name'', GString ''mesh''), (''uid'', GString ''u-1''), (''controller'', GBool True),
        (''blockOwnerDeletion'', GBool True)]]))"
proof -
  let ?o = "\<lparr>owner_gvk = GetGroupVersionKind, owner_name = ''mesh'', owner_uid = ''u-1''\<rparr>"
  have "case map_of sample_hpa ''metadata'' of None \<Rightarrow> True | Some v \<Rightarrow> \<exists>m. v = GMap m"
    by (simp add: sample_hpa_def)
  moreover have "GetKind sample_hpa = ''HorizontalPodAutoscaler''" by code_simp
  moreover have "owner_reference_to_unstructured (NewControllerRef ?o) = GMap
       [(''apiVersion'', GString ''operator.knative.dev/v1alpha1''), (''kind'', GString ''EventMesh''),
        (''name'', GString ''mesh''), (''uid'', GString ''u-1''), (''controller'', GBool True),
        (''blockOwnerDeletion'', GBool True)]" by code_simp
  ultimately show ?thesis using InjectOwner_effect [of sample_hpa ?o] by auto
qed

section \<open>Broker and channel defaults\<close>

text \<open>
  For the admitted broker classes the rendered default names the chosen class (Kafka
  when none is chosen) and registers the other one as alternative, each with the ConfigMap of its
  own; the channel-based class uses the in-memory channel template only when that channel is the
  default. The write goes to \<open>default-br-config\<close> and touches nothing else.
\<close>

theorem DefaultBrokerClass_effect:
  assumes "brokerClass \<in> set ('''' # BrokerClasses)" and "convertible env u" and "GetKind u = ''ConfigMap''"
    and "GetNamespace u = env_namespace env" and "GetName u = ''config-br-defaults''" and "data_of u = Ok (Some d)"
  shows "\<exists>u' c a. DefaultBrokerClass env brokerClass channel u = Ok u' \<and>
    c = (if brokerClass = '''' then BrokerClassKafka else brokerClass) \<and> {c, a} = set BrokerClasses \<and> a \<noteq> c \<and>
    a = alternative_class c \<and>
    (BrokerClassMTChannelBased \<in> {c, a} \<and> configMapForBrokerClass BrokerClassKafka channel = ''kafka-broker-config'') \<and>
    data_of u' = Ok (Some (AList.update ''default-br-config'' (broker_defaults (env_namespace env) c channel) d)) \<and>
    res_key u' = res_key u"
proof -
  let ?c = "if brokerClass = '''' then BrokerClassKafka else brokerClass"
  have "{?c, alternative_class ?c} = set BrokerClasses" "alternative_class ?c \<noteq> ?c"
    "BrokerClassMTChannelBased \<in> {?c, alternative_class ?c}"
    using assms(1) by (auto simp: BrokerClasses_def alternative_class_def BrokerClassKafka_def BrokerClassMTChannelBased_def)
  moreover have "configMapForBrokerClass BrokerClassKafka channel = ''kafka-broker-config''"
    by (simp add: configMapForBrokerClass_def BrokerClassKafka_def BrokerClassMTChannelBased_def)
  moreover obtain u' where "with_configmap env (put_data ''default-br-config''
      (broker_defaults (env_namespace env) ?c channel)) u = Ok u'"
    "data_of u' = Ok (Some (AList.update ''default-br-config'' (broker_defaults (env_namespace env) ?c channel) d))"
    "res_key u' = res_key u"
    using put_data_effect [OF assms(2,6)] by blast
  ultimately show ?thesis
    using assms(3-5) by (intro exI [of _ u'] exI [of _ ?c] exI [of _ "alternative_class ?c"])
      (simp add: DefaultBrokerClass_def)
qed

definition sample_br_defaults :: gobj where
  "sample_br_defaults = sample_configmap ''config-br-defaults'' [(''data'', GMap [(''default-br-config'', GString ''x'')])]"

theorem DefaultBrokerClass_effect_witness:
  "\<exists>u'. DefaultBrokerClass sample_env '''' ''InMemoryChannel'' sample_br_defaults = Ok u' \<and>
     data_of u' = Ok (Some [(''default-br-config'', broker_defaults ''knative-eventing'' ''Kafka'' ''InMemoryChannel'')])"
proof -
  have a: "'''' \<in> set ('''' # BrokerClasses)" "convertible sample_env sample_br_defaults"
    "GetKind sample_br_defaults = ''ConfigMap''" "GetNamespace sample_br_defaults = env_namespace sample_env"
    "GetName sample_br_defaults = ''config-br-defaults''"
    "data_of sample_br_defaults = Ok (Some [(''default-br-config'', ''x'')])" by code_simp+
  have ns: "env_namespace sample_env = ''knative-eventing''" by (simp add: sample_env_def)
  from DefaultBrokerClass_effect [OF a, of "''InMemoryChannel''"] show ?thesis
    by (auto simp: BrokerClassKafka_def ns)
qed


section \<open>Conversions are type-safe\<close>

text \<open>
  Claim C34. A manifest object that converts to a typed Kubernetes object (a ConfigMap, Deployment, StatefulSet or
  Job) gives a value of that type: every field has the type the struct declares, absent ones their
  zero value. Converting it back gives an object that converts again, so no transformer leaves an
  object behind that the next one cannot read.
\<close>

theorem conversion_type_safe:
  assumes "Convert_from env g (TStruct fs) u = Ok v" "env_stable env" "wf_type (TStruct fs)" "object_fields fs"
    and "printable_gvk g" "Kind g \<noteq> ''''" "Version g \<noteq> ''''"
  shows "has_type env (TStruct fs) v \<and> (\<forall>u'. Convert_to g v = Ok u' \<longrightarrow> is_ok (Convert_from env g (TStruct fs) u'))"
  using Convert_from_has_type [OF assms(1-4)] Convert_to_reconverts [OF _ _ assms(3-7)] by blast

theorem conversion_type_safe_witness:
  "\<exists>v. Convert_from sample_env ConfigMap_gvk ConfigMap_type sample_broker_config = Ok v \<and> has_type sample_env ConfigMap_type v"
proof -
  obtain v where v: "Convert_from sample_env ConfigMap_gvk (TStruct ConfigMap_fields) sample_broker_config = Ok v"
    using sample_broker_config_facts(1) by (auto simp: convertible_def ConfigMap_type_def is_ok_def split: res.splits)
  have "Version ConfigMap_gvk \<noteq> ''''" by (simp add: ConfigMap_gvk_def)
  from conversion_type_safe [OF v sample_env_stable ConfigMap_wf_type ConfigMap_object_fields ConfigMap_gvk_ok this] v
  show ?thesis by (auto simp: ConfigMap_type_def)
qed

end
