(* ===== verification/Logging_Transformers.thy ===== *)
theory Logging_Transformers
  imports Config_Transformers
begin

text \<open>
  The logging transformers (\<^verbatim>\<open>pkg/manifests/transform/logging.go\<close>): levels in the core's
  \<^verbatim>\<open>config-logging\<close> and in the logback XML of the Kafka components. The regular expressions of
  the source are run by a greedy backtracking matcher, which is the leftmost-first semantics of
  Go's \<^verbatim>\<open>regexp\<close>; \<^verbatim>\<open>encoding/json\<close> is a parameter.
\<close>

section \<open>Regular expressions\<close>

text \<open>The constructs the two patterns use: literals, and greedy repetitions of a class.\<close>

datatype rx_class = Space | NotChar char

datatype rx_item = Lit string | Many rx_class | Many1 rx_class

definition in_class :: "rx_class \<Rightarrow> char \<Rightarrow> bool" where
  "in_class c x = (case c of
       Space \<Rightarrow> List.member [CHR 0x09, CHR 0x0A, CHR 0x0C, CHR 0x0D, CHR 0x20] x
     | NotChar y \<Rightarrow> x \<noteq> y)"

text \<open>The preferred match at the start of a string: the text of each item, and the rest.\<close>

definition cons_piece :: "string \<Rightarrow> (string list \<times> string) option \<Rightarrow> (string list \<times> string) option" where
  "cons_piece p r = map_option (\<lambda>(ps, t). (p # ps, t)) r"

definition grow_piece :: "char \<Rightarrow> (string list \<times> string) option \<Rightarrow> (string list \<times> string) option" where
  "grow_piece x r = map_option (\<lambda>(ps, t). ((x # hd ps) # tl ps, t)) r"

function (sequential) rx_match :: "rx_item list \<Rightarrow> string \<Rightarrow> (string list \<times> string) option" where
  "rx_match [] s = Some ([], s)"
| "rx_match (Lit l # r) s = (if HasPrefix s l then cons_piece l (rx_match r (drop (length l) s)) else None)"
| "rx_match (Many c # r) [] = cons_piece '''' (rx_match r [])"
| "rx_match (Many c # r) (x # s) =
     (if in_class c x then
        (case rx_match (Many c # r) s of
           Some m \<Rightarrow> grow_piece x (Some m)
         | None \<Rightarrow> cons_piece '''' (rx_match r (x # s)))
      else cons_piece '''' (rx_match r (x # s)))"
| "rx_match (Many1 c # r) [] = None"
| "rx_match (Many1 c # r) (x # s) =
     (if in_class c x then grow_piece x (rx_match (Many c # r) s) else None)"
  by pat_completeness auto
termination
  by (relation "measures [\<lambda>(r, s). length r, \<lambda>(r, s). length s]") auto

text \<open>\<^verbatim>\<open>(<TAG\s+[^>]*level=")[^"]+("(?:[^>]*>))\<close>\<close>

definition level_pattern :: "string \<Rightarrow> rx_item list" where
  "level_pattern tag = [Lit (CHR ''<'' # tag), Many1 Space, Many (NotChar (CHR ''>'')), Lit (''level='' @ [CHR 34]),
     Many1 (NotChar (CHR 34)), Lit [CHR 34], Many (NotChar (CHR ''>'')), Lit ''>'']"

lemma rx_match_nonempty: "rx_match (i # r) s = Some (ps, t) \<Longrightarrow> ps \<noteq> []"
proof (induction "i # r" s arbitrary: i r ps t rule: rx_match.induct)
  case (4 c r x s)
  then show ?case by (auto simp: cons_piece_def grow_piece_def split: if_splits option.splits)
qed (auto simp: cons_piece_def grow_piece_def split: if_splits)

text \<open>A match is a factorisation of the text.\<close>

lemma rx_match_concat: "rx_match r s = Some (ps, t) \<Longrightarrow> concat ps @ t = s"
proof (induction r s arbitrary: ps t rule: rx_match.induct)
  case (2 l r s)
  then show ?case by (auto simp: cons_piece_def HasPrefix_iff split: if_splits)
next
  case (4 c r x s)
  show ?case
  proof (cases "in_class c x")
    case True
    show ?thesis
    proof (cases "rx_match (Many c # r) s")
      case None
      with 4 True show ?thesis by (auto simp: cons_piece_def)
    next
      case (Some m)
      obtain qs u where m: "m = (qs, u)" by (cases m)
      from 4(1) [OF True] Some m have "concat qs @ u = s" by simp
      moreover have "qs \<noteq> []" using rx_match_nonempty Some m by blast
      ultimately show ?thesis
        using 4(4) True Some m by (cases qs) (auto simp: grow_piece_def)
    qed
  next
    case False
    with 4 show ?thesis by (auto simp: cons_piece_def)
  qed
next
  case (6 c r x s)
  then obtain qs u where q: "in_class c x" "rx_match (Many c # r) s = Some (qs, u)" "ps = (x # hd qs) # tl qs" "t = u"
    by (auto simp: grow_piece_def split: if_splits)
  moreover have "qs \<noteq> []" using rx_match_nonempty q(2) by blast
  ultimately show ?case using 6(1) [OF q(1,2)] by (cases qs) auto
qed (auto simp: cons_piece_def)

lemma level_match_shorter: "rx_match (level_pattern tag) s = Some (ps, t) \<Longrightarrow> length t < length s"
proof -
  assume m: "rx_match (level_pattern tag) s = Some (ps, t)"
  then obtain qs where "ps = (CHR ''<'' # tag) # qs"
    by (auto simp: level_pattern_def cons_piece_def split: if_splits)
  with rx_match_concat [OF m] show ?thesis by auto
qed

text \<open>
  The successive leftmost matches of \<^verbatim>\<open>ReplaceAllString\<close>: single characters outside a match, and
  the pieces of each match.
\<close>

function level_segments :: "string \<Rightarrow> string \<Rightarrow> (char + string list) list" where
  "level_segments tag s = (case rx_match (level_pattern tag) s of
       Some (ps, t) \<Rightarrow> Inr ps # level_segments tag t
     | None \<Rightarrow> (case s of [] \<Rightarrow> [] | c # s' \<Rightarrow> Inl c # level_segments tag s'))"
  by pat_completeness auto
termination
  by (relation "measure (\<lambda>(tag, s). length s)") (auto dest: level_match_shorter)

declare level_segments.simps [simp del]

text \<open>
  The replacement template is \<^verbatim>\<open>"${1}" + level + "${2}"\<close>: group 1 are the first four pieces, group
  2 the last three. With a dollar sign in the level the template has further references; its expansion
  is then the parameter \<open>env_expand\<close> of the template and the groups.
\<close>

definition expand_level :: "goenv \<Rightarrow> string \<Rightarrow> string list \<Rightarrow> string" where
  "expand_level env level ps =
     (if List.member level (CHR ''$'')
      then env_expand env (''${1}'' @ level @ ''${2}'') [concat (take 4 ps), concat (drop 5 ps)]
      else concat (take 4 ps) @ level @ concat (drop 5 ps))"

definition ReplaceAllLevels :: "goenv \<Rightarrow> string \<Rightarrow> string \<Rightarrow> string \<Rightarrow> string" where
  "ReplaceAllLevels env tag level s =
     concat (map (\<lambda>g. case g of Inl c \<Rightarrow> [c] | Inr ps \<Rightarrow> expand_level env level ps) (level_segments tag s))"

section \<open>Kafka logging\<close>

text \<open>The edit of \<^verbatim>\<open>cm.Data\<close>; reading a nil map finds nothing.\<close>

definition updateKafkaLoggingConfig :: "goenv \<Rightarrow> string \<Rightarrow> string gomap option \<Rightarrow> string gomap option res" where
  "updateKafkaLoggingConfig env logLevel data =
     (case map_of (case data of None \<Rightarrow> [] | Some m \<Rightarrow> m) ''config.xml'' of
        None \<Rightarrow> Err (ErrMsg ''config.xml not found in kafka-config-logging configmap'')
      | Some configXML \<Rightarrow>
          (let logbackLevel = ToUpper (env_upper env) logLevel;
               updatedXML = ReplaceAllLevels env ''root'' logbackLevel configXML;
               updatedXML' = ReplaceAllLevels env ''logger'' logbackLevel updatedXML
           in if updatedXML' = configXML
              then Err (ErrMsg ''no logger or root level elements found in XML configuration'')
              else put_data ''config.xml'' updatedXML' data))"

definition KafkaLogging :: "goenv \<Rightarrow> string \<Rightarrow> transformer" where
  "KafkaLogging env logLevel u =
     (if GetKind u \<noteq> ''ConfigMap'' then Ok u
      else if GetNamespace u \<noteq> env_namespace env \<or> GetName u \<noteq> ''kafka-config-logging'' then Ok u
      else with_configmap env (\<lambda>d. wrap_err ''error updating kafka logging config''
             (updateKafkaLoggingConfig env logLevel d)) u)"

section \<open>Core logging\<close>

definition convertToZapLogLevel :: "goenv \<Rightarrow> string \<Rightarrow> string res" where
  "convertToZapLogLevel env logLevel =
     (let l = ToLower (env_lower env) logLevel in
      if l = ''trace'' \<or> l = ''debug'' then Ok ''debug''
      else if l = ''info'' then Ok ''info''
      else if l = ''warn'' then Ok ''warn''
      else if l = ''error'' then Ok ''error''
      else if l = ''fatal'' then Ok ''fatal''
      else Err (ErrMsg (''unknown log level '' @ logLevel)))"

definition default_zap_config :: "string \<Rightarrow> gval" where
  "default_zap_config level = GMap [(''level'', GString level), (''development'', GBool False),
     (''outputPaths'', GSlice [GString ''stdout'']), (''errorOutputPaths'', GSlice [GString ''stderr'']),
     (''encoding'', GString ''json'')]"

text \<open>
  \<^verbatim>\<open>json.Unmarshal\<close> into a \<^verbatim>\<open>map[string]interface{}\<close>: an object gives the map, \<^verbatim>\<open>null\<close> leaves it nil,
  anything else is an error.
\<close>

definition updateZapConfigLevel :: "goenv \<Rightarrow> string \<Rightarrow> string gomap option \<Rightarrow> string gomap option res" where
  "updateZapConfigLevel env level data =
     (case map_of (case data of None \<Rightarrow> [] | Some m \<Rightarrow> m) ''zap-logger-config'' of
        None \<Rightarrow> bind_res (env_json_marshal env (default_zap_config level))
                  (\<lambda>bytes. put_data ''zap-logger-config'' bytes data)
      | Some zapConfigJSON \<Rightarrow>
          bind_res (env_json_unmarshal env zapConfigJSON) (\<lambda>v. case v of
              GMap config \<Rightarrow> bind_res (env_json_marshal env (GMap (AList.update ''level'' (GString level) config)))
                  (\<lambda>bytes. put_data ''zap-logger-config'' bytes data)
            | GNil \<Rightarrow> Panic ''assignment to entry in nil map''
            | _ \<Rightarrow> Err (ErrMsg ''json: cannot unmarshal into Go value of type map[string]interface {}'')))"

definition set_component_levels :: "string \<Rightarrow> string gomap option \<Rightarrow> string gomap option" where
  "set_component_levels level d =
     map_option (map (\<lambda>(k, v). (k, if HasPrefix k ''loglevel.'' then level else v))) d"

definition EventingCoreLogging :: "goenv \<Rightarrow> string \<Rightarrow> transformer" where
  "EventingCoreLogging env logLevel u =
     (if GetKind u \<noteq> ''ConfigMap'' then Ok u
      else if GetNamespace u \<noteq> env_namespace env \<or> GetName u \<noteq> ''config-logging'' then Ok u
      else with_configmap env (\<lambda>d.
             bind_res (wrap_err ''error parsing target log level'' (convertToZapLogLevel env logLevel)) (\<lambda>newLoggingLevel.
             wrap_err ''error updating zap logging config''
               (updateZapConfigLevel env newLoggingLevel (set_component_levels newLoggingLevel d)))) u)"


section \<open>What the level edits do\<close>

text \<open>The text of a segment; the segments of a text spell it.\<close>

definition segment_text :: "char + string list \<Rightarrow> string" where
  "segment_text g = (case g of Inl c \<Rightarrow> [c] | Inr ps \<Rightarrow> concat ps)"

lemma segment_text_simps [simp]: "segment_text (Inl c) = [c]" "segment_text (Inr ps) = concat ps"
  by (simp_all add: segment_text_def)

lemma level_segments_text: "concat (map segment_text (level_segments tag s)) = s"
proof (induction tag s rule: level_segments.induct)
  case (1 tag s)
  show ?case
  proof (cases "rx_match (level_pattern tag) s")
    case None
    show ?thesis
    proof (cases s)
      case Nil
      with None show ?thesis by (subst level_segments.simps) simp
    next
      case (Cons c s')
      with 1(1) [OF None Cons] None show ?thesis
        by (subst level_segments.simps) simp
    qed
  next
    case (Some m)
    obtain ps t where m: "m = (ps, t)" by (cases m)
    have "concat (map segment_text (level_segments tag t)) = t" using 1(2) [OF Some m [symmetric]] .
    with Some m rx_match_concat [of "level_pattern tag" s ps t] show ?thesis
      by (subst level_segments.simps) simp
  qed
qed

lemma level_segments_pieces: "Inr ps \<in> set (level_segments tag s) \<Longrightarrow> \<exists>u t. rx_match (level_pattern tag) u = Some (ps, t)"
proof (induction tag s rule: level_segments.induct)
  case (1 tag s)
  show ?case
  proof (cases "rx_match (level_pattern tag) s")
    case None
    with 1(3) obtain c s' where s: "s = c # s'" "Inr ps \<in> set (level_segments tag s')"
      by (subst (asm) level_segments.simps) (auto split: list.splits)
    from 1(1) [OF None s(1,2)] show ?thesis .
  next
    case (Some m)
    with 1(3) obtain qs t where m: "m = (qs, t)" "ps = qs \<or> Inr ps \<in> set (level_segments tag t)"
      by (subst (asm) level_segments.simps) (auto split: prod.splits)
    with Some 1(2) [OF Some m(1) [symmetric]] show ?thesis by auto
  qed
qed

lemma cons_piece_Some [simp]: "cons_piece p r = Some (ps, t) \<longleftrightarrow> (\<exists>qs. r = Some (qs, t) \<and> ps = p # qs)"
  by (cases r) (auto simp: cons_piece_def)

lemma rx_match_length: "rx_match r s = Some (ps, t) \<Longrightarrow> length ps = length r"
proof (induction r s arbitrary: ps t rule: rx_match.induct)
  case (4 c r x s)
  then show ?case by (auto simp: grow_piece_def split: if_splits option.splits)
next
  case (6 c r x s)
  then show ?case by (auto simp: grow_piece_def split: if_splits)
qed (auto split: if_splits)

text \<open>The levels a text has on the elements of a tag.\<close>

definition levels_in :: "string \<Rightarrow> string \<Rightarrow> string list" where
  "levels_in tag s = concat (map (\<lambda>g. case g of Inl c \<Rightarrow> [] | Inr ps \<Rightarrow> [ps ! 4]) (level_segments tag s))"

lemma expand_level_same:
  assumes "length ps = 8" and "ps ! 4 = level" and "CHR ''$'' \<notin> set level"
  shows "expand_level env level ps = concat ps"
proof -
  have "ps = take 4 ps @ ps ! 4 # drop 5 ps"
    using assms(1) id_take_nth_drop [of 4 ps] by simp
  then have "concat ps = concat (take 4 ps) @ ps ! 4 @ concat (drop 5 ps)"
    by (metis concat.simps(2) concat_append)
  with assms(2,3) show ?thesis by (simp add: expand_level_def)
qed

lemma ReplaceAllLevels_same:
  assumes "\<forall>l\<in>set (levels_in tag s). l = level" and "CHR ''$'' \<notin> set level"
  shows "ReplaceAllLevels env tag level s = s"
proof -
  have "(case g of Inl c \<Rightarrow> [c] | Inr ps \<Rightarrow> expand_level env level ps) = segment_text g"
    if g: "g \<in> set (level_segments tag s)" for g
  proof (cases g)
    case (Inr ps)
    have "length ps = 8"
      using level_segments_pieces [of ps tag s] g Inr rx_match_length by (fastforce simp: level_pattern_def)
    moreover have "ps ! 4 = level" using assms(1) g Inr by (force simp: levels_in_def)
    ultimately show ?thesis using expand_level_same assms(2) Inr by (simp add: segment_text_def)
  qed (simp add: segment_text_def)
  then have "ReplaceAllLevels env tag level s = concat (map segment_text (level_segments tag s))"
    unfolding ReplaceAllLevels_def by (metis (no_types, lifting) map_cong)
  then show ?thesis by (simp add: level_segments_text)
qed


lemma data_lookup [simp]: "map_of (case Some m of None \<Rightarrow> [] | Some m \<Rightarrow> m) = map_of m"
  by simp

text \<open>
  Claim C40. Setting the level a Kafka logging configuration already has is reported as an
  error: if every root and logger element of the XML carries the upper-cased level, the update
  answers that no such elements were found. The message suggests that only their absence is meant.
\<close>

theorem kafka_logging_same_level_fails:
  assumes "map_of m ''config.xml'' = Some xml" and "CHR ''$'' \<notin> set (ToUpper (env_upper env) level)"
    and "\<forall>l\<in>set (levels_in ''root'' xml @ levels_in ''logger'' xml). l = ToUpper (env_upper env) level"
  shows "updateKafkaLoggingConfig env level (Some m) =
    Err (ErrMsg ''no logger or root level elements found in XML configuration'')"
  using assms ReplaceAllLevels_same [of "''root''" xml "ToUpper (env_upper env) level" env]
    ReplaceAllLevels_same [of "''logger''" xml "ToUpper (env_upper env) level" env]
  by (simp add: updateKafkaLoggingConfig_def Let_def)

text \<open>
  The \<^verbatim>\<open>config.xml\<close> that the operator ships
  (\<^verbatim>\<open>cmd/operator/kodata/eventing-kafka-broker-latest/eventing-kafka-controller.yaml\<close>).
\<close>

definition shipped_config_xml :: string where
  "shipped_config_xml =
     ''<configuration>'' @ nl @
     ''  <appender name='' @ [CHR 34] @ ''jsonConsoleAppender'' @ [CHR 34] @ '' class='' @ [CHR 34] @ ''ch.qos.logback.core.ConsoleAppender'' @ [CHR 34] @ ''>'' @ nl @
     ''    <encoder class='' @ [CHR 34] @ ''net.logstash.logback.encoder.LogstashEncoder'' @ [CHR 34] @ ''/>'' @ nl @
     ''  </appender>'' @ nl @
     ''  <appender name='' @ [CHR 34] @ ''async'' @ [CHR 34] @ '' class='' @ [CHR 34] @ ''ch.qos.logback.classic.AsyncAppender'' @ [CHR 34] @ ''>'' @ nl @
     ''      <appender-ref ref='' @ [CHR 34] @ ''jsonConsoleAppender'' @ [CHR 34] @ '' />'' @ nl @
     ''      <neverBlock>true</neverBlock>'' @ nl @
     ''      <maxFlushTime>1000</maxFlushTime>'' @ nl @
     ''  </appender>'' @ nl @
     ''  <root level='' @ [CHR 34] @ ''INFO'' @ [CHR 34] @ ''>'' @ nl @
     ''    <appender-ref ref='' @ [CHR 34] @ ''async'' @ [CHR 34] @ ''/>'' @ nl @
     ''  </root>'' @ nl @
     ''</configuration>'' @ nl"


theorem kafka_logging_same_level_fails_witness:
  "updateKafkaLoggingConfig sample_env ''info'' (Some [(''config.xml'', shipped_config_xml)]) =
     Err (ErrMsg ''no logger or root level elements found in XML configuration'')"
proof -
  have u: "ToUpper (env_upper sample_env) ''info'' = ''INFO''" by code_simp
  have "levels_in ''root'' shipped_config_xml = [''INFO'']" "levels_in ''logger'' shipped_config_xml = []"
    by code_simp+
  then show ?thesis
    using kafka_logging_same_level_fails [of "[(''config.xml'', shipped_config_xml)]" shipped_config_xml sample_env "''info''"]
    by (simp add: u)
qed

text \<open>
  Otherwise the addressed ConfigMap's \<open>config.xml\<close> becomes the text in which the level
  attribute of every root and logger element is replaced, and every other key is kept.
\<close>

theorem KafkaLogging_effect:
  assumes "convertible env u" and "GetKind u = ''ConfigMap''" and "GetNamespace u = env_namespace env"
    and "GetName u = ''kafka-config-logging''" and "data_of u = Ok (Some m)" and "map_of m ''config.xml'' = Some xml"
    and "xml' = ReplaceAllLevels env ''logger'' (ToUpper (env_upper env) level)
           (ReplaceAllLevels env ''root'' (ToUpper (env_upper env) level) xml)"
    and "xml' \<noteq> xml"
  shows "\<exists>u'. KafkaLogging env level u = Ok u' \<and> data_of u' = Ok (Some (AList.update ''config.xml'' xml' m)) \<and>
    res_key u' = res_key u"
proof -
  let ?e = "\<lambda>d. wrap_err ''error updating kafka logging config'' (updateKafkaLoggingConfig env level d)"
  have "?e (Some m) = Ok (Some (AList.update ''config.xml'' xml' m))"
    using assms(6-8) by (simp add: updateKafkaLoggingConfig_def Let_def put_data_def)
  from with_configmap_effect [of env u "Some m" ?e, OF assms(1,5) this] assms(2-4) show ?thesis
    by (auto simp: KafkaLogging_def)
qed

definition sample_kafka_logging :: gobj where
  "sample_kafka_logging = sample_configmap ''kafka-config-logging''
     [(''data'', GMap [(''config.xml'', GString (''<root  level='' @ [CHR 34] @ ''INFO'' @ [CHR 34] @ ''>''))])]"

theorem KafkaLogging_effect_witness:
  "\<exists>u'. KafkaLogging sample_env ''debug'' sample_kafka_logging = Ok u' \<and>
     data_of u' = Ok (Some [(''config.xml'', ''<root  level='' @ [CHR 34] @ ''DEBUG'' @ [CHR 34] @ ''>'')])"
proof -
  let ?x = "''<root  level='' @ [CHR 34] @ ''INFO'' @ [CHR 34] @ ''>''"
  let ?y = "''<root  level='' @ [CHR 34] @ ''DEBUG'' @ [CHR 34] @ ''>''"
  have a: "convertible sample_env sample_kafka_logging" "GetKind sample_kafka_logging = ''ConfigMap''"
    "GetNamespace sample_kafka_logging = env_namespace sample_env" "GetName sample_kafka_logging = ''kafka-config-logging''"
    "data_of sample_kafka_logging = Ok (Some [(''config.xml'', ?x)])" by code_simp+
  have m: "map_of [(''config.xml'', ?x)] ''config.xml'' = Some ?x" by simp
  have y: "?y = ReplaceAllLevels sample_env ''logger'' (ToUpper (env_upper sample_env) ''debug'')
      (ReplaceAllLevels sample_env ''root'' (ToUpper (env_upper sample_env) ''debug'') ?x)" by code_simp
  from KafkaLogging_effect [OF a m y] show ?thesis by auto
qed

section \<open>The core's logging configuration\<close>

lemma convertToZapLogLevel_admitted:
  "level \<in> set LogLevels \<Longrightarrow>
     convertToZapLogLevel env level = Ok (if level = ''trace'' then ''debug'' else level)"
  using ToLower_LogLevels [of level "env_lower env"]
  by (auto simp: LogLevels_def convertToZapLogLevel_def Let_def)

lemma map_of_component_levels:
  "map_of (map (\<lambda>(k, v). (k, if HasPrefix k ''loglevel.'' then level else v)) m) k =
     (if HasPrefix k ''loglevel.'' then map_option (\<lambda>_. level) (map_of m k) else map_of m k)"
  by (induction m) auto

text \<open>
  With an admitted log level, and a zap configuration that the JSON library parses as
  an object and prints back, the core's logging ConfigMap gets the level on every
  \<open>loglevel.*\<close> key and in the zap configuration (the level \<open>trace\<close> becomes \<open>debug\<close>, which is the
  lowest zap knows); every other key keeps its value.
\<close>

theorem EventingCoreLogging_effect:
  assumes "level \<in> set LogLevels" and "lv = (if level = ''trace'' then ''debug'' else level)"
    and "convertible env u" and "GetKind u = ''ConfigMap''" and "GetNamespace u = env_namespace env"
    and "GetName u = ''config-logging''" and "data_of u = Ok (Some m)"
    and "map_of m ''zap-logger-config'' = Some json" and "env_json_unmarshal env json = Ok (GMap config)"
    and "env_json_marshal env (GMap (AList.update ''level'' (GString lv) config)) = Ok json'"
  shows "\<exists>u' m'. EventingCoreLogging env level u = Ok u' \<and> data_of u' = Ok (Some m') \<and> res_key u' = res_key u \<and>
    (\<forall>k. map_of m' k = (if k = ''zap-logger-config'' then Some json'
       else if HasPrefix k ''loglevel.'' then map_option (\<lambda>_. lv) (map_of m k) else map_of m k))"
proof -
  let ?m1 = "map (\<lambda>(k, v). (k, if HasPrefix k ''loglevel.'' then lv else v)) m"
  let ?e = "\<lambda>d. bind_res (wrap_err ''error parsing target log level'' (convertToZapLogLevel env level)) (\<lambda>l.
     wrap_err ''error updating zap logging config'' (updateZapConfigLevel env l (set_component_levels l d)))"
  have conv: "convertToZapLogLevel env level = Ok lv"
    using convertToZapLogLevel_admitted [OF assms(1), of env] assms(2) by simp
  have z: "map_of ?m1 ''zap-logger-config'' = Some json"
    using assms(8) by (simp add: map_of_component_levels)
  have "?e (Some m) = Ok (Some (AList.update ''zap-logger-config'' json' ?m1))"
    using conv assms(9,10) z
    by (simp add: updateZapConfigLevel_def set_component_levels_def put_data_def)
  from with_configmap_effect [of env u "Some m" ?e, OF assms(3,7) this] obtain u' where
    u': "with_configmap env ?e u = Ok u'" "data_of u' = Ok (Some (AList.update ''zap-logger-config'' json' ?m1))"
    "res_key u' = res_key u" by auto
  have "map_of (AList.update ''zap-logger-config'' json' ?m1) k = (if k = ''zap-logger-config'' then Some json'
       else if HasPrefix k ''loglevel.'' then map_option (\<lambda>_. lv) (map_of m k) else map_of m k)" for k
    by (simp add: map_of_component_levels)
  moreover have "EventingCoreLogging env level u = Ok u'"
    using u'(1) assms(4-6) by (simp add: EventingCoreLogging_def)
  ultimately show ?thesis using u'(2,3) by blast
qed

definition sample_logging :: gobj where
  "sample_logging = sample_configmap ''config-logging''
     [(''data'', GMap [(''zap-logger-config'', GString ''{}''), (''loglevel.controller'', GString ''info'')])]"

theorem EventingCoreLogging_effect_witness:
  "\<exists>u' m'. EventingCoreLogging sample_env ''trace'' sample_logging = Ok u' \<and> data_of u' = Ok (Some m') \<and>
     map_of m' ''loglevel.controller'' = Some ''debug''"
proof -
  have a: "''trace'' \<in> set LogLevels" by (simp add: LogLevels_def)
  have b: "''debug'' = (if ''trace'' = ''trace'' then ''debug'' else ''trace'')" by simp
  have c: "convertible sample_env sample_logging" "GetKind sample_logging = ''ConfigMap''"
    "GetNamespace sample_logging = env_namespace sample_env" "GetName sample_logging = ''config-logging''"
    "data_of sample_logging = Ok (Some [(''zap-logger-config'', ''{}''), (''loglevel.controller'', ''info'')])"
    by code_simp+
  have d: "map_of [(''zap-logger-config'', ''{}''), (''loglevel.controller'', ''info'')] ''zap-logger-config'' = Some ''{}''"
    "env_json_unmarshal sample_env ''{}'' = Ok (GMap [])"
    "env_json_marshal sample_env (GMap (AList.update ''level'' (GString ''debug'') [])) = Ok ''{}''"
    by (simp_all add: sample_env_def)
  from EventingCoreLogging_effect [OF a b c d] show ?thesis by fastforce
qed

end
