(* ===== verification/Workload_Override.thy ===== *)
theory Workload_Override
  imports Config_Transformers
begin

text \<open>
  \<^verbatim>\<open>pkg/manifests/transform/workload-override.go\<close>: overrides of Deployments, StatefulSets, Jobs and
  of the autoscalers that belong to them. A workload is a typed Go value of the schema below,
  which lists every field of the structs the overrides reach; the pod template is the part
  \<^verbatim>\<open>spec.template\<close> of it, so that the aliasing of \<^verbatim>\<open>obj\<close> and \<^verbatim>\<open>ps\<close> in the source is one value here.
\<close>

section \<open>Schemas\<close>

definition EnvVar_type :: gotype where
  "EnvVar_type = TStruct [(''name'', False, TString), (''value'', True, TString),
     (''valueFrom'', True, TPtr (TNamed ''EnvVarSource''))]"

definition Probe_type :: gotype where
  "Probe_type = TStruct [(''exec'', True, TPtr (TNamed ''ExecAction'')),
     (''httpGet'', True, TPtr (TNamed ''HTTPGetAction'')), (''tcpSocket'', True, TPtr (TNamed ''TCPSocketAction'')),
     (''grpc'', True, TPtr (TNamed ''GRPCAction'')),
     (''initialDelaySeconds'', True, TInt 32), (''timeoutSeconds'', True, TInt 32), (''periodSeconds'', True, TInt 32),
     (''successThreshold'', True, TInt 32), (''failureThreshold'', True, TInt 32),
     (''terminationGracePeriodSeconds'', True, TPtr (TInt 64))]"

definition ResourceList_type :: gotype where
  "ResourceList_type = TMap (TNamed ''Quantity'')"

definition ResourceRequirements_type :: gotype where
  "ResourceRequirements_type = TStruct [(''limits'', True, ResourceList_type), (''requests'', True, ResourceList_type),
     (''claims'', True, TSlice (TNamed ''ResourceClaim''))]"

definition Container_type :: gotype where
  "Container_type = TStruct [(''name'', False, TString), (''image'', True, TString), (''command'', True, TSlice TString),
     (''args'', True, TSlice TString), (''workingDir'', True, TString), (''ports'', True, TSlice (TNamed ''ContainerPort'')),
     (''envFrom'', True, TSlice (TNamed ''EnvFromSource'')), (''env'', True, TSlice EnvVar_type),
     (''resources'', True, ResourceRequirements_type), (''resizePolicy'', True, TSlice (TNamed ''ContainerResizePolicy'')),
     (''restartPolicy'', True, TPtr TString), (''volumeMounts'', True, TSlice (TNamed ''VolumeMount'')),
     (''volumeDevices'', True, TSlice (TNamed ''VolumeDevice'')), (''livenessProbe'', True, TPtr Probe_type),
     (''readinessProbe'', True, TPtr Probe_type), (''startupProbe'', True, TPtr Probe_type),
     (''lifecycle'', True, TPtr (TNamed ''Lifecycle'')), (''terminationMessagePath'', True, TString),
     (''terminationMessagePolicy'', True, TString), (''imagePullPolicy'', True, TString),
     (''securityContext'', True, TPtr (TNamed ''SecurityContext'')), (''stdin'', True, TBool), (''stdinOnce'', True, TBool),
     (''tty'', True, TBool)]"

definition PodSpec_type :: gotype where
  "PodSpec_type = TStruct [(''volumes'', True, TSlice (TNamed ''Volume'')), (''initContainers'', True, TSlice Container_type),
     (''containers'', False, TSlice Container_type), (''ephemeralContainers'', True, TSlice (TNamed ''EphemeralContainer'')),
     (''restartPolicy'', True, TString), (''terminationGracePeriodSeconds'', True, TPtr (TInt 64)),
     (''activeDeadlineSeconds'', True, TPtr (TInt 64)), (''dnsPolicy'', True, TString), (''nodeSelector'', True, TMap TString),
     (''serviceAccountName'', True, TString), (''serviceAccount'', True, TString),
     (''automountServiceAccountToken'', True, TPtr TBool), (''nodeName'', True, TString), (''hostNetwork'', True, TBool),
     (''hostPID'', True, TBool), (''hostIPC'', True, TBool), (''shareProcessNamespace'', True, TPtr TBool),
     (''securityContext'', True, TPtr (TNamed ''PodSecurityContext'')),
     (''imagePullSecrets'', True, TSlice (TNamed ''LocalObjectReference'')), (''hostname'', True, TString),
     (''subdomain'', True, TString), (''affinity'', True, TPtr (TNamed ''Affinity'')), (''schedulerName'', True, TString),
     (''tolerations'', True, TSlice (TNamed ''Toleration'')), (''hostAliases'', True, TSlice (TNamed ''HostAlias'')),
     (''priorityClassName'', True, TString), (''priority'', True, TPtr (TInt 32)),
     (''dnsConfig'', True, TPtr (TNamed ''PodDNSConfig'')), (''readinessGates'', True, TSlice (TNamed ''PodReadinessGate'')),
     (''runtimeClassName'', True, TPtr TString), (''enableServiceLinks'', True, TPtr TBool),
     (''preemptionPolicy'', True, TPtr TString), (''overhead'', True, ResourceList_type),
     (''topologySpreadConstraints'', True, TSlice (TNamed ''TopologySpreadConstraint'')),
     (''setHostnameAsFQDN'', True, TPtr TBool), (''os'', True, TPtr (TNamed ''PodOS'')), (''hostUsers'', True, TPtr TBool),
     (''schedulingGates'', True, TSlice (TNamed ''PodSchedulingGate'')),
     (''resourceClaims'', True, TSlice (TNamed ''PodResourceClaim'')),
     (''resources'', True, TPtr ResourceRequirements_type)]"

definition PodTemplateSpec_type :: gotype where
  "PodTemplateSpec_type = TStruct [(''metadata'', True, ObjectMeta_type), (''spec'', True, PodSpec_type)]"

definition DeploymentSpec_fields :: "(string \<times> bool \<times> gotype) list" where
  "DeploymentSpec_fields = [(''replicas'', True, TPtr (TInt 32)), (''selector'', False, TPtr (TNamed ''LabelSelector'')),
     (''template'', False, PodTemplateSpec_type), (''strategy'', True, TNamed ''DeploymentStrategy''),
     (''minReadySeconds'', True, TInt 32), (''revisionHistoryLimit'', True, TPtr (TInt 32)), (''paused'', True, TBool),
     (''progressDeadlineSeconds'', True, TPtr (TInt 32))]"

definition DeploymentSpec_type :: gotype where
  "DeploymentSpec_type = TStruct DeploymentSpec_fields"

definition StatefulSetSpec_type :: gotype where
  "StatefulSetSpec_type = TStruct [(''replicas'', True, TPtr (TInt 32)), (''selector'', False, TPtr (TNamed ''LabelSelector'')),
     (''template'', False, PodTemplateSpec_type), (''volumeClaimTemplates'', True, TSlice (TNamed ''PersistentVolumeClaim'')),
     (''serviceName'', False, TString), (''podManagementPolicy'', True, TString),
     (''updateStrategy'', True, TNamed ''StatefulSetUpdateStrategy''), (''revisionHistoryLimit'', True, TPtr (TInt 32)),
     (''minReadySeconds'', True, TInt 32),
     (''persistentVolumeClaimRetentionPolicy'', True, TPtr (TNamed ''StatefulSetPersistentVolumeClaimRetentionPolicy'')),
     (''ordinals'', True, TPtr (TNamed ''StatefulSetOrdinals''))]"

definition JobSpec_type :: gotype where
  "JobSpec_type = TStruct [(''parallelism'', True, TPtr (TInt 32)), (''completions'', True, TPtr (TInt 32)),
     (''activeDeadlineSeconds'', True, TPtr (TInt 64)), (''podFailurePolicy'', True, TPtr (TNamed ''PodFailurePolicy'')),
     (''successPolicy'', True, TPtr (TNamed ''SuccessPolicy'')), (''backoffLimit'', True, TPtr (TInt 32)),
     (''backoffLimitPerIndex'', True, TPtr (TInt 32)), (''maxFailedIndexes'', True, TPtr (TInt 32)),
     (''selector'', True, TPtr (TNamed ''LabelSelector'')), (''manualSelector'', True, TPtr TBool),
     (''template'', False, PodTemplateSpec_type), (''ttlSecondsAfterFinished'', True, TPtr (TInt 32)),
     (''completionMode'', True, TPtr TString), (''suspend'', True, TPtr TBool), (''podReplacementPolicy'', True, TPtr TString),
     (''managedBy'', True, TPtr TString)]"

definition workload_fields :: "gotype \<Rightarrow> string \<Rightarrow> (string \<times> bool \<times> gotype) list" where
  "workload_fields spec status = TypeMeta_fields @
     [(''metadata'', True, ObjectMeta_type), (''spec'', True, spec), (''status'', True, TNamed status)]"

definition Deployment_fields :: "(string \<times> bool \<times> gotype) list" where
  "Deployment_fields = workload_fields DeploymentSpec_type ''DeploymentStatus''"

definition StatefulSet_fields :: "(string \<times> bool \<times> gotype) list" where
  "StatefulSet_fields = workload_fields StatefulSetSpec_type ''StatefulSetStatus''"

definition Job_fields :: "(string \<times> bool \<times> gotype) list" where
  "Job_fields = workload_fields JobSpec_type ''JobStatus''"

definition apps_v1 :: "string \<Rightarrow> gvk" where
  "apps_v1 k = \<lparr>Group = ''apps'', Version = ''v1'', Kind = k\<rparr>"

definition batch_v1 :: "string \<Rightarrow> gvk" where
  "batch_v1 k = \<lparr>Group = ''batch'', Version = ''v1'', Kind = k\<rparr>"

section \<open>Editing a typed workload\<close>

definition get_smap :: "goval \<Rightarrow> string \<Rightarrow> string gomap option" where
  "get_smap v n = (case fld v n of VMap d \<Rightarrow> map_option (map (\<lambda>(k, w). (k, str_val w))) d | _ \<Rightarrow> None)"

definition set_smap :: "goval \<Rightarrow> string \<Rightarrow> string gomap option \<Rightarrow> goval" where
  "set_smap v n d = set_fld v n (typed_string_map d)"

definition upd_fld :: "string \<Rightarrow> (goval \<Rightarrow> goval) \<Rightarrow> goval \<Rightarrow> goval" where
  "upd_fld n f v = set_fld v n (f (fld v n))"

text \<open>\<^verbatim>\<open>ps\<close>, the pod template of a workload, and \<^verbatim>\<open>ps.Spec\<close>.\<close>

definition on_template :: "(goval \<Rightarrow> goval) \<Rightarrow> goval \<Rightarrow> goval" where
  "on_template f obj = upd_fld ''spec'' (upd_fld ''template'' f) obj"

definition on_pod_spec :: "(goval \<Rightarrow> goval) \<Rightarrow> goval \<Rightarrow> goval" where
  "on_pod_spec f obj = on_template (upd_fld ''spec'' f) obj"

definition slice_elems :: "goval \<Rightarrow> goval list" where
  "slice_elems v = (case v of VSlice (Some xs) \<Rightarrow> xs | _ \<Rightarrow> [])"

text \<open>\<^verbatim>\<open>for i := range containers\<close>, each element changed in place.\<close>

definition map_containers :: "(goval \<Rightarrow> goval) \<Rightarrow> goval \<Rightarrow> goval" where
  "map_containers f spec = (case fld spec ''containers'' of
       VSlice (Some cs) \<Rightarrow> set_fld spec ''containers'' (VSlice (Some (map f cs)))
     | _ \<Rightarrow> spec)"

text \<open>Set the entries of a string map of the metadata, creating the map when it is nil.\<close>

definition put_meta :: "string \<Rightarrow> string gomap \<Rightarrow> goval \<Rightarrow> goval" where
  "put_meta n kvs v = upd_fld ''metadata'' (\<lambda>md.
     set_smap md n (Some (put_all kvs (case get_smap md n of None \<Rightarrow> [] | Some m \<Rightarrow> m)))) v"

definition replaceAnnotations :: "workload_override \<Rightarrow> goval \<Rightarrow> goval" where
  "replaceAnnotations ov obj =
     on_template (put_meta ''annotations'' (wo_Annotations ov)) (put_meta ''annotations'' (wo_Annotations ov) obj)"

definition replaceLabels :: "workload_override \<Rightarrow> goval \<Rightarrow> goval" where
  "replaceLabels ov obj = on_template (put_meta ''labels'' (wo_Labels ov)) (put_meta ''labels'' (wo_Labels ov) obj)"

definition replaceNodeSelector :: "workload_override \<Rightarrow> goval \<Rightarrow> goval" where
  "replaceNodeSelector ov obj = (if wo_NodeSelector ov \<noteq> []
     then on_pod_spec (\<lambda>s. set_smap s ''nodeSelector'' (Some (wo_NodeSelector ov))) obj else obj)"

definition replaceTopologySpreadConstraints :: "workload_override \<Rightarrow> goval \<Rightarrow> goval" where
  "replaceTopologySpreadConstraints ov obj = (if wo_TopologySpreadConstraints ov \<noteq> []
     then on_pod_spec (\<lambda>s. set_fld s ''topologySpreadConstraints'' (VSlice (Some (wo_TopologySpreadConstraints ov)))) obj
     else obj)"

definition replaceTolerations :: "workload_override \<Rightarrow> goval \<Rightarrow> goval" where
  "replaceTolerations ov obj = (if wo_Tolerations ov \<noteq> []
     then on_pod_spec (\<lambda>s. set_fld s ''tolerations'' (VSlice (Some (wo_Tolerations ov)))) obj else obj)"

definition replaceAffinities :: "workload_override \<Rightarrow> goval \<Rightarrow> goval" where
  "replaceAffinities ov obj = (case wo_Affinity ov of
       None \<Rightarrow> obj
     | Some a \<Rightarrow> on_pod_spec (\<lambda>s. set_fld s ''affinity'' (VPtr (Some a))) obj)"

definition merge :: "goval gomap \<Rightarrow> goval \<Rightarrow> goval" where
  "merge src tgt = (case tgt of
       VMap (Some t) \<Rightarrow> if t \<noteq> [] then VMap (Some (put_all src t)) else VMap (Some src)
     | _ \<Rightarrow> VMap (Some src))"

fun find_resources :: "resource_requirements_override list \<Rightarrow> string \<Rightarrow> resource_requirements_override option" where
  "find_resources [] name = None"
| "find_resources (o' # os) name = (if rr_Container o' = name then Some o' else find_resources os name)"

definition container_name :: "goval \<Rightarrow> string" where
  "container_name c = str_val (fld c ''name'')"

definition replaceResources :: "workload_override \<Rightarrow> goval \<Rightarrow> goval" where
  "replaceResources ov obj = (if wo_Resources ov \<noteq> []
     then on_pod_spec (map_containers (\<lambda>c. case find_resources (wo_Resources ov) (container_name c) of
            None \<Rightarrow> c
          | Some o' \<Rightarrow> upd_fld ''resources'' (\<lambda>r. upd_fld ''requests'' (merge (rr_Requests o'))
                        (upd_fld ''limits'' (merge (rr_Limits o')) r)) c)) obj
     else obj)"

definition env_name :: "goval \<Rightarrow> string" where
  "env_name e = str_val (fld e ''name'')"

text \<open>One round of the outer loop of \<^verbatim>\<open>mergeEnv\<close>: every entry of that name is replaced, or one appended.\<close>

definition merge_one_env :: "goval \<Rightarrow> goval list \<Rightarrow> goval list" where
  "merge_one_env srcV tgt =
     (if list_ex (\<lambda>t. env_name srcV = env_name t) tgt
      then map (\<lambda>t. if env_name srcV = env_name t then srcV else t) tgt
      else tgt @ [srcV])"

definition mergeEnv :: "goenv \<Rightarrow> goval list \<Rightarrow> goval list \<Rightarrow> goval list" where
  "mergeEnv env src tgt = env_sort env (\<lambda>a b. env_name a < env_name b)
     (if length tgt > 0 then fold merge_one_env src tgt else src)"

fun findEnvOverride :: "env_requirements_override list \<Rightarrow> string \<Rightarrow> env_requirements_override option" where
  "findEnvOverride [] name = None"
| "findEnvOverride (o' # os) name = (if er_Container o' = name then Some o' else findEnvOverride os name)"

definition replaceEnv :: "goenv \<Rightarrow> workload_override \<Rightarrow> goval \<Rightarrow> goval" where
  "replaceEnv env ov obj = (if wo_Env ov \<noteq> []
     then on_pod_spec (map_containers (\<lambda>c. case findEnvOverride (wo_Env ov) (container_name c) of
            None \<Rightarrow> c
          | Some o' \<Rightarrow> upd_fld ''env'' (\<lambda>e. VSlice (Some (mergeEnv env (er_EnvVars o') (slice_elems e)))) c)) obj
     else obj)"

section \<open>Probes\<close>

text \<open>The non-handler fields of the probe an override describes, in the order of the struct.\<close>

definition probe_fields :: "probes_requirements_override \<Rightarrow> (string \<times> goval) list" where
  "probe_fields o' = [
     (''initialDelaySeconds'', VInt (scast (pr_InitialDelaySeconds o'))),
     (''timeoutSeconds'', VInt (scast (pr_TimeoutSeconds o'))),
     (''periodSeconds'', VInt (scast (pr_PeriodSeconds o'))),
     (''successThreshold'', VInt (scast (pr_SuccessThreshold o'))),
     (''failureThreshold'', VInt (scast (pr_FailureThreshold o'))),
     (''terminationGracePeriodSeconds'', VPtr (map_option VInt (pr_TerminationGracePeriodSeconds o')))]"

definition override_probe :: "goenv \<Rightarrow> probes_requirements_override \<Rightarrow> goval" where
  "override_probe env o' = fold (\<lambda>(n, v) p. set_fld p n v) (probe_fields o') (zero_of env Probe_type)"

text \<open>
  \<^verbatim>\<open>mergeProbe\<close> lays the JSON of the override over the JSON of the target. A zero field of the
  override is omitted from its JSON and so keeps the target's value.
\<close>

definition mergeProbe :: "probes_requirements_override \<Rightarrow> goval \<Rightarrow> goval" where
  "mergeProbe o' tgt = fold (\<lambda>(n, v) p. if isZero v then p else set_fld p n v) (probe_fields o') tgt"

fun findProbeOverride :: "probes_requirements_override list \<Rightarrow> string \<Rightarrow> probes_requirements_override option" where
  "findProbeOverride [] name = None"
| "findProbeOverride (o' # os) name = (if pr_Container o' = name then Some o' else findProbeOverride os name)"

definition replace_probe :: "goenv \<Rightarrow> string \<Rightarrow> probes_requirements_override list \<Rightarrow> goval \<Rightarrow> goval" where
  "replace_probe env field probes c = (case findProbeOverride probes (container_name c) of
       None \<Rightarrow> c
     | Some o' \<Rightarrow>
         if list_all (\<lambda>(n, v). isZero v) (probe_fields o') then set_fld c field (VPtr None)
         else (case fld c field of
             VPtr (Some p) \<Rightarrow> set_fld c field (VPtr (Some (mergeProbe o' p)))
           | _ \<Rightarrow> set_fld c field (VPtr (Some (override_probe env o')))))"

definition replaceProbes :: "goenv \<Rightarrow> workload_override \<Rightarrow> goval \<Rightarrow> goval" where
  "replaceProbes env ov obj =
     (let o1 = (if wo_ReadinessProbes ov \<noteq> []
                then on_pod_spec (map_containers (replace_probe env ''readinessProbe'' (wo_ReadinessProbes ov))) obj else obj)
      in if wo_LivenessProbes ov \<noteq> []
         then on_pod_spec (map_containers (replace_probe env ''livenessProbe'' (wo_LivenessProbes ov))) o1 else o1)"

definition replaceHostNetwork :: "workload_override \<Rightarrow> goval \<Rightarrow> goval" where
  "replaceHostNetwork ov obj = (case wo_HostNetwork ov of
       None \<Rightarrow> obj
     | Some b \<Rightarrow> on_pod_spec (\<lambda>s.
         let s1 = set_fld s ''hostNetwork'' (VBool b)
         in if b then set_fld s1 ''dnsPolicy'' (VString ''ClusterFirstWithHostNet'') else s1) obj)"

section \<open>The transformer\<close>

definition hasHorizontalPodOrCustomAutoscaler :: "string \<Rightarrow> bool" where
  "hasHorizontalPodOrCustomAutoscaler name = List.member
     [''eventing-webhook'', ''mt-broker-ingress'', ''mt-broker-filter'', ''kafka-broker-dispatcher'',
      ''kafka-source-dispatcher'', ''kafka-channel-dispatcher''] name"

definition getHPAName :: "string \<Rightarrow> string" where
  "getHPAName podspecableName = get_or podspecableName
     [(''mt-broker-ingress'', ''broker-ingress-hpa''), (''mt-broker-filter'', ''broker-filter-hpa'')] podspecableName"

definition override_replicas :: "workload_override \<Rightarrow> goval \<Rightarrow> goval" where
  "override_replicas ov obj = (case wo_Replicas ov of
       Some r \<Rightarrow> if \<not> hasHorizontalPodOrCustomAutoscaler (wo_Name ov)
                 then upd_fld ''spec'' (\<lambda>s. set_fld s ''replicas'' (VPtr (Some (VInt (scast r))))) obj else obj
     | None \<Rightarrow> obj)"

definition replace_all :: "goenv \<Rightarrow> workload_override \<Rightarrow> goval \<Rightarrow> goval" where
  "replace_all env ov obj =
     (let o1 = replaceLabels ov obj;
          o2 = replaceAnnotations ov o1;
          o3 = replaceNodeSelector ov o2;
          o4 = replaceTopologySpreadConstraints ov o3;
          o5 = replaceTolerations ov o4;
          o6 = replaceAffinities ov o5;
          o7 = replaceResources ov o6;
          o8 = replaceEnv env ov o7;
          o9 = replaceProbes env ov o8
      in replaceHostNetwork ov o9)"

text \<open>
  The body of the loop over the overrides. The kinds exclude each other, so at most one of the
  branches applies.
\<close>

definition finish_workload :: "goenv \<Rightarrow> gvk \<Rightarrow> workload_override \<Rightarrow> goval \<Rightarrow> gobj res" where
  "finish_workload env g ov obj =
     bind_res (Convert_to g (replace_all env ov obj)) (\<lambda>u. Ok (RemoveNestedField u [''metadata'', ''creationTimestamp'']))"

definition apply_override :: "goenv \<Rightarrow> workload_override \<Rightarrow> gobj \<Rightarrow> gobj res" where
  "apply_override env ov u =
     (if GetKind u = ''Deployment'' \<and> GetName u = wo_Name ov then
        bind_res (Convert_from env (apps_v1 ''Deployment'') (TStruct Deployment_fields) u) (\<lambda>d.
          finish_workload env (apps_v1 ''Deployment'') ov (override_replicas ov d))
      else if GetKind u = ''StatefulSet'' \<and> GetName u = wo_Name ov then
        bind_res (Convert_from env (apps_v1 ''StatefulSet'') (TStruct StatefulSet_fields) u) (\<lambda>d.
          finish_workload env (apps_v1 ''StatefulSet'') ov (override_replicas ov d))
      else if GetKind u = ''Job'' \<and> GetGenerateName u = wo_Name ov then
        bind_res (Convert_from env (batch_v1 ''Job'') (TStruct Job_fields) u) (finish_workload env (batch_v1 ''Job'') ov)
      else if GetKind u = ''HorizontalPodAutoscaler'' \<and> GetName u = getHPAName (wo_Name ov) then
        (case wo_Replicas ov of
           Some r \<Rightarrow> HPAReplicas (GetName u) (GetNamespace u) (scast r) u
         | None \<Rightarrow> Ok u)
      else Ok u)"

definition WorkloadsOverride :: "goenv \<Rightarrow> workload_override list option \<Rightarrow> transformer option" where
  "WorkloadsOverride env overrides = (case overrides of
       None \<Rightarrow> None
     | Some ovs \<Rightarrow> Some (fold_res (apply_override env) ovs))"


section \<open>What an override leaves alone\<close>

lemma set_fld_absent: "n \<notin> set (fld_names v) \<Longrightarrow> set_fld v n x = v"
proof (cases v)
  case (VStruct fs)
  assume "n \<notin> set (fld_names v)"
  then have "map (\<lambda>(m, om, w). (m, om, if m = n then x else w)) fs = fs"
    using VStruct by (induction fs arbitrary: v) (auto simp: fld_names_def)
  then show ?thesis by (simp add: set_fld_def VStruct)
qed (simp_all add: set_fld_def)

lemma upd_fld_names [simp]: "fld_names (upd_fld n f v) = fld_names v" "struct_val (upd_fld n f v) = struct_val v"
  by (simp_all add: upd_fld_def)

lemma fld_upd_fld_other [simp]: "n \<noteq> k \<Longrightarrow> fld (upd_fld n f v) k = fld v k"
  by (simp add: upd_fld_def)

lemma fld_upd_fld:
  "fld (upd_fld n f v) n = (if n \<in> set (fld_names v) then f (fld v n) else fld v n)"
  by (simp add: upd_fld_def set_fld_absent)

text \<open>
  An edit of a workload that only touches labels, annotations and the pod template: what every
  replacement step of the source does.
\<close>

definition keeps_outside :: "goval \<Rightarrow> goval \<Rightarrow> bool" where
  "keeps_outside v v' \<longleftrightarrow> struct_val v' = struct_val v \<and> fld_names v' = fld_names v \<and>
     (\<forall>f\<in>{''metadata'', ''spec''}. struct_val (fld v' f) = struct_val (fld v f) \<and> fld_names (fld v' f) = fld_names (fld v f)) \<and>
     (\<forall>n. n \<noteq> ''labels'' \<and> n \<noteq> ''annotations'' \<longrightarrow> fld (fld v' ''metadata'') n = fld (fld v ''metadata'') n) \<and>
     (\<forall>n. n \<noteq> ''template'' \<longrightarrow> fld (fld v' ''spec'') n = fld (fld v ''spec'') n)"

lemma keeps_outside_refl [simp]: "keeps_outside v v"
  by (simp add: keeps_outside_def)

lemma keeps_outside_trans: "keeps_outside a b \<Longrightarrow> keeps_outside b c \<Longrightarrow> keeps_outside a c"
  by (simp add: keeps_outside_def)

lemma keeps_outside_template [simp]: "keeps_outside v (on_template f v)"
  by (auto simp: keeps_outside_def on_template_def fld_upd_fld)

lemma keeps_outside_pod_spec [simp]: "keeps_outside v (on_pod_spec f v)"
  by (simp add: on_pod_spec_def)

lemma keeps_outside_put_meta [simp]: "n \<in> {''labels'', ''annotations''} \<Longrightarrow> keeps_outside v (put_meta n kvs v)"
  by (auto simp: keeps_outside_def put_meta_def fld_upd_fld set_smap_def)

lemma keeps_outside_steps:
  "keeps_outside v (replaceLabels ov v)" "keeps_outside v (replaceAnnotations ov v)"
  "keeps_outside v (replaceNodeSelector ov v)" "keeps_outside v (replaceTopologySpreadConstraints ov v)"
  "keeps_outside v (replaceTolerations ov v)" "keeps_outside v (replaceAffinities ov v)"
  "keeps_outside v (replaceResources ov v)" "keeps_outside v (replaceEnv env ov v)"
  "keeps_outside v (replaceProbes env ov v)" "keeps_outside v (replaceHostNetwork ov v)"
proof -
  show "keeps_outside v (replaceLabels ov v)" "keeps_outside v (replaceAnnotations ov v)"
    unfolding replaceLabels_def replaceAnnotations_def
    by (rule keeps_outside_trans [OF keeps_outside_put_meta keeps_outside_template], simp)+
  show "keeps_outside v (replaceProbes env ov v)"
    unfolding replaceProbes_def Let_def
    by (auto intro: keeps_outside_trans [OF keeps_outside_pod_spec keeps_outside_pod_spec])
qed (simp_all add: replaceNodeSelector_def replaceTopologySpreadConstraints_def replaceTolerations_def
    replaceAffinities_def replaceResources_def replaceEnv_def replaceHostNetwork_def split: option.split)

lemma keeps_outside_replace_all: "keeps_outside v (replace_all env ov v)"
  unfolding replace_all_def Let_def
  by (rule keeps_outside_trans [OF _ keeps_outside_steps(10)], rule keeps_outside_trans [OF _ keeps_outside_steps(9)],
      rule keeps_outside_trans [OF _ keeps_outside_steps(8)], rule keeps_outside_trans [OF _ keeps_outside_steps(7)],
      rule keeps_outside_trans [OF _ keeps_outside_steps(6)], rule keeps_outside_trans [OF _ keeps_outside_steps(5)],
      rule keeps_outside_trans [OF _ keeps_outside_steps(4)], rule keeps_outside_trans [OF _ keeps_outside_steps(3)],
      rule keeps_outside_trans [OF _ keeps_outside_steps(2)], rule keeps_outside_steps(1))

lemma same_identity_keeps:
  "same_identity fs u v \<Longrightarrow> keeps_outside v v' \<Longrightarrow> same_identity fs u v'"
  by (simp add: same_identity_def keeps_outside_def)

lemma same_identity_replicas:
  "same_identity fs u v \<Longrightarrow> same_identity fs u (override_replicas ov v)"
  by (simp add: same_identity_def override_replicas_def split: option.split)

lemma RemoveNestedField_two_frame:
  "path_sep [f, g] q \<Longrightarrow> NestedFieldNoCopy (RemoveNestedField u [f, g]) q = NestedFieldNoCopy u q"
proof (cases q)
  case (Cons h q')
  assume "path_sep [f, g] q"
  then show ?thesis
    using Cons by (cases q'; cases "map_of u f"; cases "the (map_of u f)") (auto simp: NestedFieldNoCopy_def)
qed (simp)

lemma RemoveNestedField_res_key:
  "res_key (RemoveNestedField u [''metadata'', ''creationTimestamp'']) = res_key u"
  by (rule res_key_cong) (simp_all add: RemoveNestedField_two_frame del: RemoveNestedField.simps)

lemma workload_object_fields:
  "object_fields Deployment_fields" "object_fields StatefulSet_fields" "object_fields Job_fields"
  by (simp_all add: object_fields_def Deployment_fields_def StatefulSet_fields_def Job_fields_def
      workload_fields_def TypeMeta_fields_def)

lemma workload_gvk_ok:
  "printable_gvk (apps_v1 k)" "Kind (apps_v1 k) = k" "printable_gvk (batch_v1 k)" "Kind (batch_v1 k) = k"
  by (simp_all add: printable_gvk_def apps_v1_def batch_v1_def GroupVersion_String_def ParseGroupVersion_def)

lemma workload_identity:
  assumes "Convert_from env g (TStruct fs) u = Ok d" and "object_fields fs"
    and "finish_workload env g ov d' = Ok u'" and "d' = d \<or> d' = override_replicas ov d"
    and "Kind g \<noteq> ''''" and "printable_gvk g"
  shows "res_key u' = res_key u"
proof -
  from assms(3) obtain u1 where u1: "Convert_to g (replace_all env ov d') = Ok u1"
    "u' = RemoveNestedField u1 [''metadata'', ''creationTimestamp'']"
    by (auto simp: finish_workload_def go_outcome simp del: RemoveNestedField.simps)
  have "same_identity fs u d" by (rule Convert_from_identity [OF assms(1,2)])
  then have "same_identity fs u (replace_all env ov d')"
    using assms(4) same_identity_replicas same_identity_keeps keeps_outside_replace_all by blast
  moreover have "GroupVersionKind u = g" using assms(1) by (rule Convert_from_Ok)
  ultimately have "res_key u1 = res_key u"
    using Convert_to_identity [OF _ assms(2) u1(1)] assms(5,6) by blast
  with u1(2) show ?thesis by (simp add: RemoveNestedField_res_key del: RemoveNestedField.simps)
qed

lemma HPAReplicas_identity: "HPAReplicas name ns r u = Ok u' \<Longrightarrow> res_key u' = res_key u"
  unfolding HPAReplicas_def
  by (auto simp: go_outcome Let_def simp del: SetNestedField.simps split: if_splits option.splits
      dest!: SetNestedField_res_key [OF _ spec_path_identity])

lemma apply_override_identity:
  assumes "apply_override env ov u = Ok u'"
  shows "res_key u' = res_key u"
  using assms
  by (auto simp: apply_override_def go_outcome workload_gvk_ok workload_object_fields HPAReplicas_identity
      split: if_splits option.splits intro: workload_identity)

lemma WorkloadsOverride_identity:
  assumes "WorkloadsOverride env overrides = Some f" and "f u = Ok u'"
  shows "res_key u' = res_key u"
proof -
  from assms(1) obtain ovs where "f = fold_res (apply_override env) ovs"
    by (auto simp: WorkloadsOverride_def split: option.splits)
  with assms(2) have "fold_res (apply_override env) ovs u = Ok u'" by simp
  then show ?thesis
    using fold_res_invariant [of ovs "\<lambda>v. res_key v = res_key u" "apply_override env" u u'] apply_override_identity
    by auto
qed


text \<open>
  Workload overrides keep the identity (group, version, kind, namespace and name) of
  every resource they return, in whatever order the overrides are listed and whichever of them
  apply; a resource that no override addresses comes back unchanged.
\<close>

theorem WorkloadsOverride_keeps_identity:
  "\<exists>f. WorkloadsOverride env (Some ovs) = Some f \<and>
     (\<forall>u. case f u of Ok u' \<Rightarrow> res_key u' = res_key u | _ \<Rightarrow> True) \<and>
     (\<forall>u. wo_Name ` set ovs \<inter> {GetName u, GetGenerateName u} = {} \<and> getHPAName ` wo_Name ` set ovs \<inter> {GetName u} = {} \<longrightarrow>
        f u = Ok u)"
proof (intro exI conjI allI impI)
  let ?f = "fold_res (apply_override env) ovs"
  show f: "WorkloadsOverride env (Some ovs) = Some ?f" by (simp add: WorkloadsOverride_def)
  show "case ?f u of Ok u' \<Rightarrow> res_key u' = res_key u | _ \<Rightarrow> True" for u
    using WorkloadsOverride_identity [OF f, of u] by (simp split: res.split)
  show "?f u = Ok u" if "wo_Name ` set ovs \<inter> {GetName u, GetGenerateName u} = {} \<and>
      getHPAName ` wo_Name ` set ovs \<inter> {GetName u} = {}" for u
    using that
  proof (induction ovs)
    case (Cons ov ovs)
    then have "GetName u \<noteq> wo_Name ov" "GetGenerateName u \<noteq> wo_Name ov" "GetName u \<noteq> getHPAName (wo_Name ov)" by auto
    then have "apply_override env ov u = Ok u" by (simp add: apply_override_def)
    with Cons show ?case by auto
  qed simp
qed

theorem WorkloadsOverride_keeps_identity_witness:
  "\<exists>f. WorkloadsOverride sample_env (Some []) = Some f \<and> f sample_hpa = Ok sample_hpa"
  using WorkloadsOverride_keeps_identity [of sample_env "[]"] by auto

section \<open>Replicas of a Deployment\<close>

lemma override_replicas_fld:
  assumes "''spec'' \<in> set (fld_names d)" and "''replicas'' \<in> set (fld_names (fld d ''spec''))"
  shows "fld (fld (override_replicas ov d) ''spec'') ''replicas'' =
    (case wo_Replicas ov of Some r \<Rightarrow> if hasHorizontalPodOrCustomAutoscaler (wo_Name ov)
         then fld (fld d ''spec'') ''replicas'' else VPtr (Some (VInt (scast r)))
     | None \<Rightarrow> fld (fld d ''spec'') ''replicas'')"
  using assms by (simp add: override_replicas_def fld_upd_fld split: option.split)

lemma override_replicas_names:
  "struct_val (override_replicas ov d) = struct_val d" "fld_names (override_replicas ov d) = fld_names d"
  "struct_val (fld (override_replicas ov d) ''spec'') = struct_val (fld d ''spec'')"
  "fld_names (fld (override_replicas ov d) ''spec'') = fld_names (fld d ''spec'')"
  by (simp_all add: override_replicas_def fld_upd_fld split: option.split)

lemma scast_ucast_int32:
  assumes "- (2 ^ 31) \<le> sint (i :: 64 word)" and "sint i < 2 ^ 31"
  shows "scast (ucast i :: 32 word) = i"
proof -
  have "sint (ucast i :: 32 word) = signed_take_bit 31 (uint i)"
    by (simp add: signed_ucast_eq)
  also have "\<dots> = signed_take_bit 31 (sint i)"
    by (simp add: sint_uint signed_take_bit_signed_take_bit)
  also have "\<dots> = sint i"
    using assms by (intro signed_take_bit_int_eq_self) simp_all
  finally have "(word_of_int (sint (ucast i :: 32 word)) :: 64 word) = word_of_int (sint i)" by simp
  then show ?thesis by simp
qed

lemma emitted_spec_replicas:
  assumes "struct_val v" "distinct (fld_names v)" "''spec'' \<in> set (fld_names v)"
    and "struct_val (fld v ''spec'')" "distinct (fld_names (fld v ''spec''))" "''replicas'' \<in> set (fld_names (fld v ''spec''))"
    and "fld (fld v ''spec'') ''replicas'' = VPtr (Some (VInt r))"
    and "Convert_to g v = Ok u1"
  shows "NestedInt64 (RemoveNestedField u1 [''metadata'', ''creationTimestamp'']) [''spec'', ''replicas''] = Ok (Some r)"
proof -
  obtain m where m: "toUnstructured v = GMap m" "map_of u1 ''spec'' = map_of m ''spec''"
    using Convert_to_field [OF assms(8), of "''spec''"] by auto
  obtain sm where sm: "toUnstructured (fld v ''spec'') = GMap sm" "map_of m ''spec'' = Some (GMap sm)"
    using emitted_sub [OF assms(1-4) m(1)] by blast
  have "map_of sm ''replicas'' = Some (GInt r)"
    using emitted_field [OF assms(4-6)] sm(1) assms(7) by auto
  with sm(2) m(2) have "NestedFieldNoCopy u1 [''spec'', ''replicas''] = Ok (Some (GInt r))"
    by (simp add: NestedFieldNoCopy_def)
  then show ?thesis
    by (simp add: NestedInt64_Some RemoveNestedField_two_frame del: RemoveNestedField.simps)
qed

lemma finish_workload_ok: "struct_val d \<Longrightarrow> is_ok (finish_workload env g ov (override_replicas ov d))"
proof -
  assume "struct_val d"
  then have "struct_val (replace_all env ov (override_replicas ov d))"
    using keeps_outside_replace_all [of "override_replicas ov d" env ov] override_replicas_names(1) [of ov d]
    by (simp add: keeps_outside_def)
  then obtain u1 where "Convert_to g (replace_all env ov (override_replicas ov d)) = Ok u1"
    using Convert_to_struct by blast
  then show ?thesis by (simp add: finish_workload_def del: RemoveNestedField.simps)
qed

text \<open>
  A replica override of a Deployment is written to its \<open>spec.replicas\<close> exactly when
  no autoscaler owns the replica count; for the workloads on the autoscaler list the Deployment
  keeps the count it had.
\<close>

theorem override_Deployment_replicas:
  assumes "GetKind u = ''Deployment''" and "GetName u = wo_Name ov" and "wo_Replicas ov = Some r"
    and "apply_override env ov u = Ok u'" and "NestedInt64 u [''spec'', ''replicas''] = Ok (Some i)"
    and "sint i \<in> {- (2 ^ 31) ..< 2 ^ 31}"
  shows "NestedInt64 u' [''spec'', ''replicas''] =
    Ok (Some (if hasHorizontalPodOrCustomAutoscaler (wo_Name ov) then i else scast r))"
proof -
  let ?g = "apps_v1 ''Deployment''"
  from assms(1,2,4) obtain d u1 where d: "Convert_from env ?g (TStruct Deployment_fields) u = Ok d"
    and u1: "Convert_to ?g (replace_all env ov (override_replicas ov d)) = Ok u1"
      "u' = RemoveNestedField u1 [''metadata'', ''creationTimestamp'']"
    by (auto simp: apply_override_def finish_workload_def go_outcome simp del: RemoveNestedField.simps)
  from d obtain w where w: "fromUnstructured env (TStruct Deployment_fields) (GMap u) = Ok w" and dw: "d = clear_type_meta w"
    by (rule Convert_from_Ok)
  have f: "map_of Deployment_fields ''spec'' = Some (True, TStruct DeploymentSpec_fields)"
    "distinct (map fst Deployment_fields)" "''spec'' \<in> set (map fst Deployment_fields)"
    by (simp_all add: Deployment_fields_def workload_fields_def TypeMeta_fields_def DeploymentSpec_type_def)
  have sf: "map_of DeploymentSpec_fields ''replicas'' = Some (True, TPtr (TInt 32))"
    "distinct (map fst DeploymentSpec_fields)" "''replicas'' \<in> set (map fst DeploymentSpec_fields)"
    by (simp_all add: DeploymentSpec_fields_def)
  have sp: "fromUnstructured env (TStruct DeploymentSpec_fields) (GMap (sub_object u ''spec'')) = Ok (fld w ''spec'')"
    by (rule from_sub_struct [OF w f(1)])
  have "map_of (sub_object u ''spec'') ''replicas'' = Some (GInt i)"
    using nested_two_Some [of u "''spec''" "''replicas''" "GInt i"] assms(5) by (auto simp: NestedInt64_Some sub_object_def)
  then have ri: "fld (fld w ''spec'') ''replicas'' = VPtr (Some (VInt (convert_int 32 i)))"
    using from_struct_fld [OF sp sf(1)] by simp
  have ci: "convert_int 32 i = i"
    using assms(6) by (auto simp: convert_int_def scast_ucast_int32)
  let ?v = "replace_all env ov (override_replicas ov d)"
  have k: "keeps_outside (override_replicas ov d) ?v" by (rule keeps_outside_replace_all)
  have names: "struct_val d" "fld_names d = map fst Deployment_fields"
    "struct_val (fld d ''spec'')" "fld_names (fld d ''spec'') = map fst DeploymentSpec_fields"
    using from_struct_struct_val [OF w] from_struct_fld_names [OF w] from_struct_struct_val [OF sp]
      from_struct_fld_names [OF sp] by (simp_all add: dw)
  have "fld (fld ?v ''spec'') ''replicas'' =
      VPtr (Some (VInt (if hasHorizontalPodOrCustomAutoscaler (wo_Name ov) then i else scast r)))"
    using k override_replicas_fld [of d ov] names f(3) sf(3) ri ci assms(3) by (simp add: keeps_outside_def dw)
  with emitted_spec_replicas [of ?v, OF _ _ _ _ _ _ _ u1(1)] k names f sf u1(2) override_replicas_names [of ov d]
  show ?thesis by (simp add: keeps_outside_def del: RemoveNestedField.simps)
qed


definition sample_override :: "string \<Rightarrow> (32 word) option \<Rightarrow> workload_override" where
  "sample_override name r = \<lparr>wo_Name = name, wo_Labels = [], wo_Annotations = [], wo_Replicas = r, wo_NodeSelector = [],
     wo_TopologySpreadConstraints = [], wo_Tolerations = [], wo_Affinity = None, wo_Resources = [], wo_Env = [],
     wo_ReadinessProbes = [], wo_LivenessProbes = [], wo_HostNetwork = None\<rparr>"

definition sample_workload :: "string \<Rightarrow> gobj" where
  "sample_workload name = [(''apiVersion'', GString ''apps/v1''), (''kind'', GString ''Deployment''),
     (''metadata'', GMap [(''name'', GString name), (''namespace'', GString ''knative-eventing'')]),
     (''spec'', GMap [(''replicas'', GInt 1)])]"

theorem override_Deployment_replicas_witness:
  "\<exists>u'. apply_override sample_env (sample_override ''imc-controller'' (Some 5)) (sample_workload ''imc-controller'') = Ok u' \<and>
     NestedInt64 u' [''spec'', ''replicas''] = Ok (Some 5)"
proof -
  let ?u = "sample_workload ''imc-controller''" and ?o = "sample_override ''imc-controller'' (Some 5)"
  have c: "is_ok (Convert_from sample_env (apps_v1 ''Deployment'') (TStruct Deployment_fields) ?u)"
    "GetKind ?u = ''Deployment'' \<and> GetName ?u = wo_Name ?o" by code_simp+
  then obtain d where d: "Convert_from sample_env (apps_v1 ''Deployment'') (TStruct Deployment_fields) ?u = Ok d"
    by (auto simp: is_ok_def split: res.splits)
  then have "struct_val d"
    using Convert_from_identity [OF _ workload_object_fields(1)] by (simp add: same_identity_def)
  with d c(2) have "is_ok (apply_override sample_env ?o ?u)"
    by (simp add: apply_override_def finish_workload_ok)
  then obtain u' where u': "apply_override sample_env ?o ?u = Ok u'" by (auto simp: is_ok_def split: res.splits)
  have a: "GetKind ?u = ''Deployment''" "GetName ?u = wo_Name ?o" "wo_Replicas ?o = Some 5"
    "NestedInt64 ?u [''spec'', ''replicas''] = Ok (Some 1)" "\<not> hasHorizontalPodOrCustomAutoscaler (wo_Name ?o)" by code_simp+
  have b: "sint (1 :: 64 word) \<in> {- (2 ^ 31) ..< 2 ^ 31}" by simp
  from override_Deployment_replicas [OF a(1-3) u' a(4) b] a(5) u' show ?thesis by auto
qed

section \<open>Environment variables\<close>

definition by_name :: "goval list \<Rightarrow> string \<Rightarrow> goval option" where
  "by_name es = map_of (map (\<lambda>e. (env_name e, e)) es)"

abbreviation env_less :: "goval \<Rightarrow> goval \<Rightarrow> bool" where
  "env_less a b \<equiv> env_name a < env_name b"

text \<open>The documented contract of \<^verbatim>\<open>sort.Slice\<close> for the order by name.\<close>

definition env_sort_ok :: "goenv \<Rightarrow> bool" where
  "env_sort_ok env \<longleftrightarrow> (\<forall>xs. mset (env_sort env env_less xs) = mset xs \<and> slice_sorted env_less (env_sort env env_less xs))"

lemma by_name_merge_one: "by_name (merge_one_env e tgt) = (by_name tgt)(env_name e \<mapsto> e)"
proof (cases "list_ex (\<lambda>t. env_name e = env_name t) tgt")
  case True
  have "map_of (map (\<lambda>t. (env_name (if env_name e = env_name t then e else t), if env_name e = env_name t then e else t)) tgt) n =
      (if n = env_name e then Some e else map_of (map (\<lambda>t. (env_name t, t)) tgt) n)"
    if "list_ex (\<lambda>t. env_name e = env_name t) tgt \<or> n \<noteq> env_name e" for n
    using that by (induction tgt) auto
  with True show ?thesis by (auto simp: merge_one_env_def by_name_def o_def fun_eq_iff)
next
  case False
  then have "map_of (map (\<lambda>t. (env_name t, t)) tgt) (env_name e) = None"
    by (auto simp: list_ex_iff map_of_eq_None_iff)
  with False show ?thesis
    by (auto simp: merge_one_env_def by_name_def fun_eq_iff map_add_def split: option.split)
qed

lemma names_merge_one: "distinct (map env_name tgt) \<Longrightarrow> distinct (map env_name (merge_one_env e tgt))"
proof -
  assume d: "distinct (map env_name tgt)"
  have "map env_name (map (\<lambda>t. if env_name e = env_name t then e else t) tgt) = map env_name tgt" by auto
  with d have "distinct (map env_name (map (\<lambda>t. if env_name e = env_name t then e else t) tgt))"
    by (simp only:)
  moreover have "distinct (map env_name (tgt @ [e]))" if "\<not> list_ex (\<lambda>t. env_name e = env_name t) tgt"
    using that d by (auto simp: list_ex_iff)
  ultimately show ?thesis by (simp add: merge_one_env_def del: map_map)
qed

lemma fold_merge:
  assumes "distinct (map env_name src)" and "distinct (map env_name tgt)"
  shows "by_name (fold merge_one_env src tgt) = by_name tgt ++ by_name src \<and> distinct (map env_name (fold merge_one_env src tgt))"
  using assms
proof (induction src arbitrary: tgt)
  case (Cons e src)
  then have "by_name (fold merge_one_env src (merge_one_env e tgt)) = (by_name tgt)(env_name e \<mapsto> e) ++ by_name src"
    "distinct (map env_name (fold merge_one_env src (merge_one_env e tgt)))"
    using names_merge_one by_name_merge_one by auto
  moreover have "by_name src (env_name e) = None"
    using Cons.prems(1) by (auto simp: by_name_def map_of_eq_None_iff)
  ultimately show ?case
    by (auto simp: by_name_def map_add_def fun_eq_iff split: option.split)
qed (simp add: by_name_def)

lemma by_name_mset:
  assumes "mset xs = mset ys" and "distinct (map env_name ys)"
  shows "by_name xs = by_name ys \<and> distinct (map env_name xs)"
proof -
  have m: "mset (map env_name xs) = mset (map env_name ys)" using assms(1) by simp
  then have d: "distinct (map env_name xs)" using assms(2) mset_eq_imp_distinct_iff by blast
  moreover have "set xs = set ys" using assms(1) by (rule mset_eq_setD)
  ultimately have "by_name xs = by_name ys"
    unfolding by_name_def using assms(2) by (intro map_of_inject_set [THEN iffD2]) (simp_all add: o_def)
  with d show ?thesis by simp
qed

text \<open>
  Merging environment variables gives a list sorted by name without duplicates in
  which every overriding variable appears with its new definition and every other variable of
  the container keeps its own, whatever order \<open>sort.Slice\<close> gives to equal elements.
\<close>

theorem mergeEnv_effect:
  assumes "env_sort_ok env" and "distinct (map env_name src)" and "distinct (map env_name tgt)"
  shows "by_name (mergeEnv env src tgt) = by_name tgt ++ by_name src \<and>
    distinct (map env_name (mergeEnv env src tgt)) \<and> sorted (map env_name (mergeEnv env src tgt))"
proof -
  let ?l = "if length tgt > 0 then fold merge_one_env src tgt else src"
  have l: "by_name ?l = by_name tgt ++ by_name src" "distinct (map env_name ?l)"
    using fold_merge [OF assms(2,3)] assms(2) by (auto simp: by_name_def)
  have r: "mset (mergeEnv env src tgt) = mset ?l" "slice_sorted env_less (mergeEnv env src tgt)"
    using assms(1) by (simp_all add: env_sort_ok_def mergeEnv_def)
  have "sorted (map env_name (mergeEnv env src tgt))"
    using r(2) by (simp add: slice_sorted_def sorted_wrt_map not_less)
  with by_name_mset [OF r(1) l(2)] l(1) show ?thesis by simp
qed

definition sample_env_var :: "string \<Rightarrow> string \<Rightarrow> goval" where
  "sample_env_var n v = VStruct [(''name'', False, VString n), (''value'', True, VString v), (''valueFrom'', True, VPtr None)]"

lemma sample_env_sort_ok: "env_sort_ok sample_env"
proof -
  have "slice_sorted env_less (sort_slice env_less xs)" for xs
    by (rule sort_slice_sorted) auto
  then show ?thesis by (simp add: env_sort_ok_def sample_env_def)
qed

theorem mergeEnv_effect_witness:
  "by_name (mergeEnv sample_env [sample_env_var ''B'' ''2''] [sample_env_var ''C'' ''3'', sample_env_var ''B'' ''1'']) ''B'' =
     Some (sample_env_var ''B'' ''2'')"
proof -
  let ?s = "[sample_env_var ''B'' ''2'']" and ?t = "[sample_env_var ''C'' ''3'', sample_env_var ''B'' ''1'']"
  have n: "env_name (sample_env_var n v) = n" for n v
    by (simp add: env_name_def sample_env_var_def fld_def str_val_def)
  have "distinct (map env_name ?s)" "distinct (map env_name ?t)" by (simp_all add: n)
  from mergeEnv_effect [OF sample_env_sort_ok this] show ?thesis by (simp add: by_name_def n)
qed

section \<open>Probes\<close>

lemma fold_set_fld_other:
  "n \<notin> fst ` set kvs \<Longrightarrow> fld (fold (\<lambda>(m, v) p. if isZero v then p else set_fld p m v) kvs p) n = fld p n"
  by (induction kvs arbitrary: p) auto

lemma fold_set_fld_names:
  "fld_names (fold (\<lambda>(m, v) p. if isZero v then p else set_fld p m v) kvs p) = fld_names p"
  by (induction kvs arbitrary: p) auto

lemma fold_set_fld:
  "distinct (map fst kvs) \<Longrightarrow> (n, v) \<in> set kvs \<Longrightarrow> n \<in> set (fld_names p) \<Longrightarrow>
     fld (fold (\<lambda>(m, v) p. if isZero v then p else set_fld p m v) kvs p) n = (if isZero v then fld p n else v)"
proof (induction kvs arbitrary: p)
  case (Cons a kvs)
  obtain m w where a: "a = (m, w)" by (cases a)
  show ?case
  proof (cases "m = n")
    case True
    with Cons.prems a have "v = w" "n \<notin> fst ` set kvs" by (auto intro: rev_image_eqI)
    with True a Cons.prems(3) show ?thesis by (simp add: fold_set_fld_other)
  next
    case False
    with Cons a show ?thesis by auto
  qed
qed simp

text \<open>
  A probe override with no value at all removes the container's probe; otherwise an
  existing probe keeps its handler and every timing field the override leaves at zero, and takes
  the override's value in the others.
\<close>

theorem replace_probe_effect:
  assumes "findProbeOverride probes (container_name c) = Some o'" and "field \<in> set (fld_names c)"
    and "fld c field = VPtr (Some p)" and "set (map fst (probe_fields o')) \<subseteq> set (fld_names p)"
  shows "fld (replace_probe env field probes c) field =
     (if list_all (\<lambda>(n, v). isZero v) (probe_fields o') then VPtr None else VPtr (Some (mergeProbe o' p))) \<and>
    (\<forall>(n, v)\<in>set (probe_fields o'). fld (mergeProbe o' p) n = (if isZero v then fld p n else v)) \<and>
    (\<forall>n. n \<notin> set (map fst (probe_fields o')) \<longrightarrow> fld (mergeProbe o' p) n = fld p n) \<and>
    (\<forall>n. n \<noteq> field \<longrightarrow> fld (replace_probe env field probes c) n = fld c n)"
proof -
  have d: "distinct (map fst (probe_fields o'))" by (simp add: probe_fields_def)
  have "fld (mergeProbe o' p) n = (if isZero v then fld p n else v)" if "(n, v) \<in> set (probe_fields o')" for n v
    unfolding mergeProbe_def using that assms(4) by (intro fold_set_fld [OF d]) (auto intro: rev_image_eqI)
  moreover have "fld (mergeProbe o' p) n = fld p n" if "n \<notin> set (map fst (probe_fields o'))" for n
    unfolding mergeProbe_def using that by (intro fold_set_fld_other) simp
  ultimately show ?thesis
    using assms(1-3) by (auto simp: replace_probe_def)
qed

definition sample_probe_override :: "32 word \<Rightarrow> probes_requirements_override" where
  "sample_probe_override t = \<lparr>pr_Container = ''c'', pr_InitialDelaySeconds = 0, pr_TimeoutSeconds = t, pr_PeriodSeconds = 0,
     pr_SuccessThreshold = 0, pr_FailureThreshold = 0, pr_TerminationGracePeriodSeconds = None\<rparr>"

theorem replace_probe_effect_witness:
  "fld (replace_probe sample_env ''livenessProbe'' [sample_probe_override 0]
      (VStruct [(''name'', False, VString ''c''), (''livenessProbe'', True, VPtr (Some (zero_of sample_env Probe_type)))]))
     ''livenessProbe'' = VPtr None"
proof -
  let ?c = "VStruct [(''name'', False, VString ''c''), (''livenessProbe'', True, VPtr (Some (zero_of sample_env Probe_type)))]"
  have "findProbeOverride [sample_probe_override 0] (container_name ?c) = Some (sample_probe_override 0)"
    "''livenessProbe'' \<in> set (fld_names ?c)" "fld ?c ''livenessProbe'' = VPtr (Some (zero_of sample_env Probe_type))"
    "set (map fst (probe_fields (sample_probe_override 0))) \<subseteq> set (fld_names (zero_of sample_env Probe_type))"
    "list_all (\<lambda>(n, v). isZero v) (probe_fields (sample_probe_override 0))"
    by code_simp+
  from replace_probe_effect [OF this(1-4), of sample_env] this(5) show ?thesis by simp
qed

end
