(* ===== verification/Manifests.thy ===== *)
theory Manifests
  imports Versions Logging_Transformers Workload_Override
begin

text \<open>
  \<^verbatim>\<open>pkg/manifests\<close>: the collection of manifests a reconcile run works on (manifests.go), the two
  parsers that fill it (eventing.go, kafkabroker.go), and the transform and install stages
  (stages.go). Reading files and YAML, the listers and the API client are parameters. The theorems
  say which transformers and resources the parsers collect, that transforming keeps the identity
  of every resource, and in which order and how far an installation changes the cluster.
\<close>

section \<open>The collection\<close>

record manifests =
  ToApply :: manifest
  ToDelete :: manifest
  PostInstall :: manifest
  Transformers :: "transformer option list"

definition empty_manifests :: manifests where
  "empty_manifests = \<lparr>ToApply = empty_manifest, ToDelete = empty_manifest, PostInstall = empty_manifest, Transformers = []\<rparr>"

definition AddToApply :: "manifest \<Rightarrow> manifests \<Rightarrow> manifests" where
  "AddToApply mf m = m\<lparr>ToApply := Append_mf (ToApply m) mf\<rparr>"

definition AddToDelete :: "manifest \<Rightarrow> manifests \<Rightarrow> manifests" where
  "AddToDelete mf m = m\<lparr>ToDelete := Append_mf (ToDelete m) mf\<rparr>"

definition AddToPostInstall :: "manifest \<Rightarrow> manifests \<Rightarrow> manifests" where
  "AddToPostInstall mf m = m\<lparr>PostInstall := Append_mf (PostInstall m) mf\<rparr>"

definition AddTransformers :: "transformer option list \<Rightarrow> manifests \<Rightarrow> manifests" where
  "AddTransformers ts m = m\<lparr>Transformers := Transformers m @ ts\<rparr>"

definition TransformToApply :: "manifests \<Rightarrow> manifests res" where
  "TransformToApply m = bind_res (wrap_err ''failed to transform eventing manifests to apply''
     (Transform (ToApply m) (Transformers m))) (\<lambda>patched. Ok (m\<lparr>ToApply := patched\<rparr>))"

definition TransformToDelete :: "manifests \<Rightarrow> manifests res" where
  "TransformToDelete m = bind_res (wrap_err ''failed to transform eventing manifests to delete''
     (Transform (ToDelete m) (Transformers m))) (\<lambda>patched. Ok (m\<lparr>ToDelete := patched\<rparr>))"

definition TransformPostInstall :: "manifests \<Rightarrow> manifests res" where
  "TransformPostInstall m = bind_res (wrap_err ''failed to transform eventing post-install manifests''
     (Transform (PostInstall m) (Transformers m))) (\<lambda>patched. Ok (m\<lparr>PostInstall := patched\<rparr>))"

definition Sort_manifests :: "slice_sort \<Rightarrow> manifests \<Rightarrow> manifests" where
  "Sort_manifests srt m = m\<lparr>ToApply := Sort_mf srt (ToApply m), ToDelete := Sort_mf srt (ToDelete m),
     PostInstall := Sort_mf srt (PostInstall m)\<rparr>"

text \<open>\<open>None\<close> is a nil argument.\<close>

definition Append_manifests :: "manifests option \<Rightarrow> manifests \<Rightarrow> manifests" where
  "Append_manifests n m = (case n of
       None \<Rightarrow> m
     | Some k \<Rightarrow> AddTransformers (Transformers k) (AddToPostInstall (PostInstall k)
                  (AddToDelete (ToDelete k) (AddToApply (ToApply k) m))))"

definition FilterToApply :: "predicate \<Rightarrow> manifests \<Rightarrow> manifests" where
  "FilterToApply p m = m\<lparr>ToApply := Filter (ToApply m) [p]\<rparr>"

section \<open>Loading\<close>

text \<open>
  The parsers' surroundings: \<open>pc_new_manifest\<close> is \<^verbatim>\<open>mf.NewManifest\<close> of a path, \<open>pc_manifest_from\<close> is
  \<^verbatim>\<open>mf.ManifestFrom\<close> of a YAML text, \<open>pc_ko_data\<close> the variable \<^verbatim>\<open>KO_DATA_PATH\<close>, and the two listers.
\<close>

record parser_context =
  pc_env :: goenv
  pc_ko_data :: string
  pc_new_manifest :: "string \<Rightarrow> manifest res"
  pc_manifest_from :: "string \<Rightarrow> manifest res"
  pc_crd :: "string \<Rightarrow> unit res"
  pc_deployments :: deployment_lister

fun loadManifests_loop :: "parser_context \<Rightarrow> string \<Rightarrow> manifest \<Rightarrow> string list \<Rightarrow> manifest res" where
  "loadManifests_loop pc dirname ms [] = Ok ms"
| "loadManifests_loop pc dirname ms (file # files) =
     bind_res (wrap_err (''failed to parse manifest '' @ dirname @ ''/'' @ file)
       (pc_new_manifest pc (pc_ko_data pc @ ''/'' @ dirname @ ''/'' @ file)))
       (\<lambda>m. loadManifests_loop pc dirname (Append_mf ms m) files)"

definition loadManifests :: "parser_context \<Rightarrow> string \<Rightarrow> string list \<Rightarrow> manifest res" where
  "loadManifests pc dirname filenames = loadManifests_loop pc dirname empty_manifest filenames"

definition IsCertmanagerInstalled :: "(string \<Rightarrow> unit res) \<Rightarrow> bool res" where
  "IsCertmanagerInstalled crd = (case crd ''certificates.cert-manager.io'' of
       Ok _ \<Rightarrow> Ok True
     | Err e \<Rightarrow> if IsNotFound e then Ok False
                else Err (ErrWrap ''failed to get certificates.cert-manager.io CRD'' e)
     | Panic p \<Rightarrow> Panic p)"

text \<open>\<^verbatim>\<open>em.Spec.Overrides.X\<close> dereferences the optional pointer.\<close>

definition deref_overrides :: "event_mesh \<Rightarrow> event_mesh_spec_overrides res" where
  "deref_overrides em = (case Overrides (em_Spec em) of
       None \<Rightarrow> Panic ''invalid memory address or nil pointer dereference''
     | Some o' \<Rightarrow> Ok o')"

section \<open>The eventing parser\<close>

definition loadEventingCoreManifests :: "parser_context \<Rightarrow> manifest res" where
  "loadEventingCoreManifests pc = loadManifests pc ''eventing-latest'' [''eventing-crds.yaml'', ''eventing-core.yaml'']"

definition eventingCoreManifests :: "parser_context \<Rightarrow> event_mesh \<Rightarrow> manifests res" where
  "eventingCoreManifests pc em =
     bind_res (wrap_err ''failed to load eventing core manifests'' (loadEventingCoreManifests pc)) (\<lambda>coreManifests.
     bind_res (deref_overrides em) (\<lambda>overrides.
     (let env = pc_env pc; spec = em_Spec em in
      Ok (AddTransformers
            [Some (EventingCoreLogging env (LogLevel spec)),
             Some (DefaultChannelImplementation env (DefaultChannel spec)),
             Some (DefaultBrokerClass env (DefaultBroker spec) (DefaultChannel spec)),
             Some (EventingFeatureFlags env (Features spec)),
             Some (ConfigMapOverride (Config overrides)),
             WorkloadsOverride env (Workloads overrides)]
            (AddToApply coreManifests empty_manifests)))))"

definition eventingIMCManifests :: "parser_context \<Rightarrow> event_mesh \<Rightarrow> manifests res" where
  "eventingIMCManifests pc em =
     bind_res (wrap_err ''failed to load eventing IMC manifests''
       (loadManifests pc ''eventing-latest'' [''in-memory-channel.yaml''])) (\<lambda>imc.
     Ok (AddToApply imc empty_manifests))"

definition eventingMTBrokerManifests :: "parser_context \<Rightarrow> event_mesh \<Rightarrow> manifests res" where
  "eventingMTBrokerManifests pc em =
     bind_res (wrap_err ''failed to load eventing MT channel broker manifests''
       (loadManifests pc ''eventing-latest'' [''mt-channel-broker.yaml''])) (\<lambda>mtBroker.
     Ok (AddToApply mtBroker empty_manifests))"

text \<open>The two parsers decide over their TLS manifests in the same way.\<close>

definition tls_manifests :: "parser_context \<Rightarrow> event_mesh \<Rightarrow> manifest \<Rightarrow> manifests res" where
  "tls_manifests pc em tlsManifests =
     bind_res (wrap_err ''failed to check if cert-manager is installed'' (IsCertmanagerInstalled (pc_crd pc))) (\<lambda>certManagerIsInstalled.
     bind_res (wrap_err ''failed to load feature flags'' (GetEventingFeatureFlags (Features (em_Spec em)))) (\<lambda>features.
     (if \<not> IsDisabledTransportEncryption features then
        (if certManagerIsInstalled then Ok (AddToApply tlsManifests empty_manifests)
         else Err (ErrMsg (TransportEncryption @ '' is set to '' @ get_or '''' features TransportEncryption @
                '', but cert-manager is not installed'')))
      else if certManagerIsInstalled then Ok (AddToDelete tlsManifests empty_manifests)
      else Ok empty_manifests)))"

definition eventingTLSManifests :: "parser_context \<Rightarrow> event_mesh \<Rightarrow> manifests res" where
  "eventingTLSManifests pc em =
     bind_res (wrap_err ''failed to load eventing TLS manifests''
       (loadManifests pc ''eventing-latest'' [''eventing-tls-networking.yaml''])) (tls_manifests pc em)"

definition eventingPostInstallManifests :: "parser_context \<Rightarrow> event_mesh \<Rightarrow> manifests \<Rightarrow> manifests option res" where
  "eventingPostInstallManifests pc em ms =
     bind_res (wrap_err ''failed to check if this is an upgrade''
       (isUpgrade (env_namespace (pc_env pc)) (ToApply ms) (pc_deployments pc))) (\<lambda>upgrade.
     if upgrade then
       bind_res (wrap_err ''failed to load eventing post-install manifests''
         (loadManifests pc ''eventing-latest'' [''eventing-post-install.yaml''])) (\<lambda>post.
       Ok (Some (AddToPostInstall post empty_manifests)))
     else Ok None)"

definition eventing_Parse :: "parser_context \<Rightarrow> event_mesh \<Rightarrow> manifests res" where
  "eventing_Parse pc em =
     bind_res (wrap_err ''failed to load eventing core manifests'' (eventingCoreManifests pc em)) (\<lambda>core.
     (let m1 = Append_manifests (Some core) empty_manifests in
     bind_res (wrap_err ''failed to load eventing IMC manifests'' (eventingIMCManifests pc em)) (\<lambda>imc.
     (let m2 = Append_manifests (Some imc) m1 in
     bind_res (wrap_err ''failed to load eventing MT channel Broker manifests'' (eventingMTBrokerManifests pc em)) (\<lambda>mt.
     (let m3 = Append_manifests (Some mt) m2 in
     bind_res (wrap_err ''failed to load eventing tls manifests'' (eventingTLSManifests pc em)) (\<lambda>tls.
     (let m4 = Append_manifests (Some tls) m3 in
     bind_res (wrap_err ''failed to load eventing post-install manifests'' (eventingPostInstallManifests pc em core)) (\<lambda>post.
     Ok (Append_manifests post m4))))))))))"

section \<open>The Kafka broker parser\<close>

definition loadEventingKafkaBrokerCoreManifests :: "parser_context \<Rightarrow> manifest res" where
  "loadEventingKafkaBrokerCoreManifests pc = loadManifests pc ''eventing-kafka-broker-latest''
     [''eventing-kafka-controller.yaml'', ''eventing-kafka-broker.yaml'', ''eventing-kafka-channel.yaml'',
      ''eventing-kafka-sink.yaml'', ''eventing-kafka-source.yaml'']"

definition kafka_channel_template :: "string \<Rightarrow> event_mesh_spec_kafka \<Rightarrow> string" where
  "kafka_channel_template ns kafka =
     ''apiVersion: v1'' @ nl @
     ''kind: ConfigMap'' @ nl @
     ''metadata:'' @ nl @
     ''  name: kafka-channel'' @ nl @
     ''  namespace: '' @ ns @ nl @
     ''data:'' @ nl @
     ''  channel-template-spec: |'' @ nl @
     ''    apiVersion: messaging.knative.dev/v1'' @ nl @
     ''    kind: KafkaChannel'' @ nl @
     ''    spec:'' @ nl @
     ''      numPartitions: '' @ int_str (sint (NumPartitions kafka)) @ nl @
     ''      replicationFactor: '' @ int_str (sint (ReplicationFactor kafka))"

text \<open>A parse error of the rendered text is a panic.\<close>

definition eventingKafkaChannelTemplateConfigMap :: "parser_context \<Rightarrow> event_mesh \<Rightarrow> manifest res" where
  "eventingKafkaChannelTemplateConfigMap pc em =
     (case pc_manifest_from pc (kafka_channel_template (env_namespace (pc_env pc)) (Kafka (em_Spec em))) of
        Err e \<Rightarrow> Panic (''error parsing manifest for kafka channel template: '' @ err_text e)
      | r \<Rightarrow> r)"

definition eventingKafkaBrokerCoreManifests :: "parser_context \<Rightarrow> event_mesh \<Rightarrow> manifests res" where
  "eventingKafkaBrokerCoreManifests pc em =
     bind_res (wrap_err ''failed to load EKB core manifests'' (loadEventingKafkaBrokerCoreManifests pc)) (\<lambda>coreManifests.
     bind_res (eventingKafkaChannelTemplateConfigMap pc em) (\<lambda>template.
     (let env = pc_env pc; spec = em_Spec em; kafka = Kafka spec in
      Ok (AddTransformers
            [Some (KafkaLogging env (LogLevel spec)),
             Some (EventingKafkaBrokerFeatureFlags env (Features spec)),
             Some (BootstrapServers_tr env (BootstrapServers kafka)),
             Some (NumberOfPartitions env (NumPartitions kafka)),
             Some (ReplicationFactor_tr env (ReplicationFactor kafka)),
             Some (KafkaTopicOption env (TopicConfigOptions kafka))]
            (AddToApply template (AddToApply coreManifests empty_manifests))))))"

definition eventingKafkaBrokerTLSManifests :: "parser_context \<Rightarrow> event_mesh \<Rightarrow> manifests res" where
  "eventingKafkaBrokerTLSManifests pc em =
     bind_res (wrap_err ''failed to load EKB TLS manifests''
       (loadManifests pc ''eventing-kafka-broker-latest'' [''eventing-kafka-tls-networking.yaml''])) (tls_manifests pc em)"

definition eventingKafkaBrokerPostInstallManifests :: "parser_context \<Rightarrow> event_mesh \<Rightarrow> manifests \<Rightarrow> manifests option res" where
  "eventingKafkaBrokerPostInstallManifests pc em ms =
     bind_res (wrap_err ''failed to check if this is an upgrade''
       (isUpgrade (env_namespace (pc_env pc)) (ToApply ms) (pc_deployments pc))) (\<lambda>upgrade.
     if upgrade then
       bind_res (wrap_err ''failed to load EKB post-install manifests''
         (loadManifests pc ''eventing-kafka-broker-latest'' [''eventing-kafka-post-install.yaml''])) (\<lambda>post.
       Ok (Some (AddToPostInstall post empty_manifests)))
     else Ok None)"

definition kafkaBroker_Parse :: "parser_context \<Rightarrow> event_mesh \<Rightarrow> manifests res" where
  "kafkaBroker_Parse pc em =
     bind_res (wrap_err ''failed to load EKB core manifests'' (eventingKafkaBrokerCoreManifests pc em)) (\<lambda>core.
     (let m1 = Append_manifests (Some core) empty_manifests in
     bind_res (wrap_err ''failed to load EKB tls manifests'' (eventingKafkaBrokerTLSManifests pc em)) (\<lambda>tls.
     (let m2 = Append_manifests (Some tls) m1 in
     bind_res (wrap_err ''failed to load EKB post-install manifests'' (eventingKafkaBrokerPostInstallManifests pc em core)) (\<lambda>post.
     Ok (Append_manifests post m2))))))"

section \<open>Stages\<close>

text \<open>A stage's effect on the manifests; the cluster is a state of any type.\<close>

definition AppendFromParser :: "(event_mesh \<Rightarrow> manifests res) \<Rightarrow> manifests \<Rightarrow> event_mesh \<Rightarrow> manifests res" where
  "AppendFromParser parse m em =
     bind_res (wrap_err ''failed to get eventing manifests'' (parse em)) (\<lambda>loaded. Ok (Append_manifests (Some loaded) m))"

definition Transform_stage :: "manifests \<Rightarrow> event_mesh \<Rightarrow> manifests res" where
  "Transform_stage m em =
     bind_res (wrap_err ''failed to transform manifests to apply'' (TransformToApply m)) (\<lambda>m1.
     bind_res (wrap_err ''failed to transform manifests to delete'' (TransformToDelete m1)) (\<lambda>m2.
     wrap_err ''failed to transform post-install manifests'' (TransformPostInstall m2)))"

definition wrap_fst :: "string \<Rightarrow> 'a res \<times> 's \<Rightarrow> 'a res \<times> 's" where
  "wrap_fst msg r = (wrap_err msg (fst r), snd r)"

definition Install :: "slice_sort \<Rightarrow> 's mf_client \<Rightarrow> manifest \<Rightarrow> manifests \<Rightarrow> 's \<Rightarrow> manifests res \<times> 's" where
  "Install srt cl baseManifest m s =
     (let m' = Sort_manifests srt m in
      case wrap_fst ''failed to delete manifests'' (Delete_mf cl (Append_mf baseManifest (ToDelete m')) s) of
        (Ok _, s1) \<Rightarrow>
          (case wrap_fst ''failed to apply manifests'' (Apply_mf cl (Append_mf baseManifest (ToApply m')) s1) of
             (Ok _, s2) \<Rightarrow>
               (case wrap_fst ''failed to apply post-install manifests'' (Apply_mf cl (Append_mf baseManifest (PostInstall m')) s2) of
                  (Ok _, s3) \<Rightarrow> (Ok m', s3)
                | (Err e, s3) \<Rightarrow> (Err e, s3)
                | (Panic p, s3) \<Rightarrow> (Panic p, s3))
           | (Err e, s2) \<Rightarrow> (Err e, s2)
           | (Panic p, s2) \<Rightarrow> (Panic p, s2))
      | (Err e, s1) \<Rightarrow> (Err e, s1)
      | (Panic p, s1) \<Rightarrow> (Panic p, s1))"


section \<open>Every transformer keeps identities\<close>

definition keeps_identity :: "transformer \<Rightarrow> bool" where
  "keeps_identity f \<longleftrightarrow> (\<forall>u u'. f u = Ok u' \<longrightarrow> res_key u' = res_key u)"

lemma keeps_identity_configmap_transformers:
  "keeps_identity (ConfigMap env name ns key val)" "keeps_identity (ConfigMapMultipleValues env name ns kvs b)"
  "keeps_identity (BootstrapServers_tr env servers)" "keeps_identity (NumberOfPartitions env n)"
  "keeps_identity (ReplicationFactor_tr env n)" "keeps_identity (KafkaTopicOption env opts)"
  "keeps_identity (DefaultBrokerClass env bc ch)" "keeps_identity (DefaultChannelImplementation env ch)"
  "keeps_identity (EventingCoreLogging env level)" "keeps_identity (KafkaLogging env level)"
proof -
  show cm: "keeps_identity (ConfigMap env name ns key val)" for name ns key val
    by (auto simp: keeps_identity_def ConfigMap_def split: if_splits dest: with_configmap_identity)
  show mv: "keeps_identity (ConfigMapMultipleValues env name ns kvs b)" for name ns kvs b
    unfolding keeps_identity_def ConfigMapMultipleValues_def
    by (intro allI impI) (simp only: split: if_splits, auto dest: with_configmap_identity)
  show "keeps_identity (NumberOfPartitions env n)" "keeps_identity (ReplicationFactor_tr env n)"
    "keeps_identity (KafkaTopicOption env opts)"
    by (simp_all add: NumberOfPartitions_def ReplicationFactor_tr_def KafkaTopicOption_def cm mv)
qed (auto simp: keeps_identity_def BootstrapServers_tr_def DefaultBrokerClass_def DefaultChannelImplementation_def
    EventingCoreLogging_def KafkaLogging_def split: if_splits dest: with_configmap_identity)

lemma keeps_identity_other_transformers:
  "keeps_identity NoOp" "keeps_identity (EventingFeatureFlags env fs)" "keeps_identity (EventingKafkaBrokerFeatureFlags env fs)"
  "keeps_identity (ConfigMapOverride config)" "keeps_identity (HPAReplicas name ns r)"
  "keeps_identity (Scale g name ns r)" "keeps_identity (InjectOwner ow)"
proof -
  show n: "keeps_identity NoOp" by (simp add: keeps_identity_def NoOp_def)
  show "keeps_identity (EventingFeatureFlags env fs)" "keeps_identity (EventingKafkaBrokerFeatureFlags env fs)"
    using n keeps_identity_configmap_transformers(2)
    by (auto simp: EventingFeatureFlags_def EventingKafkaBrokerFeatureFlags_def split: option.split)
  show "keeps_identity (ConfigMapOverride config)"
    by (auto simp: keeps_identity_def ConfigMapOverride_def split: if_splits option.splits dest: updateConfigMap_identity)
  show "keeps_identity (HPAReplicas name ns r)"
    by (auto simp: keeps_identity_def dest: HPAReplicas_identity)
  show "keeps_identity (Scale g name ns r)"
    by (auto simp: keeps_identity_def Scale_def simp del: SetNestedField.simps split: if_splits
        dest: SetNestedField_res_key [OF _ spec_path_identity])
  show "keeps_identity (InjectOwner ow)"
    by (auto simp: keeps_identity_def InjectOwner_def mf_InjectOwner_def split: if_splits)
qed

lemma keeps_identity_WorkloadsOverride: "WorkloadsOverride env ovs = Some f \<Longrightarrow> keeps_identity f"
  using WorkloadsOverride_identity by (auto simp: keeps_identity_def)

lemmas keeps_identity_transformers =
  keeps_identity_configmap_transformers keeps_identity_other_transformers keeps_identity_WorkloadsOverride

text \<open>The transformers the two parsers collect, in their order.\<close>

definition parser_transformers :: "goenv \<Rightarrow> event_mesh_spec \<Rightarrow> event_mesh_spec_overrides \<Rightarrow> transformer option list" where
  "parser_transformers env spec overrides =
     [Some (EventingCoreLogging env (LogLevel spec)), Some (DefaultChannelImplementation env (DefaultChannel spec)),
      Some (DefaultBrokerClass env (DefaultBroker spec) (DefaultChannel spec)), Some (EventingFeatureFlags env (Features spec)),
      Some (ConfigMapOverride (Config overrides)), WorkloadsOverride env (Workloads overrides),
      Some (KafkaLogging env (LogLevel spec)), Some (EventingKafkaBrokerFeatureFlags env (Features spec)),
      Some (BootstrapServers_tr env (BootstrapServers (Kafka spec))), Some (NumberOfPartitions env (NumPartitions (Kafka spec))),
      Some (ReplicationFactor_tr env (ReplicationFactor (Kafka spec))),
      Some (KafkaTopicOption env (TopicConfigOptions (Kafka spec)))]"

lemma keeps_identity_parser: "Some f \<in> set (parser_transformers env spec overrides) \<Longrightarrow> keeps_identity f"
  by (auto simp: parser_transformers_def keeps_identity_transformers)

interpretation parsed: identity_transformers "parser_transformers env spec overrides"
  for env spec overrides
  using keeps_identity_parser by unfold_locales (auto simp: keeps_identity_def)

section \<open>What the parsers collect\<close>

lemma empty_manifests_sel [simp]:
  "ToApply empty_manifests = empty_manifest" "ToDelete empty_manifests = empty_manifest"
  "PostInstall empty_manifests = empty_manifest" "Transformers empty_manifests = []"
  by (simp_all add: empty_manifests_def)

lemma Append_manifests_sel [simp]:
  "resources (ToApply (Append_manifests (Some k) m)) = resources (ToApply m) @ resources (ToApply k)"
  "resources (ToDelete (Append_manifests (Some k) m)) = resources (ToDelete m) @ resources (ToDelete k)"
  "resources (PostInstall (Append_manifests (Some k) m)) = resources (PostInstall m) @ resources (PostInstall k)"
  "Transformers (Append_manifests (Some k) m) = Transformers m @ Transformers k"
  "Append_manifests None m = m"
  by (simp_all add: Append_manifests_def AddToApply_def AddToDelete_def AddToPostInstall_def AddTransformers_def)

lemma Add_sel [simp]:
  "ToApply (AddToApply x m) = Append_mf (ToApply m) x" "ToDelete (AddToApply x m) = ToDelete m"
  "PostInstall (AddToApply x m) = PostInstall m" "Transformers (AddToApply x m) = Transformers m"
  "ToApply (AddToDelete x m) = ToApply m" "ToDelete (AddToDelete x m) = Append_mf (ToDelete m) x"
  "PostInstall (AddToDelete x m) = PostInstall m" "Transformers (AddToDelete x m) = Transformers m"
  "ToApply (AddToPostInstall x m) = ToApply m" "ToDelete (AddToPostInstall x m) = ToDelete m"
  "PostInstall (AddToPostInstall x m) = Append_mf (PostInstall m) x" "Transformers (AddToPostInstall x m) = Transformers m"
  "ToApply (AddTransformers t m) = ToApply m" "ToDelete (AddTransformers t m) = ToDelete m"
  "PostInstall (AddTransformers t m) = PostInstall m" "Transformers (AddTransformers t m) = Transformers m @ t"
  by (simp_all add: AddToApply_def AddToDelete_def AddToPostInstall_def AddTransformers_def)


definition encryption_disabled :: "event_mesh \<Rightarrow> bool" where
  "encryption_disabled em = (case GetEventingFeatureFlags (Features (em_Spec em)) of
     Ok flags \<Rightarrow> IsDisabledTransportEncryption flags | _ \<Rightarrow> False)"

definition cert_manager :: "parser_context \<Rightarrow> bool" where
  "cert_manager pc = is_ok (pc_crd pc ''certificates.cert-manager.io'')"

lemma GetEventingFeatureFlags_Ok: "\<exists>flags. GetEventingFeatureFlags fs = Ok flags"
  by (auto simp: GetEventingFeatureFlags_def NewFlagsConfigFromMap_def split: option.split)

lemma IsCertmanagerInstalled_Ok: "IsCertmanagerInstalled crd = Ok b \<Longrightarrow> b = is_ok (crd ''certificates.cert-manager.io'')"
  by (auto simp: IsCertmanagerInstalled_def is_ok_def split: res.splits if_splits)

lemma tls_manifests_Ok:
  assumes "tls_manifests pc em tls = Ok m"
  shows "resources (ToApply m) = (if encryption_disabled em then [] else resources tls) \<and>
    resources (ToDelete m) = (if encryption_disabled em \<and> cert_manager pc then resources tls else []) \<and>
    resources (PostInstall m) = [] \<and> Transformers m = [] \<and> (encryption_disabled em \<or> cert_manager pc)"
proof -
  obtain flags where f: "GetEventingFeatureFlags (Features (em_Spec em)) = Ok flags"
    using GetEventingFeatureFlags_Ok by blast
  from assms obtain b where "IsCertmanagerInstalled (pc_crd pc) = Ok b"
    by (auto simp: tls_manifests_def go_outcome)
  with assms f IsCertmanagerInstalled_Ok [of "pc_crd pc" b] show ?thesis
    by (auto simp: tls_manifests_def encryption_disabled_def cert_manager_def split: if_splits)
qed

text \<open>
  Claim C26. When the eventing parser succeeds, the overrides were given, and it collected: to
  apply, the core, in-memory channel and broker manifests in this order, followed by the TLS
  manifests exactly when transport encryption is not disabled (and then cert-manager is
  installed); to delete, the TLS manifests exactly when it is disabled and cert-manager is there;
  to apply after installation, the post-install manifests exactly on an upgrade of the core; and
  the six core transformers in the parser's order.
\<close>

theorem eventing_Parse_collects:
  assumes "eventing_Parse pc em = Ok m"
  shows "\<exists>overrides core imc mt tls upgrade. Overrides (em_Spec em) = Some overrides \<and>
    loadManifests pc ''eventing-latest'' [''eventing-crds.yaml'', ''eventing-core.yaml''] = Ok core \<and>
    loadManifests pc ''eventing-latest'' [''in-memory-channel.yaml''] = Ok imc \<and>
    loadManifests pc ''eventing-latest'' [''mt-channel-broker.yaml''] = Ok mt \<and>
    loadManifests pc ''eventing-latest'' [''eventing-tls-networking.yaml''] = Ok tls \<and>
    isUpgrade (env_namespace (pc_env pc)) (Append_mf empty_manifest core) (pc_deployments pc) = Ok upgrade \<and>
    resources (ToApply m) = resources core @ resources imc @ resources mt @
      (if encryption_disabled em then [] else resources tls) \<and>
    resources (ToDelete m) = (if encryption_disabled em \<and> cert_manager pc then resources tls else []) \<and>
    (if upgrade then \<exists>post. loadManifests pc ''eventing-latest'' [''eventing-post-install.yaml''] = Ok post \<and>
         resources (PostInstall m) = resources post
     else resources (PostInstall m) = []) \<and>
    (encryption_disabled em \<or> cert_manager pc) \<and>
    Transformers m = take 6 (parser_transformers (pc_env pc) (em_Spec em) overrides)"
proof -
  from assms obtain core imc mt tls post where
    parts: "eventingCoreManifests pc em = Ok core" "eventingIMCManifests pc em = Ok imc"
      "eventingMTBrokerManifests pc em = Ok mt" "eventingTLSManifests pc em = Ok tls"
      "eventingPostInstallManifests pc em core = Ok post"
    and m: "m = Append_manifests post (Append_manifests (Some tls) (Append_manifests (Some mt)
      (Append_manifests (Some imc) (Append_manifests (Some core) empty_manifests))))"
    by (auto simp: eventing_Parse_def go_outcome Let_def)
  from parts(1) obtain c o' where c: "loadManifests pc ''eventing-latest'' [''eventing-crds.yaml'', ''eventing-core.yaml''] = Ok c"
    "Overrides (em_Spec em) = Some o'" "ToApply core = Append_mf empty_manifest c" "ToDelete core = empty_manifest"
    "PostInstall core = empty_manifest" "Transformers core = take 6 (parser_transformers (pc_env pc) (em_Spec em) o')"
    by (auto simp: eventingCoreManifests_def loadEventingCoreManifests_def deref_overrides_def Let_def go_outcome
        parser_transformers_def split: option.splits)
  from parts(2) obtain i where i: "loadManifests pc ''eventing-latest'' [''in-memory-channel.yaml''] = Ok i"
    "imc = AddToApply i empty_manifests" by (auto simp: eventingIMCManifests_def go_outcome)
  from parts(3) obtain b where b: "loadManifests pc ''eventing-latest'' [''mt-channel-broker.yaml''] = Ok b"
    "mt = AddToApply b empty_manifests" by (auto simp: eventingMTBrokerManifests_def go_outcome)
  from parts(4) obtain t where t: "loadManifests pc ''eventing-latest'' [''eventing-tls-networking.yaml''] = Ok t"
    "tls_manifests pc em t = Ok tls" by (auto simp: eventingTLSManifests_def go_outcome)
  from parts(5) c(3) obtain upg where u: "isUpgrade (env_namespace (pc_env pc)) (Append_mf empty_manifest c) (pc_deployments pc) = Ok upg"
    and p: "if upg then \<exists>q. loadManifests pc ''eventing-latest'' [''eventing-post-install.yaml''] = Ok q \<and>
        post = Some (AddToPostInstall q empty_manifests) else post = None"
    by (auto simp: eventingPostInstallManifests_def go_outcome split: if_splits)
  note tm = tls_manifests_Ok [OF t(2)]
  have "resources (ToApply m) = resources c @ resources i @ resources b @ (if encryption_disabled em then [] else resources t)"
    using p tm by (cases upg) (auto simp: m c(3) i(2) b(2))
  moreover have "resources (ToDelete m) = (if encryption_disabled em \<and> cert_manager pc then resources t else [])"
    using p tm by (cases upg) (auto simp: m c(4) i(2) b(2))
  moreover have "if upg then \<exists>post. loadManifests pc ''eventing-latest'' [''eventing-post-install.yaml''] = Ok post \<and>
         resources (PostInstall m) = resources post
     else resources (PostInstall m) = []"
    using p tm by (cases upg) (auto simp: m c(5) i(2) b(2))
  moreover have "Transformers m = take 6 (parser_transformers (pc_env pc) (em_Spec em) o')"
    using p tm by (cases upg) (auto simp: m c(6) i(2) b(2))
  moreover have "encryption_disabled em \<or> cert_manager pc" using tm by blast
  ultimately show ?thesis
    using c(1,2) i(1) b(1) t(1) u by blast
qed

text \<open>
  Claim C39. An EventMesh without \<open>spec.overrides\<close>, which validation admits, makes the eventing
  parser panic on a nil pointer as soon as the core manifests are loaded.
\<close>

theorem eventing_Parse_nil_overrides_panics:
  assumes "Overrides (em_Spec em) = None" and "is_ok (loadEventingCoreManifests pc)"
  shows "eventing_Parse pc em = Panic ''invalid memory address or nil pointer dereference''"
  using assms by (cases "loadEventingCoreManifests pc")
    (simp_all add: eventing_Parse_def eventingCoreManifests_def deref_overrides_def)

definition sample_context :: parser_context where
  "sample_context = \<lparr>pc_env = sample_env, pc_ko_data = ''/var/run/ko'',
     pc_new_manifest = (\<lambda>path. Ok (if path = ''/var/run/ko/eventing-latest/eventing-core.yaml'' then sample_core
        else \<lparr>resources = [sample_configmap path []], lastAppliedConfigAnnotation = ''''\<rparr>)),
     pc_manifest_from = (\<lambda>_. Ok empty_manifest), pc_crd = (\<lambda>_. Err (APINotFound ''crd'')), pc_deployments = no_deployments\<rparr>"

definition mesh_without_overrides :: event_mesh where
  "mesh_without_overrides = SetDefaults id (sample_mesh\<lparr>em_Spec := (em_Spec sample_mesh)\<lparr>Overrides := None, Features := None\<rparr>\<rparr>)"

theorem eventing_Parse_nil_overrides_panics_witness:
  "Validate mesh_without_overrides = None \<and>
   eventing_Parse sample_context mesh_without_overrides = Panic ''invalid memory address or nil pointer dereference''"
proof -
  have a: "Overrides (em_Spec mesh_without_overrides) = None" "is_ok (loadEventingCoreManifests sample_context)"
    "Validate mesh_without_overrides = None" by code_simp+
  from eventing_Parse_nil_overrides_panics [OF a(1,2)] a(3) show ?thesis by simp
qed

definition sample_mesh_plain :: event_mesh where
  "sample_mesh_plain = SetDefaults id (sample_mesh\<lparr>em_Spec := (em_Spec sample_mesh)\<lparr>Features := None\<rparr>\<rparr>)"

theorem eventing_Parse_collects_witness:
  "\<exists>m. eventing_Parse sample_context sample_mesh_plain = Ok m \<and> length (Transformers m) = 6 \<and> resources (ToDelete m) = []"
proof -
  have "is_ok (eventing_Parse sample_context sample_mesh_plain)" by code_simp
  then obtain m where m: "eventing_Parse sample_context sample_mesh_plain = Ok m" by (auto simp: is_ok_def split: res.splits)
  have "\<not> cert_manager sample_context" by code_simp
  with eventing_Parse_collects [OF m] m show ?thesis by (auto simp: parser_transformers_def)
qed


text \<open>
  When the Kafka parser succeeds it collected its five core files followed by the
  rendered channel template (with the partition count and replication factor of the EventMesh in
  decimal), the TLS manifests by the same rule as the eventing parser, the post-install manifests
  exactly on an upgrade, and the six Kafka transformers in its order.
\<close>

theorem kafkaBroker_Parse_collects:
  assumes "kafkaBroker_Parse pc em = Ok m"
  shows "\<exists>core template tls upgrade. loadEventingKafkaBrokerCoreManifests pc = Ok core \<and>
    pc_manifest_from pc (kafka_channel_template (env_namespace (pc_env pc)) (Kafka (em_Spec em))) = Ok template \<and>
    loadManifests pc ''eventing-kafka-broker-latest'' [''eventing-kafka-tls-networking.yaml''] = Ok tls \<and>
    isUpgrade (env_namespace (pc_env pc)) (Append_mf (Append_mf empty_manifest core) template) (pc_deployments pc) = Ok upgrade \<and>
    resources (ToApply m) = resources core @ resources template @ (if encryption_disabled em then [] else resources tls) \<and>
    resources (ToDelete m) = (if encryption_disabled em \<and> cert_manager pc then resources tls else []) \<and>
    (if upgrade then \<exists>post. loadManifests pc ''eventing-kafka-broker-latest'' [''eventing-kafka-post-install.yaml''] = Ok post \<and>
         resources (PostInstall m) = resources post
     else resources (PostInstall m) = []) \<and>
    Transformers m = drop 6 (parser_transformers (pc_env pc) (em_Spec em) overrides)"
proof -
  from assms obtain core tls post where
    parts: "eventingKafkaBrokerCoreManifests pc em = Ok core" "eventingKafkaBrokerTLSManifests pc em = Ok tls"
      "eventingKafkaBrokerPostInstallManifests pc em core = Ok post"
    and m: "m = Append_manifests post (Append_manifests (Some tls) (Append_manifests (Some core) empty_manifests))"
    by (auto simp: kafkaBroker_Parse_def go_outcome Let_def)
  from parts(1) obtain c te where c: "loadEventingKafkaBrokerCoreManifests pc = Ok c"
    "eventingKafkaChannelTemplateConfigMap pc em = Ok te" "ToApply core = Append_mf (Append_mf empty_manifest c) te"
    "ToDelete core = empty_manifest" "PostInstall core = empty_manifest"
    "Transformers core = drop 6 (parser_transformers (pc_env pc) (em_Spec em) overrides)"
    by (auto simp: eventingKafkaBrokerCoreManifests_def Let_def go_outcome parser_transformers_def)
  have te: "pc_manifest_from pc (kafka_channel_template (env_namespace (pc_env pc)) (Kafka (em_Spec em))) = Ok te"
    using c(2) by (auto simp: eventingKafkaChannelTemplateConfigMap_def split: res.splits)
  from parts(2) obtain t where t: "loadManifests pc ''eventing-kafka-broker-latest'' [''eventing-kafka-tls-networking.yaml''] = Ok t"
    "tls_manifests pc em t = Ok tls" by (auto simp: eventingKafkaBrokerTLSManifests_def go_outcome)
  from parts(3) c(3) obtain upg where
    u: "isUpgrade (env_namespace (pc_env pc)) (Append_mf (Append_mf empty_manifest c) te) (pc_deployments pc) = Ok upg"
    and p: "if upg then \<exists>q. loadManifests pc ''eventing-kafka-broker-latest'' [''eventing-kafka-post-install.yaml''] = Ok q \<and>
        post = Some (AddToPostInstall q empty_manifests) else post = None"
    by (auto simp: eventingKafkaBrokerPostInstallManifests_def go_outcome split: if_splits)
  note tm = tls_manifests_Ok [OF t(2)]
  have "resources (ToApply m) = resources c @ resources te @ (if encryption_disabled em then [] else resources t)"
    using p tm by (cases upg) (auto simp: m c(3))
  moreover have "resources (ToDelete m) = (if encryption_disabled em \<and> cert_manager pc then resources t else [])"
    using p tm by (cases upg) (auto simp: m c(4))
  moreover have "if upg then \<exists>post. loadManifests pc ''eventing-kafka-broker-latest'' [''eventing-kafka-post-install.yaml''] = Ok post \<and>
         resources (PostInstall m) = resources post
     else resources (PostInstall m) = []"
    using p tm by (cases upg) (auto simp: m c(5))
  moreover have "Transformers m = drop 6 (parser_transformers (pc_env pc) (em_Spec em) overrides)"
    using p tm by (cases upg) (auto simp: m c(6))
  ultimately show ?thesis using c(1) te t(1) u by blast
qed

definition sample_kafka_context :: parser_context where
  "sample_kafka_context = sample_context\<lparr>pc_new_manifest := (\<lambda>path.
     Ok (if path = ''/var/run/ko/eventing-kafka-broker-latest/eventing-kafka-controller.yaml'' then sample_core
         else empty_manifest))\<rparr>"

theorem kafkaBroker_Parse_collects_witness:
  "\<exists>m. kafkaBroker_Parse sample_kafka_context sample_mesh_plain = Ok m \<and> length (Transformers m) = 6"
proof -
  have "is_ok (kafkaBroker_Parse sample_kafka_context sample_mesh_plain)" by code_simp
  then obtain m where m: "kafkaBroker_Parse sample_kafka_context sample_mesh_plain = Ok m"
    by (auto simp: is_ok_def split: res.splits)
  from kafkaBroker_Parse_collects [OF m, of "\<lparr>Config = [], Workloads = None\<rparr>"] m show ?thesis
    by (auto simp: parser_transformers_def)
qed

section \<open>Transforming\<close>

lemma Transform_stage_Ok:
  assumes "Transform_stage m em = Ok m'"
  obtains a d p where "Transform (ToApply m) (Transformers m) = Ok a" "Transform (ToDelete m) (Transformers m) = Ok d"
    "Transform (PostInstall m) (Transformers m) = Ok p" "m' = m\<lparr>ToApply := a, ToDelete := d, PostInstall := p\<rparr>"
  using assms
  by (auto simp: Transform_stage_def TransformToApply_def TransformToDelete_def TransformPostInstall_def go_outcome)

lemma Transform_resources:
  "Transform m fns = Ok m' \<Longrightarrow> list_all2 (\<lambda>u u'. transform_resource fns u = Ok u') (resources m) (resources m')"
  using map_res_Ok_length map_res_Ok_nth by (fastforce simp: Transform_Ok_iff list_all2_conv_all_nth)

section \<open>Installing\<close>

text \<open>
  The plan of an installation: the requests in the order in which they are sent. Deletions run
  from the end of the sorted list, so that dependants go before what they depend on.
\<close>

datatype plan_step = DeleteStep gobj | ApplyStep gobj

definition install_plan :: "slice_sort \<Rightarrow> manifest \<Rightarrow> manifests \<Rightarrow> plan_step list" where
  "install_plan srt base m =
     map DeleteStep (rev (resources base @ srt ByKindPriority (resources (ToDelete m)))) @
     map ApplyStep (resources base @ srt ByKindPriority (resources (ToApply m))) @
     map ApplyStep (resources base @ srt ByKindPriority (resources (PostInstall m)))"

definition run_step :: "'s mf_client \<Rightarrow> string \<Rightarrow> plan_step \<Rightarrow> 's \<Rightarrow> unit res \<times> 's" where
  "run_step cl ann st s = (case st of DeleteStep u \<Rightarrow> delete_mf cl u s | ApplyStep u \<Rightarrow> apply_mf cl ann u s)"

fun run_plan :: "'s mf_client \<Rightarrow> string \<Rightarrow> plan_step list \<Rightarrow> 's \<Rightarrow> unit res \<times> 's" where
  "run_plan cl ann [] s = (Ok (), s)"
| "run_plan cl ann (st # sts) s = (case run_step cl ann st s of
       (Ok _, s') \<Rightarrow> run_plan cl ann sts s'
     | r \<Rightarrow> r)"

lemma run_plan_append:
  "run_plan cl ann (xs @ ys) s = (case run_plan cl ann xs s of (Ok _, s') \<Rightarrow> run_plan cl ann ys s' | r \<Rightarrow> r)"
proof (induction xs arbitrary: s)
  case (Cons x xs)
  then show ?case by (simp split: prod.splits res.splits)
qed simp

lemma run_plan_each:
  "run_plan cl ann (map DeleteStep us) s = each_resource (delete_mf cl) us s"
  "run_plan cl ann (map ApplyStep us) s = each_resource (apply_mf cl ann) us s"
  by (induction us arbitrary: s) (simp_all add: run_step_def split: prod.split res.split)

lemma Append_mf_annotation [simp]: "lastAppliedConfigAnnotation (Append_mf a b) = lastAppliedConfigAnnotation a"
  by (simp add: Append_mf_def)

lemma Sort_manifests_sel [simp]:
  "resources (ToApply (Sort_manifests srt m)) = srt ByKindPriority (resources (ToApply m))"
  "resources (ToDelete (Sort_manifests srt m)) = srt ByKindPriority (resources (ToDelete m))"
  "resources (PostInstall (Sort_manifests srt m)) = srt ByKindPriority (resources (PostInstall m))"
  by (simp_all add: Sort_manifests_def Sort_mf_def)

text \<open>
  Claim C4. The install stage is the plan run until the first failing request: it leaves the
  cluster in the state the plan leaves, succeeds exactly when the plan does, and fails or panics
  exactly when the plan does. So nothing is applied before every deletion went through, and no
  post-install manifest before everything else is applied.
\<close>

theorem Install_runs_plan:
  "snd (Install srt cl base m s) = snd (run_plan cl (lastAppliedConfigAnnotation base) (install_plan srt base m) s) \<and>
   (is_ok (fst (Install srt cl base m s)) \<longleftrightarrow>
      is_ok (fst (run_plan cl (lastAppliedConfigAnnotation base) (install_plan srt base m) s))) \<and>
   (is_panic (fst (Install srt cl base m s)) \<longleftrightarrow>
      is_panic (fst (run_plan cl (lastAppliedConfigAnnotation base) (install_plan srt base m) s)))"
proof -
  let ?m = "Sort_manifests srt m" and ?ann = "lastAppliedConfigAnnotation base"
  obtain r1 s1 where d: "Delete_mf cl (Append_mf base (ToDelete ?m)) s = (r1, s1)" by fastforce
  obtain r2 s2 where a: "Apply_mf cl (Append_mf base (ToApply ?m)) s1 = (r2, s2)" by fastforce
  obtain r3 s3 where p: "Apply_mf cl (Append_mf base (PostInstall ?m)) s2 = (r3, s3)" by fastforce
  have plan: "run_plan cl ?ann (install_plan srt base m) s = (case r1 of Ok _ \<Rightarrow> (case r2 of Ok _ \<Rightarrow> (r3, s3)
      | _ \<Rightarrow> (r2, s2)) | _ \<Rightarrow> (r1, s1))"
    using d a p unfolding install_plan_def Delete_mf_def Apply_mf_def
    by (simp add: run_plan_append run_plan_each del: rev_append map_append split: res.split)
  show ?thesis
    unfolding plan Install_def Let_def wrap_fst_def d fst_conv snd_conv
    by (cases r1; cases r2; cases r3) (simp_all add: a p)
qed

text \<open>
  In the plan, resources are applied in the order of the kind list and deleted in the
  opposite order (for a base manifest without resources, which is what the controller passes, and
  a sort that keeps the contract of \<open>sort.Slice\<close>), and no resource is lost or added.
\<close>

theorem install_plan_kind_order:
  assumes "sort_ok srt" and "resources base = []"
  shows "\<exists>dels apps posts. install_plan srt base m = map DeleteStep dels @ map ApplyStep apps @ map ApplyStep posts \<and>
    mset dels = mset (resources (ToDelete m)) \<and> mset apps = mset (resources (ToApply m)) \<and>
    mset posts = mset (resources (PostInstall m)) \<and>
    sorted (map (\<lambda>u. getKindPosition (GetKind u)) (rev dels)) \<and>
    sorted (map (\<lambda>u. getKindPosition (GetKind u)) apps) \<and> sorted (map (\<lambda>u. getKindPosition (GetKind u)) posts)"
proof -
  have "\<not> ByKindPriority v u \<Longrightarrow> getKindPosition (GetKind u) \<le> getKindPosition (GetKind v)" for u v
    by (auto simp: ByKindPriority_def Let_def split: if_splits)
  then have srt: "sorted (map (\<lambda>u. getKindPosition (GetKind u)) (srt ByKindPriority xs))" for xs
    using assms(1) unfolding sort_ok_def slice_sorted_def sorted_wrt_map
    by (metis (mono_tags, lifting) sorted_wrt_mono_rel)
  show ?thesis
    using assms srt unfolding install_plan_def sort_ok_def
    by (intro exI [of _ "rev (srt ByKindPriority (resources (ToDelete m)))"]
        exI [of _ "srt ByKindPriority (resources (ToApply m))"]
        exI [of _ "srt ByKindPriority (resources (PostInstall m))"]) simp
qed

theorem install_plan_kind_order_witness:
  "\<exists>dels apps posts. install_plan sort_slice empty_manifest
      (AddToApply sample_core (AddToApply \<lparr>resources = [sample_hpa], lastAppliedConfigAnnotation = ''''\<rparr> empty_manifests)) =
      map DeleteStep dels @ map ApplyStep apps @ map ApplyStep posts \<and>
    sorted (map (\<lambda>u. getKindPosition (GetKind u)) apps)"
  using install_plan_kind_order [OF sort_ok_sort_slice resources_empty,
    of "AddToApply sample_core (AddToApply \<lparr>resources = [sample_hpa], lastAppliedConfigAnnotation = ''''\<rparr> empty_manifests)"]
  by blast

section \<open>The transformers of a parsed collection\<close>

lemma post_install_transformers:
  "eventingPostInstallManifests pc em core = Ok (Some p) \<Longrightarrow> Transformers p = []"
  "eventingKafkaBrokerPostInstallManifests pc em core = Ok (Some p) \<Longrightarrow> Transformers p = []"
  by (auto simp: eventingPostInstallManifests_def eventingKafkaBrokerPostInstallManifests_def go_outcome split: if_splits)

lemma Append_manifests_transformers:
  "Transformers (Append_manifests n m) = Transformers m @ (case n of None \<Rightarrow> [] | Some k \<Rightarrow> Transformers k)"
  by (cases n) simp_all

lemma eventing_Parse_transformers:
  assumes "eventing_Parse pc em = Ok m"
  obtains overrides where "Overrides (em_Spec em) = Some overrides"
    "Transformers m = take 6 (parser_transformers (pc_env pc) (em_Spec em) overrides)"
proof -
  from assms obtain core imc mt tls post where
    parts: "eventingCoreManifests pc em = Ok core" "eventingIMCManifests pc em = Ok imc"
      "eventingMTBrokerManifests pc em = Ok mt" "eventingTLSManifests pc em = Ok tls"
      "eventingPostInstallManifests pc em core = Ok post"
    and m: "m = Append_manifests post (Append_manifests (Some tls) (Append_manifests (Some mt)
      (Append_manifests (Some imc) (Append_manifests (Some core) empty_manifests))))"
    by (auto simp: eventing_Parse_def go_outcome Let_def)
  have none: "Transformers imc = []" "Transformers mt = []" "Transformers tls = []"
    "(case post of None \<Rightarrow> [] | Some k \<Rightarrow> Transformers k) = []"
    using parts(2-5) tls_manifests_Ok post_install_transformers(1)
    by (auto simp: eventingIMCManifests_def eventingMTBrokerManifests_def eventingTLSManifests_def go_outcome split: option.split)
  from parts(1) obtain o' where "Overrides (em_Spec em) = Some o'"
    "Transformers core = take 6 (parser_transformers (pc_env pc) (em_Spec em) o')"
    by (auto simp: eventingCoreManifests_def deref_overrides_def Let_def go_outcome parser_transformers_def split: option.splits)
  with none show ?thesis by (intro that) (simp_all add: m Append_manifests_transformers)
qed

lemma kafkaBroker_Parse_transformers:
  assumes "kafkaBroker_Parse pc em = Ok m"
  shows "Transformers m = drop 6 (parser_transformers (pc_env pc) (em_Spec em) overrides)"
proof -
  from assms obtain core tls post where
    parts: "eventingKafkaBrokerCoreManifests pc em = Ok core" "eventingKafkaBrokerTLSManifests pc em = Ok tls"
      "eventingKafkaBrokerPostInstallManifests pc em core = Ok post"
    and m: "m = Append_manifests post (Append_manifests (Some tls) (Append_manifests (Some core) empty_manifests))"
    by (auto simp: kafkaBroker_Parse_def go_outcome Let_def)
  have "Transformers tls = []" "(case post of None \<Rightarrow> [] | Some k \<Rightarrow> Transformers k) = []"
    using parts(2,3) tls_manifests_Ok post_install_transformers(2)
    by (auto simp: eventingKafkaBrokerTLSManifests_def go_outcome split: option.split)
  moreover from parts(1) have "Transformers core = drop 6 (parser_transformers (pc_env pc) (em_Spec em) overrides)"
    by (auto simp: eventingKafkaBrokerCoreManifests_def Let_def go_outcome parser_transformers_def)
  ultimately show ?thesis by (simp add: m Append_manifests_transformers)
qed

end
