(* ===== verification/Dynamic_Informer.thy ===== *)
theory Dynamic_Informer
  imports Go_Prelude
begin

text \<open>
  \<^verbatim>\<open>pkg/dynamicinformer\<close>: an informer that is set up when its CRD appears and stopped when the CRD
  goes away. The operations are functions on the informer's fields and the contexts it created;
  waiting for the CRD may last forever, and so may waiting for the cache to sync, so
  \<open>SetupInformerAndRegisterEventHandler\<close> has an optional result and \<open>None\<close> is a call that never
  returns. A step relation splits the operations at the
  accesses to shared memory (the mutex and the two atomic pointers), for what other goroutines can
  see in between. Theorems: when \<open>Setup\<close> returns, that the operations are runs of the step
  relation, and what a lister loaded at any moment is.
\<close>

section \<open>State\<close>

text \<open>
  \<open>di_cancel\<close> and \<open>di_lister\<close> are the atomic pointers; \<open>None\<close> is nil. A cancel function is named
  by the context it cancels, contexts by numbers in the order of creation. The stored lister is an
  interface value, which may itself be nil. The last four fields are the process around the
  informer: the contexts whose informer got the event handler, whose factory was started, whose
  cache synced, and which were cancelled.
\<close>

record 'l dyn =
  di_cancel :: "nat option"
  di_lister :: "'l option option"
  di_crdName :: string
  ctx_next :: nat
  ctx_handlers :: "nat list"
  ctx_started :: "nat list"
  ctx_synced :: "nat list"
  ctx_cancelled :: "nat list"

text \<open>
  The surroundings of a call of \<open>Setup\<close>: \<open>se_factory c\<close> is the lister of the informer that
  \<^verbatim>\<open>factoryFunc\<close> makes for context \<open>c\<close>, \<open>se_ticks n\<close> is what the \<open>n\<close>-th turn of the first polling
  loop finds (the context is done, or the answer of the API server for the CRD, \<open>None\<close> being
  success), \<open>se_syncs n\<close> what the \<open>n\<close>-th turn of \<^verbatim>\<open>cache.WaitForCacheSync\<close> finds (the context is done,
  or what \<^verbatim>\<open>HasSynced\<close> answers).
\<close>

datatype poll_tick = CtxDone go_error | CrdGet "go_error option"

datatype sync_tick = SyncStopped | SyncChecked bool

record 'l setup_env =
  se_factory :: "nat \<Rightarrow> 'l option"
  se_ticks :: "nat \<Rightarrow> poll_tick"
  se_syncs :: "nat \<Rightarrow> sync_tick"

section \<open>Operations\<close>

definition New_informer :: "string \<Rightarrow> 'l dyn" where
  "New_informer crdName = \<lparr>di_cancel = None, di_lister = None, di_crdName = crdName, ctx_next = 0,
     ctx_handlers = [], ctx_started = [], ctx_synced = [], ctx_cancelled = []\<rparr>"

definition isCRDInstalled :: "string \<Rightarrow> go_error option \<Rightarrow> bool res" where
  "isCRDInstalled crdName got = (case got of
       Some e \<Rightarrow> Err (ErrWrap (''failed to get '' @ crdName @ '' CRD'') e)
     | None \<Rightarrow> Ok True)"

text \<open>\<^verbatim>\<open>wait.PollUntilContextCancel\<close> with the condition of \<open>Setup\<close>, which turns an error into "not yet".\<close>

definition poll_condition :: "string \<Rightarrow> go_error option \<Rightarrow> bool" where
  "poll_condition crdName got = (case isCRDInstalled crdName got of Ok b \<Rightarrow> b | _ \<Rightarrow> False)"

partial_function (option) PollUntilContextCancel ::
    "string \<Rightarrow> (nat \<Rightarrow> poll_tick) \<Rightarrow> nat \<Rightarrow> unit res option" where
  "PollUntilContextCancel crdName ticks n = (case ticks n of
       CtxDone e \<Rightarrow> Some (Err e)
     | CrdGet got \<Rightarrow> if poll_condition crdName got then Some (Ok ())
                     else PollUntilContextCancel crdName ticks (Suc n))"

declare PollUntilContextCancel.simps [code]

text \<open>
  \<^verbatim>\<open>cache.WaitForCacheSync\<close> of the one informer: it polls \<^verbatim>\<open>HasSynced\<close> until that is true or the
  context is done, again without a limit.
\<close>

partial_function (option) cache_WaitForCacheSync :: "(nat \<Rightarrow> sync_tick) \<Rightarrow> nat \<Rightarrow> bool option" where
  "cache_WaitForCacheSync syncs n = (case syncs n of
       SyncStopped \<Rightarrow> Some False
     | SyncChecked synced \<Rightarrow> if synced then Some True else cache_WaitForCacheSync syncs (Suc n))"

declare cache_WaitForCacheSync.simps [code]

definition cancel_ctx :: "nat \<Rightarrow> 'l dyn \<Rightarrow> 'l dyn" where
  "cancel_ctx c di = di\<lparr>ctx_cancelled := c # ctx_cancelled di\<rparr>"

definition SetupInformerAndRegisterEventHandler :: "'l setup_env \<Rightarrow> 'l dyn \<Rightarrow> (unit res \<times> 'l dyn) option" where
  "SetupInformerAndRegisterEventHandler e di =
     (if di_cancel di \<noteq> None then Some (Ok (), di)
      else
        (let c = ctx_next di;
             di1 = di\<lparr>ctx_next := Suc c, ctx_handlers := c # ctx_handlers di\<rparr>
         in case PollUntilContextCancel (di_crdName di) (se_ticks e) 0 of
              None \<Rightarrow> None
            | Some (Err er) \<Rightarrow> Some (Err (ErrWrap ''could not check if CRD is installed'' er), cancel_ctx c di1)
            | Some (Panic p) \<Rightarrow> Some (Panic p, di1)
            | Some (Ok _) \<Rightarrow>
                (let di2 = di1\<lparr>ctx_started := c # ctx_started di1\<rparr>
                 in case cache_WaitForCacheSync (se_syncs e) 0 of
                      None \<Rightarrow> None
                    | Some False \<Rightarrow> Some (Err (ErrMsg ''failed to sync dynamic informer''), cancel_ctx c di2)
                    | Some True \<Rightarrow> Some (Ok (), di2\<lparr>ctx_synced := c # ctx_synced di2,
                           di_lister := Some (se_factory e c), di_cancel := Some c\<rparr>))))"

definition Stop :: "'l dyn \<Rightarrow> 'l dyn" where
  "Stop di = (case di_cancel di of
       None \<Rightarrow> di
     | Some c \<Rightarrow> (cancel_ctx c di)\<lparr>di_lister := None, di_cancel := None\<rparr>)"

text \<open>\<^verbatim>\<open>Lister().Load()\<close>\<close>

definition Lister_Load :: "'l dyn \<Rightarrow> 'l option option" where
  "Lister_Load di = di_lister di"

section \<open>When Setup returns\<close>

definition poll_ends :: "string \<Rightarrow> poll_tick \<Rightarrow> bool" where
  "poll_ends crdName t = (case t of CtxDone _ \<Rightarrow> True | CrdGet got \<Rightarrow> poll_condition crdName got)"

definition poll_result :: "poll_tick \<Rightarrow> unit res" where
  "poll_result t = (case t of CtxDone e \<Rightarrow> Err e | CrdGet _ \<Rightarrow> Ok ())"

lemma poll_condition_iff [simp]: "poll_condition crdName got \<longleftrightarrow> got = None"
  by (simp add: poll_condition_def isCRDInstalled_def split: option.split)

lemma poll_ends_iff: "poll_ends crdName t \<longleftrightarrow> (\<exists>e. t = CtxDone e) \<or> t = CrdGet None"
  by (cases t) (auto simp: poll_ends_def)

lemma not_poll_ends_iff: "\<not> poll_ends crdName t \<longleftrightarrow> (\<exists>er. t = CrdGet (Some er))"
  by (cases t) (auto simp: poll_ends_def)

definition sync_ends :: "sync_tick \<Rightarrow> bool" where
  "sync_ends t = (case t of SyncStopped \<Rightarrow> True | SyncChecked synced \<Rightarrow> synced)"

lemma sync_ends_iff: "sync_ends t \<longleftrightarrow> t = SyncStopped \<or> t = SyncChecked True"
  by (cases t) (auto simp: sync_ends_def)

text \<open>
  Both loops have the same shape: a turn either ends the loop or passes on to the next turn. A loop
  of that shape returns what its first ending turn says.
\<close>

lemma first_turn:
  assumes stop: "\<And>n. ends n \<Longrightarrow> loop n = Some (r n)" and go: "\<And>n. \<not> ends n \<Longrightarrow> loop n = loop (Suc n)"
    and "ends (n + k)" "\<And>j. j < k \<Longrightarrow> \<not> ends (n + j)"
  shows "loop n = Some (r (n + k))"
  using assms(3,4)
proof (induction k arbitrary: n)
  case 0
  then show ?case using stop [of n] by simp
next
  case (Suc k)
  from Suc.prems(2) [of 0] have "loop n = loop (Suc n)" using go by simp
  moreover have "loop (Suc n) = Some (r (Suc n + k))"
  proof (rule Suc.IH)
    show "ends (Suc n + k)" using Suc.prems(1) by simp
    show "\<not> ends (Suc n + j)" if "j < k" for j
      using Suc.prems(2) [of "Suc j"] that by simp
  qed
  ultimately show ?case by simp
qed

lemma first_ending: "ends n \<Longrightarrow> \<exists>k. ends k \<and> (\<forall>j<k. \<not> ends (j :: nat))"
  using exists_least_iff by blast

lemma Poll_first:
  assumes "poll_ends crdName (ticks k)" "\<forall>j<k. \<not> poll_ends crdName (ticks j)"
  shows "PollUntilContextCancel crdName ticks 0 = Some (poll_result (ticks k))"
proof -
  have "PollUntilContextCancel crdName ticks 0 = Some (poll_result (ticks (0 + k)))"
  proof (rule first_turn [where ends = "\<lambda>n. poll_ends crdName (ticks n)"])
    show "PollUntilContextCancel crdName ticks n = Some (poll_result (ticks n))" if "poll_ends crdName (ticks n)" for n
      using that by (subst PollUntilContextCancel.simps) (auto simp: poll_ends_iff poll_result_def)
    show "PollUntilContextCancel crdName ticks n = PollUntilContextCancel crdName ticks (Suc n)"
      if "\<not> poll_ends crdName (ticks n)" for n
      using that by (subst PollUntilContextCancel.simps) (auto simp: poll_ends_iff split: poll_tick.split)
  qed (use assms in auto)
  then show ?thesis by simp
qed

lemma Wait_first:
  assumes "sync_ends (syncs k)" "\<forall>j<k. \<not> sync_ends (syncs j)"
  shows "cache_WaitForCacheSync syncs 0 = Some (syncs k = SyncChecked True)"
proof -
  have "cache_WaitForCacheSync syncs 0 = Some (syncs (0 + k) = SyncChecked True)"
  proof (rule first_turn [where ends = "\<lambda>n. sync_ends (syncs n)" and r = "\<lambda>n. syncs n = SyncChecked True"])
    show "cache_WaitForCacheSync syncs n = Some (syncs n = SyncChecked True)" if "sync_ends (syncs n)" for n
      using that by (subst cache_WaitForCacheSync.simps) (auto simp: sync_ends_iff)
    show "cache_WaitForCacheSync syncs n = cache_WaitForCacheSync syncs (Suc n)" if "\<not> sync_ends (syncs n)" for n
      using that by (subst cache_WaitForCacheSync.simps) (auto simp: sync_ends_iff split: sync_tick.split)
  qed (use assms in auto)
  then show ?thesis by simp
qed

text \<open>A polling loop that returned has seen an end.\<close>

lemma Poll_returned:
  assumes "PollUntilContextCancel crdName ticks n = Some r"
  shows "\<exists>k\<ge>n. poll_ends crdName (ticks k)"
proof (rule PollUntilContextCancel.raw_induct [OF _ assms, where P = "\<lambda>crdName ticks n _. \<exists>k\<ge>n. poll_ends crdName (ticks k)"])
  fix poll crdName ticks n and r :: "unit res"
  assume IH: "\<And>crdName ticks n r. poll crdName ticks n = Some r \<Longrightarrow> \<exists>k\<ge>n. poll_ends crdName (ticks k)"
    and body: "(case ticks n of CtxDone e \<Rightarrow> Some (Err e)
      | CrdGet got \<Rightarrow> if poll_condition crdName got then Some (Ok ()) else poll crdName ticks (Suc n)) = Some r"
  show "\<exists>k\<ge>n. poll_ends crdName (ticks k)"
  proof (cases "poll_ends crdName (ticks n)")
    case False
    with body have "poll crdName ticks (Suc n) = Some r"
      by (auto simp: poll_ends_iff split: poll_tick.splits if_splits)
    from IH [OF this] show ?thesis by (meson Suc_leD)
  qed blast
qed

lemma Wait_returned:
  assumes "cache_WaitForCacheSync syncs n = Some r"
  shows "\<exists>k\<ge>n. sync_ends (syncs k)"
proof (rule cache_WaitForCacheSync.raw_induct [OF _ assms, where P = "\<lambda>syncs n _. \<exists>k\<ge>n. sync_ends (syncs k)"])
  fix wait_sync syncs n r
  assume IH: "\<And>syncs n r. wait_sync syncs n = Some r \<Longrightarrow> \<exists>k\<ge>n. sync_ends (syncs k)"
    and body: "(case syncs n of SyncStopped \<Rightarrow> Some False
      | SyncChecked synced \<Rightarrow> if synced then Some True else wait_sync syncs (Suc n)) = Some r"
  show "\<exists>k\<ge>n. sync_ends (syncs k)"
  proof (cases "sync_ends (syncs n)")
    case False
    with body have "wait_sync syncs (Suc n) = Some r"
      by (auto simp: sync_ends_iff split: sync_tick.splits if_splits)
    from IH [OF this] show ?thesis by (meson Suc_leD)
  qed blast
qed

lemma Wait_returns_iff: "cache_WaitForCacheSync syncs 0 \<noteq> None \<longleftrightarrow> (\<exists>n. sync_ends (syncs n))"
proof
  assume "\<exists>n. sync_ends (syncs n)"
  then obtain k where "sync_ends (syncs k)" "\<forall>j<k. \<not> sync_ends (syncs j)"
    using first_ending [where ends = "\<lambda>n. sync_ends (syncs n)"] by blast
  then show "cache_WaitForCacheSync syncs 0 \<noteq> None" by (simp add: Wait_first)
qed (use Wait_returned in blast)

lemma Poll_iff:
  "PollUntilContextCancel crdName ticks 0 = Some r \<longleftrightarrow>
     (\<exists>k. poll_ends crdName (ticks k) \<and> (\<forall>j<k. \<not> poll_ends crdName (ticks j)) \<and> r = poll_result (ticks k))"
proof
  assume r: "PollUntilContextCancel crdName ticks 0 = Some r"
  then obtain k where "poll_ends crdName (ticks k)" "\<forall>j<k. \<not> poll_ends crdName (ticks j)"
    using first_ending [where ends = "\<lambda>n. poll_ends crdName (ticks n)"] Poll_returned by blast
  moreover from this r have "r = poll_result (ticks k)" by (simp add: Poll_first)
  ultimately show "\<exists>k. poll_ends crdName (ticks k) \<and> (\<forall>j<k. \<not> poll_ends crdName (ticks j)) \<and> r = poll_result (ticks k)"
    by blast
qed (auto simp: Poll_first)

lemma Poll_outcome:
  assumes "PollUntilContextCancel crdName ticks 0 = Some r"
  shows "r = Ok () \<or> (\<exists>e. r = Err e)"
proof -
  obtain k where "r = poll_result (ticks k)" using assms Poll_iff [of crdName ticks] by blast
  then show ?thesis by (simp add: poll_result_def split: poll_tick.split)
qed

lemma Poll_ok_iff:
  "PollUntilContextCancel crdName ticks 0 = Some (Ok ()) \<longleftrightarrow>
     (\<exists>k. ticks k = CrdGet None \<and> (\<forall>j<k. \<exists>er. ticks j = CrdGet (Some er)))"
  unfolding Poll_iff not_poll_ends_iff
  by (intro ex_cong1) (auto simp: poll_ends_iff poll_result_def split: poll_tick.splits)

lemma Poll_err_iff:
  "PollUntilContextCancel crdName ticks 0 = Some (Err er) \<longleftrightarrow>
     (\<exists>k. ticks k = CtxDone er \<and> (\<forall>j<k. \<exists>er. ticks j = CrdGet (Some er)))"
  unfolding Poll_iff not_poll_ends_iff
  by (intro ex_cong1) (auto simp: poll_ends_iff poll_result_def split: poll_tick.splits)

text \<open>
  Claim C19. Setting up an informer returns exactly in three cases: it is set up already; the context
  is done before any turn of the first polling loop finds the CRD; or the CRD is found first, and then
  some turn of the wait for the cache finds the context done or the cache synced. A CRD that cannot be
  read, for whatever reason, is waited for without limit, and so is a cache that does not sync: the
  call then never returns, and the mutex it holds is never released.
\<close>

theorem Setup_returns_iff:
  "(\<exists>r. SetupInformerAndRegisterEventHandler e di = Some r) \<longleftrightarrow>
     (\<exists>c. di_cancel di = Some c) \<or>
     (\<exists>n. (\<exists>er. se_ticks e n = CtxDone er) \<and> (\<forall>k<n. \<exists>er. se_ticks e k = CrdGet (Some er))) \<or>
     (\<exists>n. se_ticks e n = CrdGet None \<and> (\<forall>k<n. \<exists>er. se_ticks e k = CrdGet (Some er))) \<and>
       (\<exists>m. se_syncs e m = SyncStopped \<or> se_syncs e m = SyncChecked True)"
proof -
  let ?poll = "PollUntilContextCancel (di_crdName di) (se_ticks e) 0"
  have "?poll \<noteq> Some (Panic p)" for p using Poll_outcome [of "di_crdName di" "se_ticks e"] by auto
  then have "(\<exists>r. SetupInformerAndRegisterEventHandler e di = Some r) \<longleftrightarrow>
      (\<exists>c. di_cancel di = Some c) \<or> (\<exists>er. ?poll = Some (Err er)) \<or>
      ?poll = Some (Ok ()) \<and> cache_WaitForCacheSync (se_syncs e) 0 \<noteq> None"
    by (auto simp: SetupInformerAndRegisterEventHandler_def Let_def split: option.split res.split bool.split)
  then show ?thesis
    unfolding Poll_ok_iff Poll_err_iff Wait_returns_iff sync_ends_iff by blast
qed

section \<open>The operations between calls\<close>

text \<open>
  Between two calls the informer is consistent: it is stopped and shows no lister, or it shows the
  lister of a context that is started, synced and not cancelled; and no other started context is
  alive. \<open>f\<close> are the listers of the contexts.
\<close>

definition contexts_ok :: "'l dyn \<Rightarrow> bool" where
  "contexts_ok di \<longleftrightarrow>
     (\<forall>c\<in>set (ctx_handlers di) \<union> set (ctx_started di) \<union> set (ctx_synced di) \<union> set (ctx_cancelled di). c < ctx_next di)"

definition di_ok :: "(nat \<Rightarrow> 'l option) \<Rightarrow> 'l dyn \<Rightarrow> bool" where
  "di_ok f di \<longleftrightarrow> contexts_ok di \<and>
     (case di_cancel di of
        None \<Rightarrow> di_lister di = None
      | Some c \<Rightarrow> di_lister di = Some (f c) \<and> c \<in> set (ctx_synced di) \<and> c \<in> set (ctx_started di) \<and>
                  c \<notin> set (ctx_cancelled di)) \<and>
     (\<forall>c\<in>set (ctx_started di). c \<in> set (ctx_cancelled di) \<or> di_cancel di = Some c)"

lemma New_ok: "di_ok f (New_informer crdName)"
  by (simp add: di_ok_def contexts_ok_def New_informer_def)

text \<open>The stages of a context \<open>c\<close> that \<open>Setup\<close> creates: created, started, serving.\<close>

definition created :: "'l dyn \<Rightarrow> 'l dyn" where
  "created di = di\<lparr>ctx_next := Suc (ctx_next di), ctx_handlers := ctx_next di # ctx_handlers di\<rparr>"

definition started :: "nat \<Rightarrow> 'l dyn \<Rightarrow> 'l dyn" where
  "started c di = di\<lparr>ctx_started := c # ctx_started di\<rparr>"

definition serving :: "nat \<Rightarrow> 'l option \<Rightarrow> 'l dyn \<Rightarrow> 'l dyn" where
  "serving c l di = di\<lparr>ctx_synced := c # ctx_synced di, di_lister := Some l, di_cancel := Some c\<rparr>"

lemmas stage_defs = created_def started_def serving_def cancel_ctx_def

lemma Setup_cases:
  assumes "SetupInformerAndRegisterEventHandler e di = Some (r, di')" and "di_cancel di = None"
  shows "(\<exists>er. r = Err er) \<and> di' = cancel_ctx (ctx_next di) (created di) \<or>
     (\<exists>er. r = Err er) \<and> di' = cancel_ctx (ctx_next di) (started (ctx_next di) (created di)) \<or>
     r = Ok () \<and> di' = serving (ctx_next di) (se_factory e (ctx_next di)) (started (ctx_next di) (created di))"
proof -
  have "PollUntilContextCancel (di_crdName di) (se_ticks e) 0 \<noteq> Some (Panic p)" for p
    using Poll_outcome [of "di_crdName di" "se_ticks e"] by auto
  then show ?thesis
    using assms
    by (auto simp: SetupInformerAndRegisterEventHandler_def Let_def stage_defs split: option.splits res.splits if_splits bool.splits)
qed

lemma Setup_ok:
  assumes ok: "di_ok (se_factory e) di" and s: "SetupInformerAndRegisterEventHandler e di = Some (r, di')"
  shows "di_ok (se_factory e) di'"
proof (cases "di_cancel di = None")
  case True
  have "\<forall>c\<in>set (ctx_cancelled di) \<union> set (ctx_started di). c < ctx_next di"
    using ok by (auto simp: di_ok_def contexts_ok_def)
  with Setup_cases [OF s True] ok True show ?thesis
    by (elim disjE conjE exE) (auto simp: di_ok_def contexts_ok_def stage_defs less_SucI)
next
  case False
  with s ok show ?thesis by (auto simp: SetupInformerAndRegisterEventHandler_def)
qed

lemma Stop_ok: "di_ok f di \<Longrightarrow> di_ok f (Stop di)"
  by (auto simp: di_ok_def contexts_ok_def Stop_def cancel_ctx_def split: option.splits)

lemma Load_Stop: "di_ok f di \<Longrightarrow> Lister_Load (Stop di) = None"
  by (auto simp: Lister_Load_def Stop_def di_ok_def split: option.splits)

section \<open>Between the steps\<close>

text \<open>
  One goroutine (the CRD informer's notification loop) calls \<open>Setup\<close> and \<open>Stop\<close>, one after the other;
  \<open>di_pc\<close> is where it stands. \<open>cf_mu\<close> tells whether it holds the mutex. Any number of other
  goroutines call \<^verbatim>\<open>Lister()\<close>, which needs the mutex, and load the pointer at any later moment. The
  parent of the contexts is the operator's own, which is done only when the process shuts down. A
  shutdown during \<open>Setup\<close> is one of the reasons for the steps \<open>poll_failed\<close> and \<open>sync_failed\<close>; a
  shutdown at any other moment ends the informers from outside and is not a step.
\<close>

datatype di_pc = Idle | Locked | Polling nat | Waiting nat | Synced nat | ListerStored nat
  | StopLoaded nat | StopCancelled nat | StopCleared nat

record 'l conf =
  cf_di :: "'l dyn"
  cf_pc :: di_pc
  cf_mu :: bool

inductive di_step :: "(nat \<Rightarrow> 'l option) \<Rightarrow> 'l conf \<Rightarrow> 'l conf \<Rightarrow> bool" for f :: "nat \<Rightarrow> 'l option" where
  lock: "di_step f \<lparr>cf_di = di, cf_pc = Idle, cf_mu = False\<rparr> \<lparr>cf_di = di, cf_pc = Locked, cf_mu = True\<rparr>"
| skip: "di_cancel di \<noteq> None \<Longrightarrow>
    di_step f \<lparr>cf_di = di, cf_pc = Locked, cf_mu = True\<rparr> \<lparr>cf_di = di, cf_pc = Idle, cf_mu = False\<rparr>"
| create: "di_cancel di = None \<Longrightarrow> c = ctx_next di \<Longrightarrow>
    di_step f \<lparr>cf_di = di, cf_pc = Locked, cf_mu = True\<rparr>
      \<lparr>cf_di = di\<lparr>ctx_next := Suc c, ctx_handlers := c # ctx_handlers di\<rparr>, cf_pc = Polling c, cf_mu = True\<rparr>"
| poll_failed:
    "di_step f \<lparr>cf_di = di, cf_pc = Polling c, cf_mu = True\<rparr> \<lparr>cf_di = cancel_ctx c di, cf_pc = Idle, cf_mu = False\<rparr>"
| start:
    "di_step f \<lparr>cf_di = di, cf_pc = Polling c, cf_mu = True\<rparr>
      \<lparr>cf_di = di\<lparr>ctx_started := c # ctx_started di\<rparr>, cf_pc = Waiting c, cf_mu = True\<rparr>"
| sync_failed:
    "di_step f \<lparr>cf_di = di, cf_pc = Waiting c, cf_mu = True\<rparr> \<lparr>cf_di = cancel_ctx c di, cf_pc = Idle, cf_mu = False\<rparr>"
| synced:
    "di_step f \<lparr>cf_di = di, cf_pc = Waiting c, cf_mu = True\<rparr>
      \<lparr>cf_di = di\<lparr>ctx_synced := c # ctx_synced di\<rparr>, cf_pc = Synced c, cf_mu = True\<rparr>"
| store_lister:
    "di_step f \<lparr>cf_di = di, cf_pc = Synced c, cf_mu = True\<rparr>
      \<lparr>cf_di = di\<lparr>di_lister := Some (f c)\<rparr>, cf_pc = ListerStored c, cf_mu = True\<rparr>"
| store_cancel:
    "di_step f \<lparr>cf_di = di, cf_pc = ListerStored c, cf_mu = True\<rparr>
      \<lparr>cf_di = di\<lparr>di_cancel := Some c\<rparr>, cf_pc = Idle, cf_mu = False\<rparr>"
| stop_load: "di_cancel di = Some c \<Longrightarrow>
    di_step f \<lparr>cf_di = di, cf_pc = Idle, cf_mu = False\<rparr> \<lparr>cf_di = di, cf_pc = StopLoaded c, cf_mu = False\<rparr>"
| stop_cancel:
    "di_step f \<lparr>cf_di = di, cf_pc = StopLoaded c, cf_mu = False\<rparr>
      \<lparr>cf_di = cancel_ctx c di, cf_pc = StopCancelled c, cf_mu = False\<rparr>"
| stop_lister:
    "di_step f \<lparr>cf_di = di, cf_pc = StopCancelled c, cf_mu = False\<rparr>
      \<lparr>cf_di = di\<lparr>di_lister := None\<rparr>, cf_pc = StopCleared c, cf_mu = False\<rparr>"
| stop_done:
    "di_step f \<lparr>cf_di = di, cf_pc = StopCleared c, cf_mu = False\<rparr>
      \<lparr>cf_di = di\<lparr>di_cancel := None\<rparr>, cf_pc = Idle, cf_mu = False\<rparr>"

abbreviation quiet :: "'l dyn \<Rightarrow> 'l conf" where
  "quiet di \<equiv> \<lparr>cf_di = di, cf_pc = Idle, cf_mu = False\<rparr>"

declare di_step.intros [intro]

text \<open>A finished call is a run of the step relation that ends where the function ends.\<close>

lemmas di_run = converse_rtranclp_into_rtranclp [of "di_step f" for f]

lemma Setup_runs:
  assumes s: "SetupInformerAndRegisterEventHandler e di = Some (r, di')"
  shows "(di_step (se_factory e))\<^sup>*\<^sup>* (quiet di) (quiet di')"
proof (cases "di_cancel di = None")
  case True
  define c f di1 where "c = ctx_next di" and "f = se_factory e" and "di1 = created di"
  have "di_step f \<lparr>cf_di = di, cf_pc = Locked, cf_mu = True\<rparr> \<lparr>cf_di = di1, cf_pc = Polling c, cf_mu = True\<rparr>"
    using create [OF True refl, of f] by (simp add: c_def di1_def created_def)
  then have polling: "(di_step f)\<^sup>*\<^sup>* (quiet di) \<lparr>cf_di = di1, cf_pc = Polling c, cf_mu = True\<rparr>"
    by (intro di_run [OF lock]) (rule r_into_rtranclp)
  have "di_step f \<lparr>cf_di = di1, cf_pc = Polling c, cf_mu = True\<rparr> \<lparr>cf_di = started c di1, cf_pc = Waiting c, cf_mu = True\<rparr>"
    unfolding started_def by (rule start)
  with polling have waiting: "(di_step f)\<^sup>*\<^sup>* (quiet di) \<lparr>cf_di = started c di1, cf_pc = Waiting c, cf_mu = True\<rparr>"
    by (rule rtranclp.rtrancl_into_rtrancl)
  have "(di_step f)\<^sup>*\<^sup>* \<lparr>cf_di = d, cf_pc = Waiting c, cf_mu = True\<rparr> (quiet (serving c (f c) d))" for d
    unfolding serving_def
    by (rule di_run [OF synced], rule di_run [OF store_lister], rule di_run [OF store_cancel]) simp
  with waiting have "(di_step f)\<^sup>*\<^sup>* (quiet di) (quiet (serving c (f c) (started c di1)))"
    by (rule rtranclp_trans)
  then show ?thesis
    using Setup_cases [OF s True] rtranclp.rtrancl_into_rtrancl [OF polling poll_failed]
      rtranclp.rtrancl_into_rtrancl [OF waiting sync_failed]
    unfolding c_def [symmetric] f_def [symmetric] di1_def [symmetric] by blast
next
  case False
  with s have "di' = di" by (auto simp: SetupInformerAndRegisterEventHandler_def)
  with False show ?thesis by (auto intro!: di_run [OF lock] di_run [OF skip])
qed

lemma Stop_runs: "(di_step f)\<^sup>*\<^sup>* (quiet di) (quiet (Stop di))"
proof (cases "di_cancel di")
  case (Some c)
  have "(di_step f)\<^sup>*\<^sup>* (quiet di) (quiet ((cancel_ctx c di)\<lparr>di_lister := None, di_cancel := None\<rparr>))"
    by (rule di_run [OF stop_load [OF Some]], rule di_run [OF stop_cancel], rule di_run [OF stop_lister],
        rule di_run [OF stop_done]) simp
  with Some show ?thesis by (simp add: Stop_def)
qed (simp add: Stop_def)

section \<open>What other goroutines see\<close>

definition all_dead_but :: "nat set \<Rightarrow> 'l dyn \<Rightarrow> bool" where
  "all_dead_but S di \<longleftrightarrow> (\<forall>c\<in>set (ctx_started di). c \<in> set (ctx_cancelled di) \<or> c \<in> S)"

definition live :: "nat \<Rightarrow> 'l dyn \<Rightarrow> bool" where
  "live c di \<longleftrightarrow> c \<in> set (ctx_started di) \<and> c \<notin> set (ctx_cancelled di) \<and> all_dead_but {c} di"

definition pc_inv :: "(nat \<Rightarrow> 'l option) \<Rightarrow> di_pc \<Rightarrow> 'l dyn \<Rightarrow> bool" where
  "pc_inv f pc di = (case pc of
       Idle \<Rightarrow> di_ok f di
     | Locked \<Rightarrow> di_ok f di
     | Polling c \<Rightarrow> di_ok f di \<and> di_cancel di = None \<and> c < ctx_next di \<and>
         c \<notin> set (ctx_started di) \<and> c \<notin> set (ctx_cancelled di)
     | Waiting c \<Rightarrow> di_cancel di = None \<and> di_lister di = None \<and> live c di
     | Synced c \<Rightarrow> di_cancel di = None \<and> di_lister di = None \<and> live c di \<and> c \<in> set (ctx_synced di)
     | ListerStored c \<Rightarrow> di_cancel di = None \<and> di_lister di = Some (f c) \<and> live c di \<and> c \<in> set (ctx_synced di)
     | StopLoaded c \<Rightarrow> di_ok f di \<and> di_cancel di = Some c
     | StopCancelled c \<Rightarrow> di_cancel di = Some c \<and> di_lister di = Some (f c) \<and> c \<in> set (ctx_started di) \<and>
         c \<in> set (ctx_synced di) \<and> all_dead_but {} di
     | StopCleared c \<Rightarrow> di_lister di = None \<and> all_dead_but {} di)"

definition in_setup :: "di_pc \<Rightarrow> bool" where
  "in_setup pc = (case pc of Locked \<Rightarrow> True | Polling _ \<Rightarrow> True | Waiting _ \<Rightarrow> True | Synced _ \<Rightarrow> True
     | ListerStored _ \<Rightarrow> True | _ \<Rightarrow> False)"

definition conf_inv :: "(nat \<Rightarrow> 'l option) \<Rightarrow> 'l conf \<Rightarrow> bool" where
  "conf_inv f cf \<longleftrightarrow> contexts_ok (cf_di cf) \<and> pc_inv f (cf_pc cf) (cf_di cf) \<and> (cf_mu cf \<longleftrightarrow> in_setup (cf_pc cf))"

lemma di_step_contexts_ok:
  assumes "di_step f cf cf'" "conf_inv f cf"
  shows "contexts_ok (cf_di cf')"
  using assms
proof (induction rule: di_step.induct)
  case (stop_cancel di c)
  then show ?case by (auto simp: conf_inv_def pc_inv_def contexts_ok_def di_ok_def cancel_ctx_def)
qed (auto simp: conf_inv_def contexts_ok_def pc_inv_def live_def cancel_ctx_def less_SucI)

lemma di_step_inv:
  assumes "di_step f cf cf'" "conf_inv f cf"
  shows "conf_inv f cf'"
proof -
  note c = di_step_contexts_ok [OF assms]
  from assms have "pc_inv f (cf_pc cf') (cf_di cf') \<and> (cf_mu cf' \<longleftrightarrow> in_setup (cf_pc cf'))"
  proof (induction rule: di_step.induct)
    case (create di c)
    then show ?case by (auto simp: conf_inv_def pc_inv_def in_setup_def di_ok_def contexts_ok_def less_SucI split: option.splits)
  next
    case (store_cancel di c)
    then show ?case by (auto simp: conf_inv_def pc_inv_def in_setup_def di_ok_def contexts_ok_def live_def all_dead_but_def)
  next
    case (stop_cancel di c)
    then show ?case by (auto simp: conf_inv_def pc_inv_def in_setup_def di_ok_def all_dead_but_def cancel_ctx_def)
  qed (auto simp: conf_inv_def pc_inv_def in_setup_def di_ok_def contexts_ok_def live_def all_dead_but_def cancel_ctx_def)
  with c show ?thesis by (simp add: conf_inv_def)
qed

lemma reachable_inv:
  assumes "(di_step f)\<^sup>*\<^sup>* (quiet (New_informer crdName)) cf"
  shows "conf_inv f cf"
  using assms
proof (induction rule: rtranclp_induct)
  case base
  show ?case using New_ok [of f crdName]
    by (simp add: conf_inv_def pc_inv_def in_setup_def di_ok_def)
qed (rule di_step_inv)

text \<open>
  Claim C9. At every moment, also in the middle of \<open>Setup\<close> and \<open>Stop\<close>: a lister that another goroutine
  loads belongs to an informer that was started and whose cache has synced, and that is still
  running, as long as the operator is, unless \<open>Stop\<close> is just between cancelling it and clearing the pointer; between calls no
  informer is running whose cancel function is not stored, so none leaks; and exactly during \<open>Setup\<close>
  the mutex that \<^verbatim>\<open>Lister()\<close> needs is taken.
\<close>

theorem loaded_lister_serves:
  assumes "(di_step f)\<^sup>*\<^sup>* (quiet (New_informer crdName)) cf"
  shows "(Lister_Load (cf_di cf) = Some l \<longrightarrow>
      (\<exists>c. l = f c \<and> c \<in> set (ctx_started (cf_di cf)) \<and> c \<in> set (ctx_synced (cf_di cf)) \<and>
        (c \<in> set (ctx_cancelled (cf_di cf)) \<longrightarrow> cf_pc cf = StopCancelled c))) \<and>
    (cf_pc cf = Idle \<longrightarrow>
      (\<forall>c\<in>set (ctx_started (cf_di cf)). c \<in> set (ctx_cancelled (cf_di cf)) \<or> di_cancel (cf_di cf) = Some c)) \<and>
    (cf_mu cf \<longleftrightarrow> in_setup (cf_pc cf))"
proof -
  from reachable_inv [OF assms] have i: "pc_inv f (cf_pc cf) (cf_di cf)" and m: "cf_mu cf \<longleftrightarrow> in_setup (cf_pc cf)"
    by (simp_all add: conf_inv_def)
  have "\<exists>c. l = f c \<and> c \<in> set (ctx_started (cf_di cf)) \<and> c \<in> set (ctx_synced (cf_di cf)) \<and>
        (c \<in> set (ctx_cancelled (cf_di cf)) \<longrightarrow> cf_pc cf = StopCancelled c)" if "Lister_Load (cf_di cf) = Some l"
    using i that
    by (cases "cf_pc cf"; cases "di_cancel (cf_di cf)")
      (auto simp: pc_inv_def Lister_Load_def di_ok_def live_def)
  moreover have "\<forall>c\<in>set (ctx_started (cf_di cf)). c \<in> set (ctx_cancelled (cf_di cf)) \<or> di_cancel (cf_di cf) = Some c"
    if "cf_pc cf = Idle"
    using i that by (simp add: pc_inv_def di_ok_def)
  ultimately show ?thesis using m by blast
qed

text \<open>A first set-up, and the CRD removed again.\<close>

definition sample_setup :: "string setup_env" where
  "sample_setup = \<lparr>se_factory = (\<lambda>c. Some ''lister''), se_ticks = (\<lambda>n. if n < 2 then CrdGet (Some (APINotFound ''crd'')) else CrdGet None),
     se_syncs = (\<lambda>n. SyncChecked (1 \<le> n))\<rparr>"

text \<open>It returns; with a cache that never syncs it does not.\<close>

theorem Setup_returns_iff_witness:
  "(\<exists>r. SetupInformerAndRegisterEventHandler sample_setup (New_informer ''brokers.eventing.knative.dev'') = Some r) \<and>
   SetupInformerAndRegisterEventHandler (sample_setup\<lparr>se_syncs := \<lambda>n. SyncChecked False\<rparr>)
     (New_informer ''brokers.eventing.knative.dev'') = None"
proof
  have "se_ticks sample_setup 2 = CrdGet None" "\<forall>k<2. \<exists>er. se_ticks sample_setup k = CrdGet (Some er)"
    "se_syncs sample_setup 1 = SyncChecked True"
    by (simp_all add: sample_setup_def)
  then show "\<exists>r. SetupInformerAndRegisterEventHandler sample_setup (New_informer ''brokers.eventing.knative.dev'') = Some r"
    unfolding Setup_returns_iff by blast
  have "\<nexists>er. se_ticks sample_setup n = CtxDone er" for n by (simp add: sample_setup_def)
  then have "\<nexists>r. SetupInformerAndRegisterEventHandler (sample_setup\<lparr>se_syncs := \<lambda>n. SyncChecked False\<rparr>)
      (New_informer ''brokers.eventing.knative.dev'') = Some r"
    unfolding Setup_returns_iff by (simp add: New_informer_def)
  then show "SetupInformerAndRegisterEventHandler (sample_setup\<lparr>se_syncs := \<lambda>n. SyncChecked False\<rparr>)
      (New_informer ''brokers.eventing.knative.dev'') = None"
    by (simp only: not_ex not_Some_eq)
qed

definition sample_dyn :: "string dyn" where
  "sample_dyn = (case SetupInformerAndRegisterEventHandler sample_setup (New_informer ''brokers.eventing.knative.dev'') of
     Some (_, di) \<Rightarrow> di | None \<Rightarrow> New_informer '''')"

lemma sample_dyn_setup:
  "SetupInformerAndRegisterEventHandler sample_setup (New_informer ''brokers.eventing.knative.dev'') = Some (Ok (), sample_dyn)"
  by code_simp

theorem loaded_lister_serves_witness:
  "(di_step (se_factory sample_setup))\<^sup>*\<^sup>* (quiet (New_informer ''brokers.eventing.knative.dev'')) (quiet sample_dyn) \<and>
   Lister_Load sample_dyn = Some (Some ''lister'') \<and>
   (\<exists>c. c \<in> set (ctx_synced sample_dyn) \<and> c \<notin> set (ctx_cancelled sample_dyn))"
proof -
  note r = Setup_runs [OF sample_dyn_setup]
  have l: "Lister_Load sample_dyn = Some (Some ''lister'')" by code_simp
  from loaded_lister_serves [OF r, of "Some ''lister''"] l r show ?thesis by auto
qed

text \<open>
  Claim C10. What \<open>SetupInformerAndRegisterEventHandler\<close> and \<open>Stop\<close> compute is an execution of the
  atomic steps from a state with the mutex free to a state with the mutex free, and both keep the
  consistency of the informer: stopped without a lister, or serving the lister of the one context that
  is started, synced and not cancelled.
\<close>

theorem operations_refine_steps:
  assumes "SetupInformerAndRegisterEventHandler e di = Some (r, di')" and "di_ok (se_factory e) di"
  shows "(di_step (se_factory e))\<^sup>*\<^sup>* (quiet di) (quiet di') \<and> di_ok (se_factory e) di' \<and>
    (di_step (se_factory e))\<^sup>*\<^sup>* (quiet di') (quiet (Stop di')) \<and> di_ok (se_factory e) (Stop di') \<and>
    Lister_Load (Stop di') = None"
proof -
  have ok: "di_ok (se_factory e) di'" using Setup_ok [OF assms(2,1)] .
  then show ?thesis using Setup_runs [OF assms(1)] Stop_runs Stop_ok Load_Stop by blast
qed

theorem operations_refine_steps_witness:
  "(di_step (se_factory sample_setup))\<^sup>*\<^sup>* (quiet (New_informer ''brokers.eventing.knative.dev'')) (quiet sample_dyn) \<and>
   Lister_Load (Stop sample_dyn) = None"
  using operations_refine_steps [OF sample_dyn_setup New_ok] by blast

section \<open>The contract for users of the lister\<close>

text \<open>What the scaler relies on: after a stop there is no lister, and stopping keeps the informer consistent.\<close>

locale lister_provider =
  fixes load :: "'s \<Rightarrow> 'l option option" and stop :: "'s \<Rightarrow> 's" and ok :: "'s \<Rightarrow> bool"
  assumes stop_ok: "ok s \<Longrightarrow> ok (stop s)"
    and load_stop: "ok s \<Longrightarrow> load (stop s) = None"
begin

lemma load_stop_stop: "ok s \<Longrightarrow> load (stop (stop s)) = None"
  using stop_ok load_stop by blast

end

interpretation dynamic: lister_provider Lister_Load Stop "di_ok f" for f
  by unfold_locales (simp_all add: Stop_ok Load_Stop)

end
