(* ===== verification/Scaler.thy ===== *)
theory Scaler
  imports Dynamic_Informer
begin

text \<open>
  \<^verbatim>\<open>pkg/scaler\<close>: the scale targets of the in-memory channel and the multi-tenant broker, the handler
  of CRD events that sets up and stops the two dynamic informers, and the handler of resource
  events that asks for a reconcile when the first resource of a kind appears or the last one goes.
  An informer is a step relation over its cache and its queue of undelivered notifications, with
  the operator's reconcile runs interleaved. Theorems: what the scale targets are, that a scale-down
  is never lost, that a scale-up can be lost, and that handlers panic on tombstones.
\<close>

section \<open>Scale targets\<close>

definition brokerCRDName :: string where
  "brokerCRDName = ''brokers.eventing.knative.dev''"

definition imcCRDName :: string where
  "imcCRDName = ''inmemorychannels.messaging.knative.dev''"

definition BrokerClassAnnotationKey :: string where
  "BrokerClassAnnotationKey = ''eventing.knative.dev/broker.class''"

definition MTChannelBrokerClassValue :: string where
  "MTChannelBrokerClassValue = ''MTChannelBasedBroker''"

text \<open>What the scaler reads of a Broker and of an InMemoryChannel.\<close>

record broker =
  br_Namespace :: string
  br_Name :: string
  br_Annotations :: "string gomap"

record channel =
  ch_Namespace :: string
  ch_Name :: string

definition broker_class :: "broker \<Rightarrow> string" where
  "broker_class b = get_or '''' (br_Annotations b) BrokerClassAnnotationKey"

text \<open>\<open>'i\<close> and \<open>'b\<close> are the two kinds of listers; what they list is a parameter of the operations.\<close>

record ('i, 'b) scaler =
  dynamicIMCInformer :: "'i dyn"
  dynamicBrokerInfomer :: "'b dyn"

definition New_scaler :: "('i, 'b) scaler" where
  "New_scaler = \<lparr>dynamicIMCInformer = New_informer imcCRDName, dynamicBrokerInfomer = New_informer brokerCRDName\<rparr>"

definition IMCScaleTarget :: "('i \<Rightarrow> channel list res) \<Rightarrow> ('i, 'b) scaler \<Rightarrow> 64 word res" where
  "IMCScaleTarget List s = (case Lister_Load (dynamicIMCInformer s) of
       None \<Rightarrow> Ok 0
     | Some None \<Rightarrow> Ok 0
     | Some (Some imcLister) \<Rightarrow>
         bind_res (wrap_err ''failed to list all InMemoryChannels'' (List imcLister)) (\<lambda>imcs.
         Ok (if length imcs = 0 then 0 else 1)))"

fun mt_brokers :: "broker list \<Rightarrow> broker list \<Rightarrow> broker list" where
  "mt_brokers acc [] = acc"
| "mt_brokers acc (b # bs) =
     mt_brokers (if broker_class b = MTChannelBrokerClassValue then acc @ [b] else acc) bs"

definition MTBrokerScaleTarget :: "('b \<Rightarrow> broker list res) \<Rightarrow> ('i, 'b) scaler \<Rightarrow> 64 word res" where
  "MTBrokerScaleTarget List s = (case Lister_Load (dynamicBrokerInfomer s) of
       None \<Rightarrow> Ok 0
     | Some None \<Rightarrow> Ok 0
     | Some (Some brokerLister) \<Rightarrow>
         bind_res (wrap_err ''failed to list all Brokers'' (List brokerLister)) (\<lambda>brokers.
         Ok (if length (mt_brokers [] brokers) = 0 then 0 else 1)))"

section \<open>CRD events\<close>

text \<open>
  An object in a notification: the type the handler expects, the \<^verbatim>\<open>cache.DeletedFinalStateUnknown\<close>
  that a missed deletion leaves, or anything else. A CRD is its name. The errors of \<open>Setup\<close> are
  only logged; \<open>None\<close> is a handler that does not return.
\<close>

datatype 'o informer_obj = Obj 'o | Tombstone string 'o | OtherObj

definition CRD_AddFunc :: "'i setup_env \<Rightarrow> 'b setup_env \<Rightarrow> string informer_obj \<Rightarrow> ('i, 'b) scaler \<Rightarrow> ('i, 'b) scaler option" where
  "CRD_AddFunc ei eb obj s = (case obj of
       Obj crd \<Rightarrow>
         (if crd = brokerCRDName then
            map_option (\<lambda>(err, di). s\<lparr>dynamicBrokerInfomer := di\<rparr>)
              (SetupInformerAndRegisterEventHandler eb (dynamicBrokerInfomer s))
          else if crd = imcCRDName then
            map_option (\<lambda>(err, di). s\<lparr>dynamicIMCInformer := di\<rparr>)
              (SetupInformerAndRegisterEventHandler ei (dynamicIMCInformer s))
          else Some s)
     | _ \<Rightarrow> Some s)"

definition CRD_UpdateFunc :: "('i, 'b) scaler \<Rightarrow> ('i, 'b) scaler" where
  "CRD_UpdateFunc s = s"

definition CRD_DeleteFunc :: "string informer_obj \<Rightarrow> ('i, 'b) scaler \<Rightarrow> ('i, 'b) scaler" where
  "CRD_DeleteFunc obj s = (case obj of
       Obj crd \<Rightarrow>
         (if crd = brokerCRDName then s\<lparr>dynamicBrokerInfomer := Stop (dynamicBrokerInfomer s)\<rparr>
          else if crd = imcCRDName then s\<lparr>dynamicIMCInformer := Stop (dynamicIMCInformer s)\<rparr>
          else s)
     | _ \<Rightarrow> s)"

section \<open>Resource events\<close>

text \<open>The loop over the listed objects; \<^verbatim>\<open>newObj.(*T)\<close> panics when the object is of another type.\<close>

definition type_assert :: "'o informer_obj \<Rightarrow> 'o res" where
  "type_assert obj = (case obj of Obj x \<Rightarrow> Ok x | _ \<Rightarrow> Panic ''interface conversion'')"

fun filter_loop :: "('o \<Rightarrow> 'o \<Rightarrow> bool) \<Rightarrow> 'o informer_obj \<Rightarrow> 'o list \<Rightarrow> 'o list \<Rightarrow> 'o list res" where
  "filter_loop p changed acc [] = Ok acc"
| "filter_loop p changed acc (x # xs) =
     bind_res (type_assert changed) (\<lambda>ch. filter_loop p changed (if p ch x then acc @ [x] else acc) xs)"

definition filter_objs :: "('o \<Rightarrow> 'o \<Rightarrow> bool) option \<Rightarrow> 'o informer_obj \<Rightarrow> 'o list \<Rightarrow> 'o list res" where
  "filter_objs filterFunc changed objs = (case filterFunc of
       None \<Rightarrow> Ok objs
     | Some p \<Rightarrow> filter_loop p changed [] objs)"

text \<open>The handlers; the result lists the objects \<^verbatim>\<open>resyncFunc\<close> is called with.\<close>

definition handler_AddFunc ::
    "('o \<Rightarrow> 'o \<Rightarrow> bool) option \<Rightarrow> bool \<Rightarrow> 'o list res \<Rightarrow> 'o informer_obj \<Rightarrow> 'o informer_obj list res" where
  "handler_AddFunc filterFunc hasSynced listed newObj =
     (if hasSynced then
        (case listed of
           Err e \<Rightarrow> Ok []
         | Panic p \<Rightarrow> Panic p
         | Ok objs \<Rightarrow> bind_res (filter_objs filterFunc newObj objs) (\<lambda>filteredObjs.
             Ok (if length filteredObjs = 1 then [newObj] else [])))
      else Ok [])"

definition handler_UpdateFunc :: "'o informer_obj list res" where
  "handler_UpdateFunc = Ok []"

definition handler_DeleteFunc ::
    "('o \<Rightarrow> 'o \<Rightarrow> bool) option \<Rightarrow> 'o list res \<Rightarrow> 'o informer_obj \<Rightarrow> 'o informer_obj list res" where
  "handler_DeleteFunc filterFunc listed deletedObj =
     (case listed of
        Err e \<Rightarrow> Ok []
      | Panic p \<Rightarrow> Panic p
      | Ok objs \<Rightarrow> bind_res (filter_objs filterFunc deletedObj objs) (\<lambda>filteredObjs.
          Ok (if length filteredObjs = 0 then [deletedObj] else [])))"

definition brokerClassFilter :: "broker \<Rightarrow> broker \<Rightarrow> bool" where
  "brokerClassFilter changedBroker foundBroker = (broker_class changedBroker = broker_class foundBroker)"

section \<open>What the targets are\<close>

lemma mt_brokers_filter: "mt_brokers acc bs = acc @ filter (\<lambda>b. broker_class b = MTChannelBrokerClassValue) bs"
  by (induction bs arbitrary: acc) auto

text \<open>
  The scale targets are 0 or 1. The in-memory channel's is 1 exactly when its lister is
  there and lists a channel; the multi-tenant broker's exactly when its lister is there and lists a
  Broker of class \<^verbatim>\<open>MTChannelBasedBroker\<close>. An error of the lister is passed on, and without a lister
  the targets are 0.
\<close>

theorem scale_targets:
  "IMCScaleTarget li s = (case Lister_Load (dynamicIMCInformer s) of
       Some (Some l) \<Rightarrow> (case li l of
           Ok cs \<Rightarrow> Ok (if cs \<noteq> [] then 1 else 0)
         | Err e \<Rightarrow> Err (ErrWrap ''failed to list all InMemoryChannels'' e)
         | Panic p \<Rightarrow> Panic p)
     | _ \<Rightarrow> Ok 0) \<and>
   MTBrokerScaleTarget lb s = (case Lister_Load (dynamicBrokerInfomer s) of
       Some (Some l) \<Rightarrow> (case lb l of
           Ok bs \<Rightarrow> Ok (if \<exists>b\<in>set bs. get_or '''' (br_Annotations b) ''eventing.knative.dev/broker.class'' = ''MTChannelBasedBroker''
                        then 1 else 0)
         | Err e \<Rightarrow> Err (ErrWrap ''failed to list all Brokers'' e)
         | Panic p \<Rightarrow> Panic p)
     | _ \<Rightarrow> Ok 0)"
  by (auto simp: IMCScaleTarget_def MTBrokerScaleTarget_def mt_brokers_filter filter_empty_conv broker_class_def
      MTChannelBrokerClassValue_def BrokerClassAnnotationKey_def split: option.split res.split)

context lister_provider
begin

lemma imc_target_after_stop:
  assumes "ok s" "Lister_Load (dynamicIMCInformer sc) = load (stop s)"
  shows "IMCScaleTarget li sc = Ok 0"
  using assms load_stop by (simp add: IMCScaleTarget_def)

lemma broker_target_after_stop:
  assumes "ok s" "Lister_Load (dynamicBrokerInfomer sc) = load (stop s)"
  shows "MTBrokerScaleTarget lb sc = Ok 0"
  using assms load_stop by (simp add: MTBrokerScaleTarget_def)

end

section \<open>CRD events keep the informers consistent\<close>

text \<open>Listers are named by their contexts' factories.\<close>

definition scaler_ok :: "(nat \<Rightarrow> 'i option) \<Rightarrow> (nat \<Rightarrow> 'b option) \<Rightarrow> ('i, 'b) scaler \<Rightarrow> bool" where
  "scaler_ok fi fb s \<longleftrightarrow> di_ok fi (dynamicIMCInformer s) \<and> di_ok fb (dynamicBrokerInfomer s)"

lemma New_scaler_ok: "scaler_ok fi fb New_scaler"
  by (simp add: scaler_ok_def New_scaler_def New_ok)

lemma CRD_AddFunc_ok:
  assumes "scaler_ok (se_factory ei) (se_factory eb) s" and "CRD_AddFunc ei eb obj s = Some s'"
  shows "scaler_ok (se_factory ei) (se_factory eb) s'"
  using assms Setup_ok [of ei "dynamicIMCInformer s"] Setup_ok [of eb "dynamicBrokerInfomer s"]
  by (auto simp: scaler_ok_def CRD_AddFunc_def split: informer_obj.splits if_splits)

lemma CRD_DeleteFunc_ok: "scaler_ok fi fb s \<Longrightarrow> scaler_ok fi fb (CRD_DeleteFunc obj s)"
  by (auto simp: scaler_ok_def CRD_DeleteFunc_def Stop_ok split: informer_obj.splits)

datatype crd_event = CrdAdded "string informer_obj" | CrdUpdated | CrdDeleted "string informer_obj"

text \<open>A sequence of CRD events, as the notification loop handles them; \<open>None\<close> when a handler hangs.\<close>

fun crd_events :: "'i setup_env \<Rightarrow> 'b setup_env \<Rightarrow> crd_event list \<Rightarrow> ('i, 'b) scaler \<Rightarrow> ('i, 'b) scaler option" where
  "crd_events ei eb [] s = Some s"
| "crd_events ei eb (CrdAdded obj # evs) s = Option.bind (CRD_AddFunc ei eb obj s) (crd_events ei eb evs)"
| "crd_events ei eb (CrdUpdated # evs) s = crd_events ei eb evs (CRD_UpdateFunc s)"
| "crd_events ei eb (CrdDeleted obj # evs) s = crd_events ei eb evs (CRD_DeleteFunc obj s)"

lemma crd_events_ok:
  "scaler_ok (se_factory ei) (se_factory eb) s \<Longrightarrow> crd_events ei eb evs s = Some s' \<Longrightarrow>
     scaler_ok (se_factory ei) (se_factory eb) s'"
proof (induction ei eb evs s rule: crd_events.induct)
  case (2 ei eb obj evs s)
  then obtain s1 where s1: "CRD_AddFunc ei eb obj s = Some s1" "crd_events ei eb evs s1 = Some s'"
    by (auto simp: bind_eq_Some_conv)
  with 2 CRD_AddFunc_ok [OF _ s1(1)] show ?case by simp
qed (auto simp: CRD_DeleteFunc_ok CRD_UpdateFunc_def)

text \<open>
  After any sequence of CRD events, deleting a CRD sets the scale target of its resources
  to 0, whatever the listers had listed, and leaves the target of the other resources as it is; a
  deletion that arrives as a tombstone changes nothing.
\<close>

theorem crd_deletion_scales_down:
  assumes run: "crd_events ei eb evs New_scaler = Some s"
  shows "IMCScaleTarget li (CRD_DeleteFunc (Obj imcCRDName) s) = Ok 0 \<and>
    MTBrokerScaleTarget lb (CRD_DeleteFunc (Obj imcCRDName) s) = MTBrokerScaleTarget lb s \<and>
    MTBrokerScaleTarget lb (CRD_DeleteFunc (Obj brokerCRDName) s) = Ok 0 \<and>
    IMCScaleTarget li (CRD_DeleteFunc (Obj brokerCRDName) s) = IMCScaleTarget li s \<and>
    CRD_DeleteFunc (Tombstone key crd) s = s"
proof -
  have ok: "di_ok (se_factory ei) (dynamicIMCInformer s)" "di_ok (se_factory eb) (dynamicBrokerInfomer s)"
    using crd_events_ok [OF New_scaler_ok run] by (simp_all add: scaler_ok_def)
  have i: "IMCScaleTarget li (CRD_DeleteFunc (Obj imcCRDName) s) = Ok 0"
    by (rule dynamic.imc_target_after_stop [OF ok(1)])
      (simp add: CRD_DeleteFunc_def imcCRDName_def brokerCRDName_def)
  have b: "MTBrokerScaleTarget lb (CRD_DeleteFunc (Obj brokerCRDName) s) = Ok 0"
    by (rule dynamic.broker_target_after_stop [OF ok(2)]) (simp add: CRD_DeleteFunc_def)
  show ?thesis
    using i b by (simp add: CRD_DeleteFunc_def IMCScaleTarget_def MTBrokerScaleTarget_def imcCRDName_def brokerCRDName_def)
qed

definition sample_scaler :: "(string, string) scaler" where
  "sample_scaler = the (crd_events sample_setup sample_setup
     [CrdAdded (Obj imcCRDName), CrdUpdated, CrdAdded (Obj brokerCRDName), CrdAdded (Obj ''pods'')] New_scaler)"

theorem crd_deletion_scales_down_witness:
  "IMCScaleTarget (\<lambda>_. Ok [\<lparr>ch_Namespace = ''ns'', ch_Name = ''c''\<rparr>]) sample_scaler = Ok 1 \<and>
   IMCScaleTarget (\<lambda>_. Ok [\<lparr>ch_Namespace = ''ns'', ch_Name = ''c''\<rparr>]) (CRD_DeleteFunc (Obj imcCRDName) sample_scaler) = Ok 0"
proof -
  have "crd_events sample_setup sample_setup
     [CrdAdded (Obj imcCRDName), CrdUpdated, CrdAdded (Obj brokerCRDName), CrdAdded (Obj ''pods'')] New_scaler = Some sample_scaler"
    by code_simp
  note c = crd_deletion_scales_down [OF this, of "\<lambda>_. Ok [\<lparr>ch_Namespace = ''ns'', ch_Name = ''c''\<rparr>]"]
  have "IMCScaleTarget (\<lambda>_. Ok [\<lparr>ch_Namespace = ''ns'', ch_Name = ''c''\<rparr>]) sample_scaler = Ok 1"
    by code_simp
  with c show ?thesis by blast
qed

section \<open>An informer with its notifications\<close>

text \<open>
  The informer keeps a cache and a queue of notifications it has not delivered yet; a handler
  reads the cache as it is at delivery. What changes the cache is an event of the watch or an item of
  a relist after the watch was interrupted. A relist compares the new list with the cache by key: an
  object of a known key is an update, whatever happened to it in between, so a Broker that was deleted
  and created again with another class is an update that changes the class; an object that is gone is
  a deletion whose notification carries a tombstone. A call of \<^verbatim>\<open>resyncFunc\<close> makes the EventMesh dirty;
  a reconcile run, which may happen at any time, reads the cache and sets the scale target. A handler
  that panics ends the process, since client-go raises the panic again.
\<close>

datatype 'o notification = Added 'o | Updated 'o 'o | Deleted "'o informer_obj"

record 'o informer_state =
  is_cache :: "'o list"
  is_queue :: "'o notification list"
  is_synced :: bool
  is_dirty :: bool
  is_target :: "64 word"
  is_crashed :: bool

text \<open>The keys of objects, as \<^verbatim>\<open>cache.MetaNamespaceKeyFunc\<close> makes them.\<close>

definition MetaNamespaceKey :: "string \<Rightarrow> string \<Rightarrow> string" where
  "MetaNamespaceKey ns n = (if ns \<noteq> '''' then ns @ ''/'' @ n else n)"

definition broker_key :: "broker \<Rightarrow> string" where
  "broker_key b = MetaNamespaceKey (br_Namespace b) (br_Name b)"

definition channel_key :: "channel \<Rightarrow> string" where
  "channel_key c = MetaNamespaceKey (ch_Namespace c) (ch_Name c)"

definition deliver :: "('o \<Rightarrow> 'o \<Rightarrow> bool) option \<Rightarrow> 'o notification \<Rightarrow> 'o informer_state \<Rightarrow> 'o informer_obj list res" where
  "deliver filt n s = (case n of
       Added x \<Rightarrow> handler_AddFunc filt (is_synced s) (Ok (is_cache s)) (Obj x)
     | Updated x y \<Rightarrow> handler_UpdateFunc
     | Deleted obj \<Rightarrow> handler_DeleteFunc filt (Ok (is_cache s)) obj)"

text \<open>
  The events of an execution: a change of the cache with the notification it queues, the end of the
  initial list, a delivery with the objects the handler resyncs, a delivery that panics, a reconcile.
\<close>

datatype 'o informer_event = Store "'o notification" | Synced_list | Delivered "'o notification" "'o informer_obj list"
  | Crashed "'o notification" | Reconciled

inductive informer_step ::
    "('o \<Rightarrow> 'o \<Rightarrow> bool) option \<Rightarrow> ('o \<Rightarrow> string) \<Rightarrow> ('o list \<Rightarrow> 64 word) \<Rightarrow>
     'o informer_event \<Rightarrow> 'o informer_state \<Rightarrow> 'o informer_state \<Rightarrow> bool"
  for filt :: "('o \<Rightarrow> 'o \<Rightarrow> bool) option" and key :: "'o \<Rightarrow> string" and target :: "'o list \<Rightarrow> 64 word" where
  store_add: "\<not> is_crashed s \<Longrightarrow> key x \<notin> key ` set (is_cache s) \<Longrightarrow> informer_step filt key target (Store (Added x)) s
    (s\<lparr>is_cache := is_cache s @ [x], is_queue := is_queue s @ [Added x]\<rparr>)"
| store_update: "\<not> is_crashed s \<Longrightarrow> is_cache s = xs @ x # ys \<Longrightarrow> key y = key x \<Longrightarrow>
    informer_step filt key target (Store (Updated x y)) s
    (s\<lparr>is_cache := xs @ y # ys, is_queue := is_queue s @ [Updated x y]\<rparr>)"
| watch_delete: "\<not> is_crashed s \<Longrightarrow> is_cache s = xs @ x # ys \<Longrightarrow>
    informer_step filt key target (Store (Deleted (Obj x))) s
    (s\<lparr>is_cache := xs @ ys, is_queue := is_queue s @ [Deleted (Obj x)]\<rparr>)"
| relist_delete: "\<not> is_crashed s \<Longrightarrow> is_cache s = xs @ x # ys \<Longrightarrow>
    informer_step filt key target (Store (Deleted (Tombstone (key x) x))) s
    (s\<lparr>is_cache := xs @ ys, is_queue := is_queue s @ [Deleted (Tombstone (key x) x)]\<rparr>)"
| initial_sync: "\<not> is_crashed s \<Longrightarrow> informer_step filt key target Synced_list s (s\<lparr>is_synced := True\<rparr>)"
| notify: "\<not> is_crashed s \<Longrightarrow> is_queue s = n # q \<Longrightarrow> deliver filt n s = Ok calls \<Longrightarrow>
    informer_step filt key target (Delivered n calls) s
    (s\<lparr>is_queue := q, is_dirty := (is_dirty s \<or> calls \<noteq> [])\<rparr>)"
| crash: "\<not> is_crashed s \<Longrightarrow> is_queue s = n # q \<Longrightarrow> deliver filt n s = Panic p \<Longrightarrow>
    informer_step filt key target (Crashed n) s (s\<lparr>is_queue := q, is_crashed := True\<rparr>)"
| reconcile: "\<not> is_crashed s \<Longrightarrow> informer_step filt key target Reconciled s
    (s\<lparr>is_dirty := False, is_target := target (is_cache s)\<rparr>)"

definition fresh_informer :: "'o informer_state" where
  "fresh_informer = \<lparr>is_cache = [], is_queue = [], is_synced = False, is_dirty = False, is_target = 0, is_crashed = False\<rparr>"

text \<open>The executions of an informer, with their events in order.\<close>

inductive informer_trace ::
    "('o \<Rightarrow> 'o \<Rightarrow> bool) option \<Rightarrow> ('o \<Rightarrow> string) \<Rightarrow> ('o list \<Rightarrow> 64 word) \<Rightarrow> 'o informer_event list \<Rightarrow> 'o informer_state \<Rightarrow> bool"
  for filt :: "('o \<Rightarrow> 'o \<Rightarrow> bool) option" and key :: "'o \<Rightarrow> string" and target :: "'o list \<Rightarrow> 64 word" where
  begin_trace: "informer_trace filt key target [] fresh_informer"
| next_event: "informer_trace filt key target evs s \<Longrightarrow> informer_step filt key target ev s s' \<Longrightarrow>
    informer_trace filt key target (evs @ [ev]) s'"

text \<open>A deletion carries the object or a tombstone, nothing else.\<close>

lemma no_other_deletions: "informer_trace filt key target evs s \<Longrightarrow> Store (Deleted OtherObj) \<notin> set evs"
  by (induction rule: informer_trace.induct) (auto elim: informer_step.cases)

text \<open>The targets as functions of what is listed.\<close>

definition mt_target :: "broker list \<Rightarrow> 64 word" where
  "mt_target bs = (if length (mt_brokers [] bs) = 0 then 0 else 1)"

definition imc_target :: "channel list \<Rightarrow> 64 word" where
  "imc_target cs = (if length cs = 0 then 0 else 1)"

lemma targets_listed:
  "Lister_Load (dynamicBrokerInfomer s) = Some (Some l) \<Longrightarrow> MTBrokerScaleTarget (\<lambda>_. Ok bs) s = Ok (mt_target bs)"
  "Lister_Load (dynamicIMCInformer s) = Some (Some l) \<Longrightarrow> IMCScaleTarget (\<lambda>_. Ok cs) s = Ok (imc_target cs)"
  by (simp_all add: MTBrokerScaleTarget_def IMCScaleTarget_def mt_target_def imc_target_def)

text \<open>
  The contract between a filter, the classes it separates, and a target that asks for one of the
  classes; \<open>tombstones\<close> tells whether the filter can be asked about a tombstone.
\<close>

locale class_filter =
  fixes filt :: "('o \<Rightarrow> 'o \<Rightarrow> bool) option" and cls :: "'o \<Rightarrow> 'c" and k :: 'c and target :: "'o list \<Rightarrow> 64 word"
    and tombstones :: bool
  assumes filt_class: "filter_objs filt (Obj x) objs = Ok (filter (\<lambda>y. cls x = cls y) objs)"
    and filt_tombstone: "tombstones \<Longrightarrow> filter_objs filt (Tombstone ky x) objs = Ok (filter (\<lambda>y. cls x = cls y) objs)"
    and target_class: "target objs = (if \<exists>y\<in>set objs. cls y = k then 1 else 0)"
begin

definition deleted_class :: "'o informer_obj \<Rightarrow> 'c option" where
  "deleted_class obj = (case obj of Obj x \<Rightarrow> Some (cls x) | Tombstone _ x \<Rightarrow> if tombstones then Some (cls x) else None
     | OtherObj \<Rightarrow> None)"

lemma deliver_Added:
  "deliver filt (Added x) s = Ok (if is_synced s \<and> length (filter (\<lambda>y. cls x = cls y) (is_cache s)) = 1 then [Obj x] else [])"
  by (simp add: deliver_def handler_AddFunc_def filt_class)

lemma deliver_Deleted:
  "deleted_class obj = Some c \<Longrightarrow>
     deliver filt (Deleted obj) s = Ok (if \<exists>y\<in>set (is_cache s). c = cls y then [] else [obj])"
  by (auto simp: deliver_def handler_DeleteFunc_def filt_class filt_tombstone filter_empty_conv deleted_class_def
      split: informer_obj.splits if_splits)

lemma target_zero: "target objs = 0 \<longleftrightarrow> (\<forall>y\<in>set objs. cls y \<noteq> k)"
  by (simp add: target_class)

text \<open>Events that the handlers are told of: no tombstone the filter cannot take, no change of class.\<close>

definition told :: "'o informer_event \<Rightarrow> bool" where
  "told ev = (case ev of
       Store (Deleted obj) \<Rightarrow> deleted_class obj \<noteq> None
     | Store (Updated x y) \<Rightarrow> cls x = cls y
     | _ \<Rightarrow> True)"

definition deliverable :: "'o notification \<Rightarrow> bool" where
  "deliverable n = (case n of Deleted obj \<Rightarrow> deleted_class obj \<noteq> None | _ \<Rightarrow> True)"

definition pending_down :: "'o informer_state \<Rightarrow> bool" where
  "pending_down s \<longleftrightarrow> target (is_cache s) = 0 \<and> is_target s \<noteq> 0 \<longrightarrow>
     is_dirty s \<or> (\<exists>obj. Deleted obj \<in> set (is_queue s) \<and> deleted_class obj = Some k)"

definition told_inv :: "'o informer_state \<Rightarrow> bool" where
  "told_inv s \<longleftrightarrow> \<not> is_crashed s \<and> (\<forall>n\<in>set (is_queue s). deliverable n) \<and> pending_down s"

lemma deliverable_no_panic: "deliverable n \<Longrightarrow> deliver filt n s \<noteq> Panic p"
  by (auto simp: deliverable_def deliver_Added deliver_Deleted split: notification.splits)
    (simp add: deliver_def handler_UpdateFunc_def)

lemma step_told_inv:
  assumes "informer_step filt key target ev s s'" "told ev" "told_inv s"
  shows "told_inv s'"
  using assms
proof (induction rule: informer_step.induct)
  case (watch_delete s xs x ys)
  then show ?case
    by (auto simp: told_inv_def deliverable_def pending_down_def target_zero deleted_class_def split: if_splits)
next
  case (relist_delete s xs x ys)
  then show ?case
    by (auto simp: told_inv_def told_def deliverable_def pending_down_def target_zero deleted_class_def split: if_splits)
next
  case (notify s n q calls)
  show ?case
  proof (cases "\<exists>obj. n = Deleted obj \<and> deleted_class obj = Some k")
    case True
    then obtain obj where obj: "n = Deleted obj" "deleted_class obj = Some k" by blast
    have "calls = [obj]" if "target (is_cache s) = 0"
      using notify(3) obj that by (auto simp: deliver_Deleted target_zero split: if_splits)
    then show ?thesis using notify by (auto simp: told_inv_def pending_down_def)
  next
    case False
    then show ?thesis using notify by (auto simp: told_inv_def pending_down_def)
  qed
next
  case (crash s n q p)
  then show ?case using deliverable_no_panic [of n s p] by (simp add: told_inv_def)
qed (auto simp: told_inv_def told_def deliverable_def pending_down_def target_zero split: if_splits)

lemma trace_told_inv:
  "informer_trace filt key target evs s \<Longrightarrow> \<forall>ev\<in>set evs. told ev \<Longrightarrow> told_inv s"
proof (induction rule: informer_trace.induct)
  case begin_trace
  show ?case by (simp add: told_inv_def pending_down_def fresh_informer_def)
next
  case (next_event evs s ev s')
  then show ?case using step_told_inv [OF next_event(2)] by simp
qed

text \<open>While a scale-down is due, a reconcile is outstanding or a queued deletion will ask for one.\<close>

lemma scale_down_not_lost:
  assumes "informer_trace filt key target evs s" "\<forall>ev\<in>set evs. told ev"
  shows "\<not> is_crashed s \<and> (target (is_cache s) = 0 \<and> is_target s \<noteq> 0 \<longrightarrow> is_dirty s \<or>
     (\<exists>obj. Deleted obj \<in> set (is_queue s) \<and> deleted_class obj = Some k \<and> deliver filt (Deleted obj) s = Ok [obj]))"
proof -
  have i: "told_inv s" using trace_told_inv [OF assms] .
  have "deliver filt (Deleted obj) s = Ok [obj]" if "target (is_cache s) = 0" "deleted_class obj = Some k" for obj
    using that by (auto simp: deliver_Deleted target_zero)
  with i show ?thesis by (auto simp: told_inv_def pending_down_def)
qed

lemma prompt_notification:
  assumes "is_synced s"
  shows "target (objs @ [x]) \<noteq> target objs \<Longrightarrow> deliver filt (Added x) (s\<lparr>is_cache := objs @ [x]\<rparr>) = Ok [Obj x]"
    and "target (xs @ ys) \<noteq> target (xs @ x # ys) \<Longrightarrow> deliver filt (Deleted (Obj x)) (s\<lparr>is_cache := xs @ ys\<rparr>) = Ok [Obj x]"
  using assms by (auto simp: deliver_Added deliver_Deleted deleted_class_def target_class filter_empty_conv split: if_splits)

text \<open>Additions that all reach the cache before the first of them is delivered.\<close>

lemma step_trace: "informer_trace filt key target evs s \<Longrightarrow> informer_step filt key target ev s s' \<Longrightarrow>
    s'' = s' \<Longrightarrow> informer_trace filt key target (evs @ [ev]) s''"
  using next_event by simp

lemma adds_trace:
  assumes "informer_trace filt key target evs s" "\<not> is_crashed s" "distinct (map key bs)"
    and "key ` set bs \<inter> key ` set (is_cache s) = {}"
  shows "informer_trace filt key target (evs @ map (\<lambda>b. Store (Added b)) bs)
    (s\<lparr>is_cache := is_cache s @ bs, is_queue := is_queue s @ map Added bs\<rparr>)"
  using assms
proof (induction bs rule: rev_induct)
  case (snoc b bs)
  let ?s = "s\<lparr>is_cache := is_cache s @ bs, is_queue := is_queue s @ map Added bs\<rparr>"
  have "informer_trace filt key target (evs @ map (\<lambda>b. Store (Added b)) bs) ?s"
    using snoc by auto
  moreover have "informer_step filt key target (Store (Added b)) ?s
      (?s\<lparr>is_cache := is_cache ?s @ [b], is_queue := is_queue ?s @ [Added b]\<rparr>)"
    by (rule store_add) (use snoc.prems in auto)
  ultimately show ?case using step_trace by fastforce
qed simp

lemma deliveries_trace:
  assumes "informer_trace filt key target evs s" "\<not> is_crashed s" "is_queue s = map Added bs @ q"
    and "\<forall>b\<in>set bs. cls b = k" "n = length (filter (\<lambda>y. k = cls y) (is_cache s))"
    and "calls = (\<lambda>b. if is_synced s \<and> n = 1 then [Obj b] else [])"
  shows "informer_trace filt key target (evs @ map (\<lambda>b. Delivered (Added b) (calls b)) bs)
    (s\<lparr>is_queue := q, is_dirty := is_dirty s \<or> is_synced s \<and> n = 1 \<and> bs \<noteq> []\<rparr>)"
  using assms
proof (induction bs arbitrary: evs s)
  case Nil
  then have "s\<lparr>is_queue := q, is_dirty := is_dirty s \<or> is_synced s \<and> n = 1 \<and> [] \<noteq> []\<rparr> = s"
    by (cases s) simp
  with Nil(1) show ?case by simp
next
  case (Cons b bs)
  let ?s = "s\<lparr>is_queue := map Added bs @ q, is_dirty := is_dirty s \<or> calls b \<noteq> []\<rparr>"
  have "deliver filt (Added b) s = Ok (calls b)"
    using Cons.prems(4-6) by (simp add: deliver_Added)
  then have "informer_step filt key target (Delivered (Added b) (calls b)) s ?s"
    using Cons.prems(2,3) by (intro notify) auto
  then have t: "informer_trace filt key target (evs @ [Delivered (Added b) (calls b)]) ?s"
    using next_event [OF Cons.prems(1)] by blast
  have "informer_trace filt key target ((evs @ [Delivered (Added b) (calls b)]) @ map (\<lambda>b. Delivered (Added b) (calls b)) bs)
      (?s\<lparr>is_queue := q, is_dirty := is_dirty ?s \<or> is_synced ?s \<and> n = 1 \<and> bs \<noteq> []\<rparr>)"
    by (rule Cons.IH [OF t]) (use Cons.prems in auto)
  moreover have "?s\<lparr>is_queue := q, is_dirty := is_dirty ?s \<or> is_synced ?s \<and> n = 1 \<and> bs \<noteq> []\<rparr> =
      s\<lparr>is_queue := q, is_dirty := is_dirty s \<or> is_synced s \<and> n = 1 \<and> b # bs \<noteq> []\<rparr>"
    using Cons.prems(6) by auto
  ultimately show ?case by simp
qed

lemma added_together:
  assumes "informer_trace filt key target evs s" "\<not> is_crashed s" "is_queue s = []"
    and "\<forall>y\<in>set (is_cache s). cls y \<noteq> k" "\<forall>b\<in>set bs. cls b = k" "bs \<noteq> []"
    and "distinct (map key bs)" "key ` set bs \<inter> key ` set (is_cache s) = {}"
  shows "informer_trace filt key target
      (evs @ map (\<lambda>b. Store (Added b)) bs @
       map (\<lambda>b. Delivered (Added b) (if is_synced s \<and> length bs = 1 then [Obj b] else [])) bs)
      (s\<lparr>is_cache := is_cache s @ bs, is_dirty := is_dirty s \<or> is_synced s \<and> length bs = 1\<rparr>) \<and>
    target (is_cache s @ bs) = 1"
proof -
  let ?s = "s\<lparr>is_cache := is_cache s @ bs, is_queue := is_queue s @ map Added bs\<rparr>"
  have t: "informer_trace filt key target (evs @ map (\<lambda>b. Store (Added b)) bs) ?s"
    by (rule adds_trace [OF assms(1,2,7,8)])
  have "filter (\<lambda>y. k = cls y) (is_cache s) = []" "filter (\<lambda>y. k = cls y) bs = bs"
    using assms(4,5) by (auto simp: filter_empty_conv filter_id_conv)
  then have "length (filter (\<lambda>y. k = cls y) (is_cache ?s)) = length bs" by simp
  with deliveries_trace [OF t, of bs "[]"] assms have
    "informer_trace filt key target ((evs @ map (\<lambda>b. Store (Added b)) bs) @
       map (\<lambda>b. Delivered (Added b) (if is_synced s \<and> length bs = 1 then [Obj b] else [])) bs)
       (?s\<lparr>is_queue := [], is_dirty := is_dirty ?s \<or> is_synced ?s \<and> length bs = 1 \<and> bs \<noteq> []\<rparr>)"
    by simp
  moreover have "?s\<lparr>is_queue := [], is_dirty := is_dirty ?s \<or> is_synced ?s \<and> length bs = 1 \<and> bs \<noteq> []\<rparr> =
      s\<lparr>is_cache := is_cache s @ bs, is_dirty := is_dirty s \<or> is_synced s \<and> length bs = 1\<rparr>"
    using assms(3,6) by simp
  moreover have "target (is_cache s @ bs) = 1"
    using assms(5,6) by (cases bs) (auto simp: target_class)
  ultimately show ?thesis by simp
qed

end

section \<open>Brokers and channels\<close>

lemma filter_loop_Obj: "filter_loop p (Obj x) acc objs = Ok (acc @ filter (p x) objs)"
  by (induction objs arbitrary: acc) (auto simp: type_assert_def)

lemma filter_objs_Obj:
  "filter_objs (Some p) (Obj x) objs = Ok (filter (p x) objs)" "filter_objs None changed objs = Ok objs"
  by (simp_all add: filter_objs_def filter_loop_Obj)

interpretation brokers: class_filter "Some brokerClassFilter" broker_class MTChannelBrokerClassValue mt_target False
  by unfold_locales (auto simp: filter_objs_Obj brokerClassFilter_def [abs_def] mt_target_def mt_brokers_filter filter_empty_conv)

interpretation channels: class_filter None "\<lambda>_. ()" "()" imc_target True
  by unfold_locales (auto simp: filter_objs_Obj imc_target_def)

text \<open>
  Claim C8. A scale-down that the handlers are told of is never lost. For Brokers: take any execution
  in which no deletion is reported by a tombstone and no update changes the class of a Broker; both
  come only from a relist after an interrupted watch. Then no delivery panics, and whenever the target
  in force is not 0 although no multi-tenant Broker is left, a reconcile is outstanding already or
  the queue still holds the deletion of a multi-tenant Broker whose delivery calls the resync function
  with that Broker. For in-memory channels the same holds in every execution, with relists and
  tombstones. So once all notifications are delivered and no reconcile is outstanding, the targets are
  0 when nothing is left to serve.
\<close>

theorem scale_down_never_lost:
  assumes "informer_trace (Some brokerClassFilter) broker_key mt_target evs sb"
    and "\<forall>x y. Store (Updated x y) \<in> set evs \<longrightarrow> broker_class x = broker_class y"
    and "\<forall>ky x. Store (Deleted (Tombstone ky x)) \<notin> set evs"
    and "informer_trace None channel_key imc_target evs' si"
  shows "\<not> is_crashed sb \<and> \<not> is_crashed si \<and>
    ((\<forall>b\<in>set (is_cache sb). broker_class b \<noteq> MTChannelBrokerClassValue) \<and> is_target sb \<noteq> 0 \<longrightarrow> is_dirty sb \<or>
      (\<exists>b. Deleted (Obj b) \<in> set (is_queue sb) \<and> broker_class b = MTChannelBrokerClassValue \<and>
         deliver (Some brokerClassFilter) (Deleted (Obj b)) sb = Ok [Obj b])) \<and>
    (is_cache si = [] \<and> is_target si \<noteq> 0 \<longrightarrow> is_dirty si \<or>
      (\<exists>obj. Deleted obj \<in> set (is_queue si) \<and> deliver None (Deleted obj) si = Ok [obj])) \<and>
    (is_queue sb = [] \<and> \<not> is_dirty sb \<and> (\<forall>b\<in>set (is_cache sb). broker_class b \<noteq> MTChannelBrokerClassValue) \<longrightarrow> is_target sb = 0) \<and>
    (is_queue si = [] \<and> \<not> is_dirty si \<and> is_cache si = [] \<longrightarrow> is_target si = 0)"
proof -
  have "brokers.told ev" if "ev \<in> set evs" for ev
    using that assms(2,3) no_other_deletions [OF assms(1)]
    by (auto simp: brokers.told_def brokers.deleted_class_def split: informer_event.split notification.split informer_obj.split)
  note b = brokers.scale_down_not_lost [OF assms(1) ballI [OF this]]
  have "channels.told ev" if "ev \<in> set evs'" for ev
    using that no_other_deletions [OF assms(4)]
    by (auto simp: channels.told_def channels.deleted_class_def split: informer_event.split notification.split informer_obj.split)
  note c = channels.scale_down_not_lost [OF assms(4) ballI [OF this]]
  have "\<exists>x. obj = Obj x \<and> broker_class x = MTChannelBrokerClassValue"
    if "brokers.deleted_class obj = Some MTChannelBrokerClassValue" for obj
    using that by (auto simp: brokers.deleted_class_def split: informer_obj.splits)
  with b have "(\<forall>b\<in>set (is_cache sb). broker_class b \<noteq> MTChannelBrokerClassValue) \<and> is_target sb \<noteq> 0 \<longrightarrow> is_dirty sb \<or>
      (\<exists>b. Deleted (Obj b) \<in> set (is_queue sb) \<and> broker_class b = MTChannelBrokerClassValue \<and>
         deliver (Some brokerClassFilter) (Deleted (Obj b)) sb = Ok [Obj b])"
    unfolding brokers.target_zero by blast
  moreover have "is_cache si = [] \<and> is_target si \<noteq> 0 \<longrightarrow> is_dirty si \<or>
      (\<exists>obj. Deleted obj \<in> set (is_queue si) \<and> deliver None (Deleted obj) si = Ok [obj])"
    using c by (auto simp: channels.target_zero)
  ultimately show ?thesis using b c by auto
qed

definition sample_broker :: "string \<Rightarrow> broker" where
  "sample_broker n = \<lparr>br_Namespace = ''default'', br_Name = n, br_Annotations = [(BrokerClassAnnotationKey, MTChannelBrokerClassValue)]\<rparr>"

lemma sample_broker_class: "broker_class (sample_broker n) = MTChannelBrokerClassValue"
  by (simp add: sample_broker_def broker_class_def get_or_def)

text \<open>An object comes and is reconciled.\<close>

definition first_events :: "'o \<Rightarrow> 'o informer_event list" where
  "first_events x = [Synced_list, Store (Added x), Delivered (Added x) [Obj x], Reconciled]"

lemma first_trace:
  assumes "class_filter filt cls k target tomb" "cls x = k"
  shows "informer_trace filt key target (first_events x)
    \<lparr>is_cache = [x], is_queue = [], is_synced = True, is_dirty = False, is_target = 1, is_crashed = False\<rparr>"
proof -
  let ?s = "\<lambda>c q d t. \<lparr>is_cache = c, is_queue = q, is_synced = True, is_dirty = d, is_target = t, is_crashed = False\<rparr>"
  have "informer_trace filt key target ([] @ [Synced_list]) (?s [] [] False 0)"
    by (rule class_filter.step_trace [OF assms(1) begin_trace initial_sync]) (simp_all add: fresh_informer_def)
  then have "informer_trace filt key target (([] @ [Synced_list]) @ [Store (Added x)]) (?s [x] [Added x] False 0)"
    by (rule class_filter.step_trace [OF assms(1) _ store_add]) simp_all
  then have "informer_trace filt key target ((([] @ [Synced_list]) @ [Store (Added x)]) @ [Delivered (Added x) [Obj x]])
      (?s [x] [] True 0)"
    by (rule class_filter.step_trace [OF assms(1) _ notify [where q = "[]"]])
      (simp_all add: class_filter.deliver_Added [OF assms(1)])
  then have "informer_trace filt key target (((([] @ [Synced_list]) @ [Store (Added x)]) @ [Delivered (Added x) [Obj x]]) @ [Reconciled])
      (?s [x] [] False 1)"
    by (rule class_filter.step_trace [OF assms(1) _ reconcile])
      (simp_all add: class_filter.target_class [OF assms(1)] assms(2))
  then show ?thesis by (simp add: first_events_def)
qed

text \<open>Then it is deleted: the deletion is queued, and its delivery resyncs.\<close>

lemma then_deleted:
  assumes "class_filter filt cls k target tomb" "cls x = k"
  shows "informer_trace filt key target (first_events x @ [Store (Deleted (Obj x))])
    \<lparr>is_cache = [], is_queue = [Deleted (Obj x)], is_synced = True, is_dirty = False, is_target = 1, is_crashed = False\<rparr>"
  by (rule class_filter.step_trace [OF assms(1) first_trace [OF assms] watch_delete [where xs = "[]" and ys = "[]"]]) simp_all

theorem scale_down_never_lost_witness:
  "deliver (Some brokerClassFilter) (Deleted (Obj (sample_broker ''b'')))
     \<lparr>is_cache = [], is_queue = [Deleted (Obj (sample_broker ''b''))], is_synced = True, is_dirty = False,
       is_target = 1, is_crashed = False\<rparr> = Ok [Obj (sample_broker ''b'')]"
proof -
  note b = then_deleted [OF brokers.class_filter_axioms sample_broker_class [of "''b''"], of broker_key]
  note i = then_deleted [OF channels.class_filter_axioms refl, of channel_key "\<lparr>ch_Namespace = ''ns'', ch_Name = ''c''\<rparr>"]
  show ?thesis using scale_down_never_lost [OF b _ _ i] by (auto simp: first_events_def)
qed

text \<open>
  Both restrictions on Brokers are needed. When a Broker was deleted and created again with another
  class while the watch was interrupted, the relist reports an update, which the handler ignores: all
  is delivered, nothing is outstanding, and the target in force stays 1 with no multi-tenant Broker
  left. When the last multi-tenant Broker is found deleted by a relist, and a Broker of another class
  is still there, the delivery of the tombstone panics.
\<close>

theorem relist_defeats_scale_down:
  assumes "broker_class x = MTChannelBrokerClassValue" "broker_class y \<noteq> MTChannelBrokerClassValue"
  shows "broker_key y = broker_key x \<Longrightarrow> informer_trace (Some brokerClassFilter) broker_key mt_target
      (first_events x @ [Store (Updated x y), Delivered (Updated x y) []])
      \<lparr>is_cache = [y], is_queue = [], is_synced = True, is_dirty = False, is_target = 1, is_crashed = False\<rparr> \<and> mt_target [y] = 0"
    and "deliver (Some brokerClassFilter) (Deleted (Tombstone ky x))
      \<lparr>is_cache = [y], is_queue = q, is_synced = sy, is_dirty = d, is_target = t, is_crashed = False\<rparr> =
        Panic ''interface conversion'' \<and> mt_target [y] = 0"
proof -
  note step = brokers.step_trace
  let ?s = "\<lambda>c q. \<lparr>is_cache = c, is_queue = q, is_synced = True, is_dirty = False, is_target = 1, is_crashed = False\<rparr>"
  show "informer_trace (Some brokerClassFilter) broker_key mt_target
      (first_events x @ [Store (Updated x y), Delivered (Updated x y) []]) (?s [y] []) \<and> mt_target [y] = 0"
    if "broker_key y = broker_key x"
  proof
    have "informer_trace (Some brokerClassFilter) broker_key mt_target (first_events x @ [Store (Updated x y)]) (?s [y] [Updated x y])"
      by (rule step [OF first_trace [OF brokers.class_filter_axioms assms(1)] store_update [where xs = "[]" and ys = "[]"]])
        (simp_all add: that)
    then have "informer_trace (Some brokerClassFilter) broker_key mt_target
        ((first_events x @ [Store (Updated x y)]) @ [Delivered (Updated x y) []]) (?s [y] [])"
      by (rule step [OF _ notify [where q = "[]"]]) (simp_all add: deliver_def handler_UpdateFunc_def)
    then show "informer_trace (Some brokerClassFilter) broker_key mt_target
        (first_events x @ [Store (Updated x y), Delivered (Updated x y) []]) (?s [y] [])" by simp
    show "mt_target [y] = 0" using assms(2) by (simp add: brokers.target_zero)
  qed
  show "deliver (Some brokerClassFilter) (Deleted (Tombstone ky x))
      \<lparr>is_cache = [y], is_queue = q, is_synced = sy, is_dirty = d, is_target = t, is_crashed = False\<rparr> =
        Panic ''interface conversion'' \<and> mt_target [y] = 0"
    using assms(2) by (simp add: deliver_def handler_DeleteFunc_def filter_objs_def type_assert_def brokers.target_zero)
qed

text \<open>
  With a synced informer whose handler sees each change before the next one, no change of a
  scale target goes unnoticed: an added or deleted Broker or channel that changes the target makes
  the handler ask for a reconcile, with that object.
\<close>

theorem prompt_notification_resyncs:
  assumes "is_synced sb" "is_synced si"
  shows "(mt_target (bs @ [b]) \<noteq> mt_target bs \<longrightarrow>
      deliver (Some brokerClassFilter) (Added b) (sb\<lparr>is_cache := bs @ [b]\<rparr>) = Ok [Obj b]) \<and>
    (mt_target (bs @ bs') \<noteq> mt_target (bs @ b # bs') \<longrightarrow>
      deliver (Some brokerClassFilter) (Deleted (Obj b)) (sb\<lparr>is_cache := bs @ bs'\<rparr>) = Ok [Obj b]) \<and>
    (imc_target (cs @ [c]) \<noteq> imc_target cs \<longrightarrow>
      deliver None (Added c) (si\<lparr>is_cache := cs @ [c]\<rparr>) = Ok [Obj c]) \<and>
    (imc_target (cs @ cs') \<noteq> imc_target (cs @ c # cs') \<longrightarrow>
      deliver None (Deleted (Obj c)) (si\<lparr>is_cache := cs @ cs'\<rparr>) = Ok [Obj c])"
  using brokers.prompt_notification [OF assms(1)] channels.prompt_notification [OF assms(2)] by blast

theorem prompt_notification_resyncs_witness:
  "deliver (Some brokerClassFilter) (Added (sample_broker ''b''))
     (fresh_informer\<lparr>is_synced := True, is_cache := [sample_broker ''b'']\<rparr>) = Ok [Obj (sample_broker ''b'')]"
proof -
  have t: "mt_target ([] @ [sample_broker ''b'']) \<noteq> mt_target []" by code_simp
  have "is_synced (fresh_informer\<lparr>is_synced := True\<rparr> :: broker informer_state)"
    "is_synced (fresh_informer\<lparr>is_synced := True\<rparr> :: channel informer_state)" by simp_all
  from prompt_notification_resyncs [OF this, of "[]" "sample_broker ''b''"] t show ?thesis by simp
qed

text \<open>
  Claim C23. A scale-up can be lost. Take any moment of any execution at which all notifications are
  delivered, no reconcile is outstanding and no multi-tenant Broker is listed, and any multi-tenant
  Brokers that all reach the cache before the first of their notifications is delivered. The execution
  in which they are then delivered ends with nothing to deliver and the target in force unchanged,
  although the target is now 1. If there is one such Broker and the informer has synced, its delivery
  calls the resync function with it, so a reconcile is outstanding. If there are two or more, or if
  the informer has not synced, no delivery calls the resync function and no reconcile is outstanding.
\<close>

theorem scale_up_can_be_lost:
  assumes "informer_trace (Some brokerClassFilter) broker_key mt_target evs s"
    and "\<not> is_crashed s" "is_queue s = []" "\<not> is_dirty s"
    and "\<forall>b\<in>set (is_cache s). broker_class b \<noteq> MTChannelBrokerClassValue"
    and "\<forall>b\<in>set bs. broker_class b = MTChannelBrokerClassValue" "bs \<noteq> []"
    and "distinct (map broker_key bs)" "broker_key ` set bs \<inter> broker_key ` set (is_cache s) = {}"
  shows "\<exists>t. informer_trace (Some brokerClassFilter) broker_key mt_target
      (evs @ map (\<lambda>b. Store (Added b)) bs @
       map (\<lambda>b. Delivered (Added b) (if is_synced s \<and> length bs = 1 then [Obj b] else [])) bs) t \<and>
    is_cache t = is_cache s @ bs \<and> mt_target (is_cache t) = 1 \<and> is_target t = is_target s \<and> is_queue t = [] \<and>
    (is_dirty t \<longleftrightarrow> is_synced s \<and> length bs = 1) \<and> \<not> is_crashed t"
  using brokers.added_together [OF assms(1-3,5-9)] assms(2-4)
  by (intro exI [of _ "s\<lparr>is_cache := is_cache s @ bs, is_dirty := is_dirty s \<or> is_synced s \<and> length bs = 1\<rparr>"]) simp

text \<open>Two Brokers after the first sync: the target in force stays 0.\<close>

theorem scale_up_can_be_lost_witness:
  "\<exists>t. informer_trace (Some brokerClassFilter) broker_key mt_target
      [Synced_list, Store (Added (sample_broker ''a'')), Store (Added (sample_broker ''b'')),
       Delivered (Added (sample_broker ''a'')) [], Delivered (Added (sample_broker ''b'')) []] t \<and>
    mt_target (is_cache t) = 1 \<and> is_target t = 0 \<and> is_queue t = [] \<and> \<not> is_dirty t"
proof -
  let ?s = "fresh_informer\<lparr>is_synced := True\<rparr> :: broker informer_state"
  have s: "informer_trace (Some brokerClassFilter) broker_key mt_target ([] @ [Synced_list]) ?s"
    by (rule brokers.step_trace [OF begin_trace initial_sync]) (simp_all add: fresh_informer_def)
  have k: "distinct (map broker_key [sample_broker ''a'', sample_broker ''b''])" by code_simp
  show ?thesis
    using scale_up_can_be_lost [OF s _ _ _ _ _ _ k] by (auto simp: fresh_informer_def sample_broker_class)
qed

text \<open>
  When a Broker's deletion is only noticed by a relist, the notification carries a tombstone
  instead of the Broker, and the handler panics as soon as any Broker is left; the channel handler,
  which has no filter, does not.
\<close>

theorem broker_tombstone_panics:
  assumes "objs \<noteq> []"
  shows "handler_DeleteFunc (Some brokerClassFilter) (Ok objs) (Tombstone key b) = Panic ''interface conversion'' \<and>
    handler_DeleteFunc None (Ok cs) (Tombstone key c) = Ok (if cs = [] then [Tombstone key c] else [])"
proof -
  obtain y ys where "objs = y # ys" using assms by (cases objs) auto
  then show ?thesis by (simp add: handler_DeleteFunc_def filter_objs_def type_assert_def)
qed

theorem broker_tombstone_panics_witness:
  "handler_DeleteFunc (Some brokerClassFilter) (Ok [sample_broker ''b'']) (Tombstone ''default/a'' (sample_broker ''a'')) =
     Panic ''interface conversion''"
  using broker_tombstone_panics [of "[sample_broker ''b'']" "''default/a''" "sample_broker ''a''" "[] :: channel list"] by simp

end
