(* ===== verification/Reconciler.thy ===== *)
theory Reconciler
  imports Manifests Scaler
begin

text \<open>
  \<^verbatim>\<open>pkg/reconciler\<close>: the errors and the stage pipeline of \<^verbatim>\<open>common\<close>, and the EventMesh reconciler
  (eventmesh.go) that runs prechecks, loads, scales, transforms and installs the manifests and then
  checks the Deployments. A run works on the manifests, the EventMesh and the cluster; a stage
  returns an outcome and the state it leaves, also when it fails. Theorems: what a run does to the
  status and to the cluster in each case, and what the scaling decisions do to the manifests.
\<close>

section \<open>Errors\<close>

definition NewNonRecoverableError :: "string \<Rightarrow> go_error" where
  "NewNonRecoverableError msg = NonRecoverableError msg"

text \<open>\<^verbatim>\<open>errors.Is\<close> compares with the value \<^verbatim>\<open>NonRecoverableError{}\<close>, whose message is empty.\<close>

definition IsNonRecoverableError :: "go_error \<Rightarrow> bool" where
  "IsNonRecoverableError err = errors_Is err (NonRecoverableError '''')"

definition IsDeploymentsNotReadyError :: "go_error \<Rightarrow> bool" where
  "IsDeploymentsNotReadyError err = errors_Is err DeploymentsNotReadyError"

section \<open>Stages\<close>

record 's run_state =
  rs_manifests :: manifests
  rs_em :: event_mesh
  rs_cluster :: 's

type_synonym 's stage = "'s run_state \<Rightarrow> unit res \<times> 's run_state"

fun Execute_loop :: "'s stage list \<Rightarrow> 's run_state \<Rightarrow> unit res \<times> 's run_state" where
  "Execute_loop [] s = (Ok (), s)"
| "Execute_loop (stage # stages) s = (case stage s of
       (Ok _, s') \<Rightarrow> Execute_loop stages s'
     | (Err e, s') \<Rightarrow> if IsDeploymentsNotReadyError e then (Ok (), s') else (Err e, s')
     | (Panic p, s') \<Rightarrow> (Panic p, s'))"

definition Execute :: "'s stage list \<Rightarrow> event_mesh \<Rightarrow> 's \<Rightarrow> unit res \<times> event_mesh \<times> 's" where
  "Execute stages em cluster =
     (case Execute_loop stages \<lparr>rs_manifests = empty_manifests, rs_em = em, rs_cluster = cluster\<rparr> of
        (r, s) \<Rightarrow> (r, rs_em s, rs_cluster s))"

text \<open>A stage that only changes the manifests.\<close>

definition manifests_stage :: "(manifests \<Rightarrow> event_mesh \<Rightarrow> manifests res) \<Rightarrow> 's stage" where
  "manifests_stage f s = (case f (rs_manifests s) (rs_em s) of
       Ok m \<Rightarrow> (Ok (), s\<lparr>rs_manifests := m\<rparr>)
     | Err e \<Rightarrow> (Err e, s)
     | Panic p \<Rightarrow> (Panic p, s))"

section \<open>The reconciler\<close>

text \<open>
  \<open>r_context\<close> holds the surroundings of the two parsers, with the CRD lister and the Deployment lister
  at the start of the run; \<open>r_checked\<close> is the Deployment lister when the Deployments are checked,
  after the installation. \<open>r_imcs\<close> and \<open>r_brokers\<close> list the cached resources.
\<close>

record ('s, 'i, 'b) reconciler =
  r_context :: parser_context
  r_checked :: deployment_lister
  r_scaler :: "('i, 'b) scaler"
  r_imcs :: "'i \<Rightarrow> channel list res"
  r_brokers :: "'b \<Rightarrow> broker list res"
  r_manifest :: manifest
  r_sort :: slice_sort
  r_client :: "'s mf_client"
  r_clock :: clock

definition r_namespace :: "('s, 'i, 'b) reconciler \<Rightarrow> string" where
  "r_namespace r = env_namespace (pc_env (r_context r))"

fun owned_by :: "owner_reference list \<Rightarrow> event_mesh \<Rightarrow> bool" where
  "owned_by [] em = False"
| "owned_by (ow # owners) em =
     (let eventMeshGVK = SchemeGroupVersion_WithKind ''EventMesh'' in
      if or_Kind ow = Kind eventMeshGVK \<and> or_APIVersion ow = GroupVersion_String eventMeshGVK \<and> or_Name ow = em_Name em
      then True else owned_by owners em)"

definition hasForeignEventingInstalled :: "('s, 'i, 'b) reconciler \<Rightarrow> event_mesh \<Rightarrow> bool res" where
  "hasForeignEventingInstalled r em =
     (case pc_deployments (r_context r) (r_namespace r) ''eventing-controller'' of
        Err e \<Rightarrow> if IsNotFound e then Ok False else Err (ErrWrap ''failed to list deployments'' e)
      | Panic p \<Rightarrow> Panic p
      | Ok d \<Rightarrow> Ok (\<not> owned_by (d_OwnerReferences d) em))"

definition hasCertManagerInstalled :: "('s, 'i, 'b) reconciler \<Rightarrow> bool res" where
  "hasCertManagerInstalled r = (case pc_crd (r_context r) ''certificates.cert-manager.io'' of
       Err e \<Rightarrow> if IsNotFound e then Ok False else Err (ErrWrap ''failed to get certificates.cert-manager.io CRD'' e)
     | Panic p \<Rightarrow> Panic p
     | Ok _ \<Rightarrow> Ok True)"

text \<open>The prechecks may change the status of the EventMesh.\<close>

definition mark_failed :: "('s, 'i, 'b) reconciler \<Rightarrow> string \<Rightarrow> string \<Rightarrow> event_mesh \<Rightarrow> event_mesh" where
  "mark_failed r reason message em = em\<lparr>em_Status := MarkInstallFailed (r_clock r) reason message (em_Status em)\<rparr>"

definition runPrechecks :: "('s, 'i, 'b) reconciler \<Rightarrow> event_mesh \<Rightarrow> bool res \<times> event_mesh" where
  "runPrechecks r em =
     (case flat_err ''could not determine whether EventMesh is installed already'' (hasForeignEventingInstalled r em) of
        Err e \<Rightarrow> (Err e, em)
      | Panic p \<Rightarrow> (Panic p, em)
      | Ok alreadyInstalled \<Rightarrow>
          if alreadyInstalled then
            (Ok False, mark_failed r ''EventingInstalledAlready''
               ''Knative eventing components seem to be installed already and not owned by the EventMesh'' em)
          else (case flat_err ''could not get feature flags'' (GetEventingFeatureFlags (Features (em_Spec em))) of
             Err e \<Rightarrow> (Err e, em)
           | Panic p \<Rightarrow> (Panic p, em)
           | Ok featuresFlags \<Rightarrow>
               if \<not> IsDisabledTransportEncryption featuresFlags then
                 (case flat_err ''could not determine whether cert-manager is installed'' (hasCertManagerInstalled r) of
                    Err e \<Rightarrow> (Err e, em)
                  | Panic p \<Rightarrow> (Panic p, em)
                  | Ok certManagerInstalled \<Rightarrow>
                      if \<not> certManagerInstalled then
                        (Ok False, mark_failed r ''CertManagerRequired''
                           (''Feature '' @ TransportEncryption @ '' is enabled, but cert-manager seems not to be installed'') em)
                      else (Ok True, em))
               else (Ok True, em)))"

section \<open>Scaling\<close>

definition Deployment_gvk :: gvk where
  "Deployment_gvk = FromAPIVersionAndKind ''apps/v1'' ''Deployment''"

definition addDeploymentScaleTransformerIfNeeded ::
    "string \<Rightarrow> string \<Rightarrow> 64 word \<Rightarrow> manifests \<Rightarrow> event_mesh \<Rightarrow> manifests res" where
  "addDeploymentScaleTransformerIfNeeded deploymentName namespace scaleTarget m em =
     bind_res (deref_overrides em) (\<lambda>overrides.
     Ok (if \<not> HasAtLeastOneWithReplicasSet (GetByName (Workloads overrides) deploymentName)
         then AddTransformers [Some (Scale Deployment_gvk deploymentName namespace scaleTarget)] m
         else m))"

definition addHPATransformerIfNeeded ::
    "string \<Rightarrow> string \<Rightarrow> string \<Rightarrow> 64 word \<Rightarrow> manifests \<Rightarrow> event_mesh \<Rightarrow> manifests res" where
  "addHPATransformerIfNeeded hpaName deploymentName namespace scaleTarget m em =
     bind_res (deref_overrides em) (\<lambda>overrides.
     Ok (if \<not> HasAtLeastOneWithReplicasSet (GetByName (Workloads overrides) deploymentName)
         then if scaleTarget = 0
              then (let hpaFilter = mf_All [ByKind ''HorizontalPodAutoscaler'', ByName hpaName];
                        m1 = AddToDelete (Filter (ToApply m) [hpaFilter]) m;
                        m2 = FilterToApply (mf_Not hpaFilter) m1
                    in AddTransformers [Some (Scale Deployment_gvk deploymentName namespace scaleTarget)] m2)
              else AddTransformers [Some (HPAReplicas hpaName namespace scaleTarget)] m
         else m))"

definition applyScalingForIMC :: "('s, 'i, 'b) reconciler \<Rightarrow> manifests \<Rightarrow> event_mesh \<Rightarrow> manifests res" where
  "applyScalingForIMC r m em =
     bind_res (wrap_err ''failed to get scale target for IMC components'' (IMCScaleTarget (r_imcs r) (r_scaler r))) (\<lambda>t.
     bind_res (addDeploymentScaleTransformerIfNeeded ''imc-dispatcher'' (r_namespace r) t m em) (\<lambda>m1.
     addDeploymentScaleTransformerIfNeeded ''imc-controller'' (r_namespace r) t m1 em))"

definition applyScalingForMTBroker :: "('s, 'i, 'b) reconciler \<Rightarrow> manifests \<Rightarrow> event_mesh \<Rightarrow> manifests res" where
  "applyScalingForMTBroker r m em =
     bind_res (wrap_err ''failed to get scale target for MT Broker components'' (MTBrokerScaleTarget (r_brokers r) (r_scaler r))) (\<lambda>t.
     bind_res (addHPATransformerIfNeeded ''broker-filter-hpa'' ''mt-broker-filter'' (r_namespace r) t m em) (\<lambda>m1.
     bind_res (addHPATransformerIfNeeded ''broker-ingress-hpa'' ''mt-ingress-filter'' (r_namespace r) t m1 em) (\<lambda>m2.
     addDeploymentScaleTransformerIfNeeded ''mt-broker-controller'' (r_namespace r) t m2 em)))"

definition applyScaling :: "('s, 'i, 'b) reconciler \<Rightarrow> manifests \<Rightarrow> event_mesh \<Rightarrow> manifests res" where
  "applyScaling r m em =
     bind_res (wrap_err ''failed to apply Scaling for IMC'' (applyScalingForIMC r m em)) (\<lambda>m1.
     wrap_err ''failed to apply Scaling for MT broker'' (applyScalingForMTBroker r m1 em))"

section \<open>Ownership, Deployments, the run\<close>

definition addOwnerReference :: "manifests \<Rightarrow> event_mesh \<Rightarrow> manifests res" where
  "addOwnerReference m em = Ok (AddTransformers
     [Some (InjectOwner \<lparr>owner_gvk = SchemeGroupVersion_WithKind ''EventMesh'', owner_name = em_Name em, owner_uid = em_UID em\<rparr>)] m)"

fun isDeploymentAvailable_loop :: "(string \<times> string) list \<Rightarrow> bool" where
  "isDeploymentAvailable_loop [] = False"
| "isDeploymentAvailable_loop ((t, st) # cs) = (if t = ''Available'' \<and> st = ''True'' then True else isDeploymentAvailable_loop cs)"

definition isDeploymentAvailable :: "deployment \<Rightarrow> bool" where
  "isDeploymentAvailable d = isDeploymentAvailable_loop (d_Conditions d)"

text \<open>The loop of \<^verbatim>\<open>checkDeployments\<close>: the names that are not ready, or the lookup that failed.\<close>

fun nonReadyDeployments :: "deployment_lister \<Rightarrow> string list \<Rightarrow> gobj list \<Rightarrow> (gobj \<times> go_error) + string list res" where
  "nonReadyDeployments lister acc [] = Inr (Ok acc)"
| "nonReadyDeployments lister acc (u # us) = (case lister (GetNamespace u) (GetName u) of
       Err e \<Rightarrow> Inl (u, e)
     | Panic p \<Rightarrow> Inr (Panic p)
     | Ok d \<Rightarrow> nonReadyDeployments lister (if \<not> isDeploymentAvailable d then acc @ [d_Name d] else acc) us)"

definition mark_not_ready :: "('s, 'i, 'b) reconciler \<Rightarrow> string list \<Rightarrow> 's run_state \<Rightarrow> 's run_state" where
  "mark_not_ready r ds s = s\<lparr>rs_em := (rs_em s)\<lparr>em_Status := MarkDeploymentsNotReady (r_clock r) ds (em_Status (rs_em s))\<rparr>\<rparr>"

definition checkDeployments :: "('s, 'i, 'b) reconciler \<Rightarrow> 's stage" where
  "checkDeployments r s =
     (case nonReadyDeployments (r_checked r) [] (resources (Filter (ToApply (rs_manifests s)) [ByKind ''Deployment''])) of
        Inl (u, e) \<Rightarrow>
          (if IsNotFound e then Ok ()
           else Err (ErrWrap (''failed to get deployment '' @ GetNamespace u @ ''/'' @ GetName u) e),
           mark_not_ready r [''all''] s)
      | Inr (Panic p) \<Rightarrow> (Panic p, s)
      | Inr (Err e) \<Rightarrow> (Err e, s)
      | Inr (Ok nonReady) \<Rightarrow>
          (if length nonReady > 0 then (Err DeploymentsNotReadyError, mark_not_ready r nonReady s)
           else (Ok (), s\<lparr>rs_em := (rs_em s)\<lparr>em_Status := MarkDeploymentsAvailable (r_clock r) (em_Status (rs_em s))\<rparr>\<rparr>)))"

definition Install_stage :: "('s, 'i, 'b) reconciler \<Rightarrow> 's stage" where
  "Install_stage r s = (case Install (r_sort r) (r_client r) (r_manifest r) (rs_manifests s) (rs_cluster s) of
       (Ok m, c) \<Rightarrow> (Ok (), s\<lparr>rs_manifests := m, rs_cluster := c\<rparr>)
     | (Err e, c) \<Rightarrow> (Err e, s\<lparr>rs_cluster := c\<rparr>)
     | (Panic p, c) \<Rightarrow> (Panic p, s\<lparr>rs_cluster := c\<rparr>))"

definition reconcile_stages :: "('s, 'i, 'b) reconciler \<Rightarrow> 's stage list" where
  "reconcile_stages r =
     [manifests_stage (AppendFromParser (eventing_Parse (r_context r))),
      manifests_stage (AppendFromParser (kafkaBroker_Parse (r_context r))),
      manifests_stage (applyScaling r),
      manifests_stage addOwnerReference,
      manifests_stage Transform_stage,
      Install_stage r,
      checkDeployments r]"

definition ReconcileKind :: "('s, 'i, 'b) reconciler \<Rightarrow> event_mesh \<Rightarrow> 's \<Rightarrow> unit res \<times> event_mesh \<times> 's" where
  "ReconcileKind r em cluster =
     (case runPrechecks r em of
        (Err e, em') \<Rightarrow> (Err (ErrWrap ''could not run prechecks'' e), em', cluster)
      | (Panic p, em') \<Rightarrow> (Panic p, em', cluster)
      | (Ok precheckOk, em') \<Rightarrow>
          if \<not> precheckOk then (Ok (), em', cluster)
          else (case Execute (reconcile_stages r) em' cluster of
             (Err e, em'', c) \<Rightarrow> (if IsNonRecoverableError e then Ok () else Err e, em'', c)
           | (Panic p, em'', c) \<Rightarrow> (Panic p, em'', c)
           | (Ok _, em'', c) \<Rightarrow> (Ok (), em''\<lparr>em_Status := MarkInstallSucceeded (r_clock r) (em_Status em'')\<rparr>, c)))"

section \<open>Errors and their recognition\<close>

text \<open>
  An error made with \<open>NewNonRecoverableError\<close>, wrapped or not, is recognised by
  \<open>IsNonRecoverableError\<close> exactly when its message is empty: the comparison is with the error
  value of the empty message, not with the type. \<open>IsDeploymentsNotReadyError\<close>, whose type has no
  fields, recognises its error always.
\<close>

theorem IsNonRecoverableError_only_empty:
  "IsNonRecoverableError (NewNonRecoverableError msg) = (msg = '''') \<and>
   IsNonRecoverableError (ErrWrap m err) = IsNonRecoverableError err \<and>
   IsDeploymentsNotReadyError DeploymentsNotReadyError \<and>
   IsDeploymentsNotReadyError (ErrWrap m err) = IsDeploymentsNotReadyError err"
  by (auto simp: IsNonRecoverableError_def NewNonRecoverableError_def IsDeploymentsNotReadyError_def errors_Is_def)

section \<open>The pipeline in one piece\<close>

text \<open>The five stages that only prepare the manifests.\<close>

definition prepare :: "('s, 'i, 'b) reconciler \<Rightarrow> event_mesh \<Rightarrow> manifests res" where
  "prepare r em =
     bind_res (AppendFromParser (eventing_Parse (r_context r)) empty_manifests em) (\<lambda>m1.
     bind_res (AppendFromParser (kafkaBroker_Parse (r_context r)) m1 em) (\<lambda>m2.
     bind_res (applyScaling r m2 em) (\<lambda>m3.
     bind_res (addOwnerReference m3 em) (\<lambda>m4. Transform_stage m4 em))))"

text \<open>How \<open>Execute\<close> answers for a stage that failed.\<close>

definition stage_error :: "go_error \<Rightarrow> unit res" where
  "stage_error e = (if IsDeploymentsNotReadyError e then Ok () else Err e)"

lemma Execute_loop_manifests:
  "Execute_loop (manifests_stage f # stages) s = (case f (rs_manifests s) (rs_em s) of
       Ok m \<Rightarrow> Execute_loop stages (s\<lparr>rs_manifests := m\<rparr>)
     | Err e \<Rightarrow> (stage_error e, s)
     | Panic p \<Rightarrow> (Panic p, s))"
  by (auto simp: manifests_stage_def stage_error_def split: res.split)

lemma Execute_prepare:
  "Execute (reconcile_stages r) em c = (case prepare r em of
       Ok m \<Rightarrow> (case Execute_loop [Install_stage r, checkDeployments r] \<lparr>rs_manifests = m, rs_em = em, rs_cluster = c\<rparr> of
           (x, s) \<Rightarrow> (x, rs_em s, rs_cluster s))
     | Err e \<Rightarrow> (stage_error e, em, c)
     | Panic p \<Rightarrow> (Panic p, em, c))"
  unfolding Execute_def reconcile_stages_def prepare_def
  by (auto simp: Execute_loop_manifests simp del: Execute_loop.simps split: res.splits)

section \<open>Checking the Deployments\<close>

lemma isDeploymentAvailable_iff: "isDeploymentAvailable d \<longleftrightarrow> (''Available'', ''True'') \<in> set (d_Conditions d)"
proof -
  have "isDeploymentAvailable_loop cs \<longleftrightarrow> (''Available'', ''True'') \<in> set cs" for cs
    by (induction cs rule: isDeploymentAvailable_loop.induct) auto
  then show ?thesis by (simp add: isDeploymentAvailable_def)
qed

text \<open>The Deployments a lister shows for the resources, when it shows all of them.\<close>

definition looked_up :: "deployment_lister \<Rightarrow> gobj list \<Rightarrow> deployment list res" where
  "looked_up lister us = map_res (\<lambda>u. lister (GetNamespace u) (GetName u)) us"

lemma nonReadyDeployments_Ok:
  assumes "looked_up lister us = Ok ds"
  shows "nonReadyDeployments lister acc us = Inr (Ok (acc @ map d_Name (filter (\<lambda>d. \<not> isDeploymentAvailable d) ds)))"
  using assms
proof (induction us arbitrary: acc ds)
  case (Cons u us)
  then obtain d ds' where "lister (GetNamespace u) (GetName u) = Ok d" "looked_up lister us = Ok ds'" "ds = d # ds'"
    by (auto simp: looked_up_def go_outcome)
  with Cons.IH show ?case by simp
qed (simp add: looked_up_def)

text \<open>A lookup that fails ends the loop with the first failure.\<close>

lemma nonReadyDeployments_Err:
  "looked_up lister us = Err e \<Longrightarrow> \<exists>u\<in>set us. lister (GetNamespace u) (GetName u) = Err e \<and> nonReadyDeployments lister acc us = Inl (u, e)"
proof (induction us arbitrary: acc)
  case (Cons u us)
  then show ?case by (auto simp: looked_up_def go_outcome)
qed (simp add: looked_up_def)

definition checked_status :: "clock \<Rightarrow> deployment list \<Rightarrow> em_status \<Rightarrow> em_status" where
  "checked_status clk ds st = (let waiting = map d_Name (filter (\<lambda>d. \<not> isDeploymentAvailable d) ds) in
     if waiting = [] then MarkDeploymentsAvailable clk st else MarkDeploymentsNotReady clk waiting st)"

lemma checkDeployments_looked_up:
  assumes "looked_up (r_checked r) (deployments_of (ToApply (rs_manifests s))) = Ok ds"
  shows "checkDeployments r s =
    (if \<forall>d\<in>set ds. isDeploymentAvailable d then Ok () else Err DeploymentsNotReadyError,
     s\<lparr>rs_em := (rs_em s)\<lparr>em_Status := checked_status (r_clock r) ds (em_Status (rs_em s))\<rparr>\<rparr>)"
  using nonReadyDeployments_Ok [OF assms, of "[]"]
  unfolding checkDeployments_def resources_Filter_Deployment
  by (auto simp: checked_status_def mark_not_ready_def Let_def filter_empty_conv)

section \<open>What a run does\<close>

lemma IsDNR_simp [simp]: "IsDeploymentsNotReadyError DeploymentsNotReadyError"
  by (simp add: IsDeploymentsNotReadyError_def errors_Is_def)

lemma Execute_installed:
  assumes "prepare r em = Ok m" "Install (r_sort r) (r_client r) (r_manifest r) m c = (Ok m', c')"
  shows "Execute (reconcile_stages r) em c =
    (case checkDeployments r \<lparr>rs_manifests = m', rs_em = em, rs_cluster = c'\<rparr> of
       (x, s) \<Rightarrow> (case x of Err e \<Rightarrow> stage_error e | _ \<Rightarrow> x, rs_em s, rs_cluster s))"
  using assms by (auto simp: Execute_prepare Install_stage_def stage_error_def split: prod.split res.split)

text \<open>The view of a status after the Deployments were checked and the installation was marked.\<close>

lemma checked_status_view:
  assumes "wf_status st"
  shows "wf_status (checked_status clk ds st)"
    and "cond_view (checked_status clk ds st) ''DeploymentsAvailable'' =
      (if \<forall>d\<in>set ds. isDeploymentAvailable d then Some (ConditionTrue, '''', '''')
       else Some (ConditionFalse, ''NotReady'', ''Waiting on deployments: '' @
              Join (map d_Name (filter (\<lambda>d. \<not> isDeploymentAvailable d) ds)) '', ''))"
  using assms MarkTrue_refines [of st "''DeploymentsAvailable''" clk]
    MarkFalse_refines [of st "''DeploymentsAvailable''" clk]
  by (auto simp: checked_status_def Let_def MarkDeploymentsAvailable_def MarkDeploymentsNotReady_def
      condition_consts filter_empty_conv)

lemma MarkInstallSucceeded_view:
  assumes "wf_status st"
  shows "cond_view (MarkInstallSucceeded clk st) ''InstallSucceeded'' = Some (ConditionTrue, '''', '''')"
    and "cond_view (MarkInstallSucceeded clk st) ''Ready'' = Some (ready_after (cond_view st ''DeploymentsAvailable''))"
    and "cond_view (MarkInstallSucceeded clk st) ''DeploymentsAvailable'' = cond_view st ''DeploymentsAvailable''"
  using MarkTrue_refines(2) [of st "''InstallSucceeded''" clk] assms
  by (simp_all add: MarkInstallSucceeded_def condition_consts other_dependent_def)

lemma installed_run:
  assumes pre: "runPrechecks r em = (Ok True, em)"
    and prep: "prepare r em = Ok m"
    and inst: "Install (r_sort r) (r_client r) (r_manifest r) m c = (Ok m', c')"
    and ds: "looked_up (r_checked r) (deployments_of (ToApply m')) = Ok ds"
  shows "ReconcileKind r em c =
    (Ok (), em\<lparr>em_Status := MarkInstallSucceeded (r_clock r) (checked_status (r_clock r) ds (em_Status em))\<rparr>, c')"
proof -
  have "Execute (reconcile_stages r) em c = (Ok (), em\<lparr>em_Status := checked_status (r_clock r) ds (em_Status em)\<rparr>, c')"
    using checkDeployments_looked_up [of r "\<lparr>rs_manifests = m', rs_em = em, rs_cluster = c'\<rparr>" ds] ds
    by (simp add: Execute_installed [OF prep inst] stage_error_def)
  then show ?thesis using pre by (simp add: ReconcileKind_def)
qed

text \<open>The Deployments that do not report themselves available.\<close>

definition waiting_for :: "deployment list \<Rightarrow> deployment list" where
  "waiting_for ds = filter (\<lambda>d. (''Available'', ''True'') \<notin> set (d_Conditions d)) ds"

lemma installed_status_view:
  fixes clk ds st
  assumes wf: "wf_status st"
  defines "st' \<equiv> MarkInstallSucceeded clk (checked_status clk ds st)"
  shows "cond_view st' ''InstallSucceeded'' = Some (ConditionTrue, '''', '''')"
    and "cond_view st' ''Ready'' = (if waiting_for ds = [] then Some (ConditionTrue, '''', '''')
      else Some (ConditionFalse, ''NotReady'', ''Waiting on deployments: '' @ Join (map d_Name (waiting_for ds)) '', ''))"
    and "IsReady st' \<longleftrightarrow> waiting_for ds = []"
proof -
  have w: "waiting_for ds = filter (\<lambda>d. \<not> isDeploymentAvailable d) ds"
    by (simp add: waiting_for_def isDeploymentAvailable_iff)
  note v = MarkInstallSucceeded_view [OF checked_status_view(1) [OF wf], of clk clk ds]
  show "cond_view st' ''InstallSucceeded'' = Some (ConditionTrue, '''', '''')" using v(1) by (simp add: st'_def)
  show r: "cond_view st' ''Ready'' = (if waiting_for ds = [] then Some (ConditionTrue, '''', '''')
      else Some (ConditionFalse, ''NotReady'', ''Waiting on deployments: '' @ Join (map d_Name (waiting_for ds)) '', ''))"
    using v(2) checked_status_view(2) [OF wf, of clk ds]
    by (auto simp: st'_def ready_after_def condition_consts w filter_empty_conv)
  then show "IsReady st' \<longleftrightarrow> waiting_for ds = []" by (simp add: IsReady_view condition_consts)
qed

text \<open>
  When the prechecks pass, the manifests can be prepared and installed, and every Deployment
  of the manifests can be looked up, then the run succeeds, leaves the cluster as the installation
  left it, and marks the installation as succeeded. The EventMesh is then ready exactly when every
  one of those Deployments reports the condition Available as True; otherwise Ready is False with
  the list of the Deployments that are waited for.
\<close>

theorem installed_run_status:
  assumes wf: "wf_status (em_Status em)"
    and "runPrechecks r em = (Ok True, em)" "prepare r em = Ok m"
    and "Install (r_sort r) (r_client r) (r_manifest r) m c = (Ok m', c')"
    and "looked_up (r_checked r) (deployments_of (ToApply m')) = Ok ds"
  defines "waiting \<equiv> filter (\<lambda>d. (''Available'', ''True'') \<notin> set (d_Conditions d)) ds"
  shows "\<exists>em'. ReconcileKind r em c = (Ok (), em', c') \<and> em_Spec em' = em_Spec em \<and>
    cond_view (em_Status em') EventMeshConditionInstallSucceeded = Some (ConditionTrue, '''', '''') \<and>
    (IsReady (em_Status em') \<longleftrightarrow> waiting = []) \<and>
    (waiting \<noteq> [] \<longrightarrow> cond_view (em_Status em') ''Ready'' =
       Some (ConditionFalse, ''NotReady'', ''Waiting on deployments: '' @ Join (map d_Name waiting) '', ''))"
  using installed_run [OF assms(2-5)] installed_status_view [OF wf, of "r_clock r" ds]
  by (simp add: waiting_def waiting_for_def condition_consts)

text \<open>A failed preparation or installation returns the error and leaves the EventMesh as it was.\<close>

lemma failed_run_keeps_status:
  assumes pre: "runPrechecks r em = (Ok True, em)"
    and failed: "prepare r em = Err e \<and> c' = c \<or>
      (\<exists>m. prepare r em = Ok m \<and> Install (r_sort r) (r_client r) (r_manifest r) m c = (Err e, c'))"
    and "\<not> IsDeploymentsNotReadyError e" "\<not> IsNonRecoverableError e"
  shows "ReconcileKind r em c = (Err e, em, c')"
proof -
  have "Execute (reconcile_stages r) em c = (Err e, em, c')"
    using failed assms(3) by (auto simp: Execute_prepare stage_error_def Install_stage_def)
  then show ?thesis using pre assms(4) by (simp add: ReconcileKind_def)
qed

text \<open>
  When a Deployment of the manifests cannot be looked up, the EventMesh is not ready and waits
  for all Deployments: a Deployment that is not there yet counts as a successful run with the
  installation marked as succeeded, any other lookup error is returned without that mark.
\<close>

theorem missing_deployment_status:
  assumes wf: "wf_status (em_Status em)"
    and pre: "runPrechecks r em = (Ok True, em)"
    and prep: "prepare r em = Ok m"
    and inst: "Install (r_sort r) (r_client r) (r_manifest r) m c = (Ok m', c')"
    and missing: "looked_up (r_checked r) (deployments_of (ToApply m')) = Err e"
    and "\<not> IsDeploymentsNotReadyError e" "\<not> IsNonRecoverableError e"
  shows "\<exists>res em'. ReconcileKind r em c = (res, em', c') \<and> is_ok res = IsNotFound e \<and>
    cond_view (em_Status em') ''Ready'' = Some (ConditionFalse, ''NotReady'', ''Waiting on deployments: all'') \<and>
    (IsNotFound e \<longrightarrow> cond_view (em_Status em') EventMeshConditionInstallSucceeded = Some (ConditionTrue, '''', '''')) \<and>
    (\<not> IsNotFound e \<longrightarrow> cond_view (em_Status em') EventMeshConditionInstallSucceeded =
       cond_view (em_Status em) EventMeshConditionInstallSucceeded)"
proof -
  let ?st = "MarkDeploymentsNotReady (r_clock r) [''all''] (em_Status em)"
  from nonReadyDeployments_Err [OF missing, of "[]"] obtain u where
    u: "nonReadyDeployments (r_checked r) [] (deployments_of (ToApply m')) = Inl (u, e)" by blast
  have chk: "checkDeployments r \<lparr>rs_manifests = m', rs_em = em, rs_cluster = c'\<rparr> =
      (if IsNotFound e then Ok () else Err (ErrWrap (''failed to get deployment '' @ GetNamespace u @ ''/'' @ GetName u) e),
       \<lparr>rs_manifests = m', rs_em = em\<lparr>em_Status := ?st\<rparr>, rs_cluster = c'\<rparr>)"
    using u unfolding checkDeployments_def resources_Filter_Deployment by (simp add: mark_not_ready_def)
  note st = MarkFalse_refines [OF wf, of "''DeploymentsAvailable''" "r_clock r" "''NotReady''" "''Waiting on deployments: all''"]
  have wf': "wf_status ?st" and stv: "cond_view ?st = (cond_view (em_Status em))
      (''DeploymentsAvailable'' \<mapsto> (ConditionFalse, ''NotReady'', ''Waiting on deployments: all''),
       ''Ready'' \<mapsto> (ConditionFalse, ''NotReady'', ''Waiting on deployments: all''))"
    using st by (simp_all add: MarkDeploymentsNotReady_def condition_consts)
  note v = MarkInstallSucceeded_view [OF wf', of "r_clock r"]
  show ?thesis
  proof (cases "IsNotFound e")
    case True
    then have "ReconcileKind r em c = (Ok (), em\<lparr>em_Status := MarkInstallSucceeded (r_clock r) ?st\<rparr>, c')"
      using pre by (simp add: ReconcileKind_def Execute_installed [OF prep inst] chk)
    with True v stv show ?thesis by (simp add: ready_after_def condition_consts)
  next
    case False
    have "\<not> IsDeploymentsNotReadyError (ErrWrap x e)" "\<not> IsNonRecoverableError (ErrWrap x e)" for x
      using assms(6,7) by (simp_all add: IsDeploymentsNotReadyError_def IsNonRecoverableError_def errors_Is_def)
    then have "ReconcileKind r em c = (Err (ErrWrap (''failed to get deployment '' @ GetNamespace u @ ''/'' @ GetName u) e),
        em\<lparr>em_Status := ?st\<rparr>, c')"
      using pre False by (simp add: ReconcileKind_def Execute_installed [OF prep inst] chk stage_error_def)
    with False stv show ?thesis by (simp add: condition_consts)
  qed
qed

section \<open>Prechecks\<close>

lemma owned_by_iff: "owned_by owners em \<longleftrightarrow> (\<exists>ow\<in>set owners. or_Kind ow = ''EventMesh'' \<and>
    or_APIVersion ow = ''operator.knative.dev/v1alpha1'' \<and> or_Name ow = em_Name em)"
  by (induction owners) (auto simp: SchemeGroupVersion_WithKind_def GroupVersion_String_def Let_def)

lemma hasForeignEventingInstalled_False:
  "hasForeignEventingInstalled r em = Ok False \<longleftrightarrow>
     (case pc_deployments (r_context r) (r_namespace r) ''eventing-controller'' of
        Ok d \<Rightarrow> owned_by (d_OwnerReferences d) em
      | Err e \<Rightarrow> IsNotFound e
      | Panic p \<Rightarrow> False)"
  by (auto simp: hasForeignEventingInstalled_def split: res.split)

lemma hasCertManagerInstalled_eq: "hasCertManagerInstalled r = IsCertmanagerInstalled (pc_crd (r_context r))"
  by (simp add: hasCertManagerInstalled_def IsCertmanagerInstalled_def split: res.split)

text \<open>The prechecks with the feature flags resolved, which never fails.\<close>

lemma runPrechecks_cases:
  "runPrechecks r em = (case hasForeignEventingInstalled r em of
       Err e \<Rightarrow> (Err (ErrMsg (''could not determine whether EventMesh is installed already: '' @ err_text e)), em)
     | Panic p \<Rightarrow> (Panic p, em)
     | Ok True \<Rightarrow> (Ok False, mark_failed r ''EventingInstalledAlready''
         ''Knative eventing components seem to be installed already and not owned by the EventMesh'' em)
     | Ok False \<Rightarrow>
         if encryption_disabled em then (Ok True, em)
         else (case hasCertManagerInstalled r of
           Err e \<Rightarrow> (Err (ErrMsg (''could not determine whether cert-manager is installed: '' @ err_text e)), em)
         | Panic p \<Rightarrow> (Panic p, em)
         | Ok True \<Rightarrow> (Ok True, em)
         | Ok False \<Rightarrow> (Ok False, mark_failed r ''CertManagerRequired''
             ''Feature transport-encryption is enabled, but cert-manager seems not to be installed'' em)))"
proof -
  obtain flags where "GetEventingFeatureFlags (Features (em_Spec em)) = Ok flags"
    using GetEventingFeatureFlags_Ok by blast
  then show ?thesis
    by (auto simp: runPrechecks_def encryption_disabled_def flat_err_def TransportEncryption_def split: res.split)
qed

text \<open>
  Claim C3. The prechecks pass exactly when no eventing-controller Deployment exists or the existing one
  is owned by this EventMesh, and transport encryption is disabled or cert-manager is installed. When
  they do not pass, the run changes nothing in the cluster; and when they fail without an error the
  run succeeds with InstallSucceeded and Ready both False for the same reason.
\<close>

theorem prechecks_guard_installation:
  assumes wf: "wf_status (em_Status em)"
  shows "(fst (runPrechecks r em) = Ok True \<longleftrightarrow>
      (case pc_deployments (r_context r) (r_namespace r) ''eventing-controller'' of
         Ok d \<Rightarrow> \<exists>ow\<in>set (d_OwnerReferences d). or_Kind ow = ''EventMesh'' \<and>
           or_APIVersion ow = ''operator.knative.dev/v1alpha1'' \<and> or_Name ow = em_Name em
       | Err e \<Rightarrow> IsNotFound e
       | Panic p \<Rightarrow> False) \<and>
      (encryption_disabled em \<or> is_ok (pc_crd (r_context r) ''certificates.cert-manager.io''))) \<and>
    (fst (runPrechecks r em) \<noteq> Ok True \<longrightarrow> snd (snd (ReconcileKind r em c)) = c) \<and>
    (fst (runPrechecks r em) = Ok False \<longrightarrow> (\<exists>em' reason message. ReconcileKind r em c = (Ok (), em', c) \<and>
       cond_view (em_Status em') EventMeshConditionInstallSucceeded = Some (ConditionFalse, reason, message) \<and>
       cond_view (em_Status em') ''Ready'' = Some (ConditionFalse, reason, message) \<and>
       reason \<in> {''EventingInstalledAlready'', ''CertManagerRequired''}))"
proof (intro conjI impI)
  show "fst (runPrechecks r em) = Ok True \<longleftrightarrow>
      (case pc_deployments (r_context r) (r_namespace r) ''eventing-controller'' of
         Ok d \<Rightarrow> \<exists>ow\<in>set (d_OwnerReferences d). or_Kind ow = ''EventMesh'' \<and>
           or_APIVersion ow = ''operator.knative.dev/v1alpha1'' \<and> or_Name ow = em_Name em
       | Err e \<Rightarrow> IsNotFound e
       | Panic p \<Rightarrow> False) \<and>
      (encryption_disabled em \<or> is_ok (pc_crd (r_context r) ''certificates.cert-manager.io''))"
    using hasForeignEventingInstalled_False [of r em]
    by (auto simp: runPrechecks_cases hasCertManagerInstalled_eq IsCertmanagerInstalled_def owned_by_iff
        split: res.splits bool.splits)
next
  assume "fst (runPrechecks r em) \<noteq> Ok True"
  then show "snd (snd (ReconcileKind r em c)) = c"
    by (auto simp: ReconcileKind_def split: prod.splits res.splits)
next
  assume "fst (runPrechecks r em) = Ok False"
  then obtain reason message where
    p: "runPrechecks r em = (Ok False, mark_failed r reason message em)"
    and reason: "reason \<in> {''EventingInstalledAlready'', ''CertManagerRequired''}"
    by (auto simp: runPrechecks_cases split: res.splits bool.splits if_splits)
  have "ReconcileKind r em c = (Ok (), mark_failed r reason message em, c)"
    using p by (simp add: ReconcileKind_def)
  moreover have "cond_view (em_Status (mark_failed r reason message em)) t = Some (ConditionFalse, reason, message)"
    if "t \<in> {''InstallSucceeded'', ''Ready''}" for t
    using MarkFalse_refines(2) [OF wf, of "''InstallSucceeded''" "r_clock r" reason message] that
    by (auto simp: mark_failed_def MarkInstallFailed_def condition_consts)
  ultimately show "\<exists>em' reason message. ReconcileKind r em c = (Ok (), em', c) \<and>
       cond_view (em_Status em') EventMeshConditionInstallSucceeded = Some (ConditionFalse, reason, message) \<and>
       cond_view (em_Status em') ''Ready'' = Some (ConditionFalse, reason, message) \<and>
       reason \<in> {''EventingInstalledAlready'', ''CertManagerRequired''}"
    using reason by (auto simp: condition_consts)
qed

text \<open>
  Claim C20. What the operator writes it recognises: a Deployment that carries the owner reference the
  reconciler injects for an EventMesh is never taken for a foreign installation by a later run for
  that EventMesh, whatever its UID has become; an EventMesh of another name does take it for one.
\<close>

theorem own_installation_recognised:
  fixes em em' :: event_mesh
  assumes "pc_deployments (r_context r) (r_namespace r) ''eventing-controller'' = Ok d"
  defines "ow \<equiv> \<lparr>owner_gvk = GetGroupVersionKind, owner_name = em_Name em, owner_uid = em_UID em\<rparr>"
  shows "addOwnerReference m em = Ok (AddTransformers [Some (InjectOwner ow)] m) \<and>
    (d_OwnerReferences d = [NewControllerRef ow] \<longrightarrow>
      hasForeignEventingInstalled r em' = Ok (em_Name em' \<noteq> em_Name em))"
  using assms
  by (auto simp: hasForeignEventingInstalled_def owned_by_iff NewControllerRef_def addOwnerReference_def
      GetGroupVersionKind_def SchemeGroupVersion_WithKind_def GroupVersion_String_def)

section \<open>Scaling decisions\<close>

definition has_replicas_override :: "event_mesh \<Rightarrow> string \<Rightarrow> bool" where
  "has_replicas_override em name = (case Overrides (em_Spec em) of
       None \<Rightarrow> False
     | Some ov \<Rightarrow> HasAtLeastOneWithReplicasSet (GetByName (Workloads ov) name))"

definition is_hpa :: "string \<Rightarrow> gobj \<Rightarrow> bool" where
  "is_hpa name u \<longleftrightarrow> GetKind u = ''HorizontalPodAutoscaler'' \<and> GetName u = name"

lemma ToApply_FilterToApply [simp]:
  "resources (ToApply (FilterToApply p m)) = filter p (resources (ToApply m))"
  "ToDelete (FilterToApply p m) = ToDelete m" "PostInstall (FilterToApply p m) = PostInstall m"
  "Transformers (FilterToApply p m) = Transformers m"
  by (simp_all add: FilterToApply_def)

lemma Deployment_gvk_eq: "Deployment_gvk = \<lparr>Group = ''apps'', Version = ''v1'', Kind = ''Deployment''\<rparr>"
  by code_simp

lemma addDeploymentScale_eq:
  assumes "Overrides (em_Spec em) = Some ov"
  shows "addDeploymentScaleTransformerIfNeeded name ns t m em = Ok (if has_replicas_override em name then m
    else AddTransformers [Some (Scale Deployment_gvk name ns t)] m)"
  using assms by (simp add: addDeploymentScaleTransformerIfNeeded_def deref_overrides_def has_replicas_override_def)

lemma addHPA_eq:
  assumes "Overrides (em_Spec em) = Some ov"
  shows "\<exists>m'. addHPATransformerIfNeeded hpa dep ns t m em = Ok m' \<and> PostInstall m' = PostInstall m \<and>
    (if has_replicas_override em dep then m' = m
     else if t = 0 then
       resources (ToApply m') = filter (\<lambda>u. \<not> is_hpa hpa u) (resources (ToApply m)) \<and>
       resources (ToDelete m') = resources (ToDelete m) @ filter (is_hpa hpa) (resources (ToApply m)) \<and>
       Transformers m' = Transformers m @ [Some (Scale Deployment_gvk dep ns 0)]
     else m' = AddTransformers [Some (HPAReplicas hpa ns t)] m)"
  using assms
  by (auto simp: addHPATransformerIfNeeded_def deref_overrides_def has_replicas_override_def Let_def mf_Not_def [abs_def]
      is_hpa_def ByKind_def ByName_def intro!: filter_cong)

text \<open>
  Claim C27. Scaling the autoscaled broker components: without a replica override, target 0 moves the
  autoscaler from the manifests to apply to those to delete, loses and adds no resource, and scales
  the Deployment directly; a positive target keeps the autoscaler and raises its lower bound. With a
  replica override of the Deployment nothing changes.
\<close>

theorem hpa_scaling_decision:
  assumes "Overrides (em_Spec em) = Some ov"
  shows "\<exists>m'. addHPATransformerIfNeeded hpa dep ns t m em = Ok m' \<and>
    mset (resources (ToApply m')) + mset (resources (ToDelete m')) =
      mset (resources (ToApply m)) + mset (resources (ToDelete m)) \<and>
    (if HasAtLeastOneWithReplicasSet (GetByName (Workloads ov) dep) then m' = m
     else if t = 0 then
       (\<forall>u\<in>set (resources (ToApply m')). \<not> (GetKind u = ''HorizontalPodAutoscaler'' \<and> GetName u = hpa)) \<and>
       (\<forall>u\<in>set (resources (ToApply m)). GetKind u = ''HorizontalPodAutoscaler'' \<and> GetName u = hpa \<longrightarrow>
          u \<in> set (resources (ToDelete m'))) \<and>
       Transformers m' = Transformers m @ [Some (Scale \<lparr>Group = ''apps'', Version = ''v1'', Kind = ''Deployment''\<rparr> dep ns 0)]
     else m' = AddTransformers [Some (HPAReplicas hpa ns t)] m)"
proof -
  obtain m' where m': "addHPATransformerIfNeeded hpa dep ns t m em = Ok m'"
    "if has_replicas_override em dep then m' = m
     else if t = 0 then
       resources (ToApply m') = filter (\<lambda>u. \<not> is_hpa hpa u) (resources (ToApply m)) \<and>
       resources (ToDelete m') = resources (ToDelete m) @ filter (is_hpa hpa) (resources (ToApply m)) \<and>
       Transformers m' = Transformers m @ [Some (Scale Deployment_gvk dep ns 0)]
     else m' = AddTransformers [Some (HPAReplicas hpa ns t)] m"
    using addHPA_eq [OF assms, of hpa dep ns t m] by blast
  have "mset (filter (\<lambda>u. \<not> is_hpa hpa u) us) + (mset ds + mset (filter (is_hpa hpa) us)) = mset us + mset ds" for us ds
    by (induction us) auto
  then show ?thesis
    using m' assms by (intro exI [of _ m']) (auto simp: has_replicas_override_def is_hpa_def Deployment_gvk_eq split: if_splits)
qed

text \<open>The transformers the scaling stage adds.\<close>

definition scaled_names :: "string list" where
  "scaled_names = [''imc-dispatcher'', ''imc-controller'', ''mt-broker-filter'', ''mt-ingress-filter'', ''mt-broker-controller'']"

definition scaling_transformer :: "transformer option \<Rightarrow> bool" where
  "scaling_transformer t \<longleftrightarrow> (\<exists>n ns x. n \<in> set scaled_names \<and> t = Some (Scale Deployment_gvk n ns x)) \<or>
     (\<exists>h ns x. t = Some (HPAReplicas h ns x))"

lemma scaled_names_mem:
  "''imc-dispatcher'' \<in> set scaled_names" "''imc-controller'' \<in> set scaled_names" "''mt-broker-filter'' \<in> set scaled_names"
  "''mt-ingress-filter'' \<in> set scaled_names" "''mt-broker-controller'' \<in> set scaled_names"
  by (simp_all add: scaled_names_def)

lemma scaling_transformerI:
  "n \<in> set scaled_names \<Longrightarrow> scaling_transformer (Some (Scale Deployment_gvk n ns x))"
  "scaling_transformer (Some (HPAReplicas h ns x))"
  unfolding scaling_transformer_def by blast+

lemma scaling_transformer_other:
  assumes "scaling_transformer t" "GetKind u = ''Deployment''" "GetName u \<notin> set scaled_names"
  shows "run_transformer t u = Ok u"
  using assms
  by (auto simp: scaling_transformer_def run_transformer_def Scale_def HPAReplicas_def Deployment_gvk_eq scalableKinds_def)

definition adds_scaling :: "manifests \<Rightarrow> manifests \<Rightarrow> bool" where
  "adds_scaling m m' \<longleftrightarrow> (\<exists>ts. Transformers m' = Transformers m @ ts \<and> (\<forall>t\<in>set ts. scaling_transformer t))"

lemma adds_scaling_trans: "adds_scaling a b \<Longrightarrow> adds_scaling b c \<Longrightarrow> adds_scaling a c"
  by (fastforce simp: adds_scaling_def)

lemma adds_scaling_steps:
  assumes "n \<in> set scaled_names"
  shows "addDeploymentScaleTransformerIfNeeded n ns t m em = Ok m' \<Longrightarrow> adds_scaling m m'"
    and "addHPATransformerIfNeeded h n ns t m em = Ok m' \<Longrightarrow> adds_scaling m m'"
  using assms
  by (auto simp: addDeploymentScaleTransformerIfNeeded_def addHPATransformerIfNeeded_def go_outcome adds_scaling_def
      scaling_transformerI Let_def split: if_splits)

lemma applyScaling_steps:
  assumes "applyScaling r m em = Ok m'"
  obtains ti tb m1 m2 m3 m4 where
    "addDeploymentScaleTransformerIfNeeded ''imc-dispatcher'' (r_namespace r) ti m em = Ok m1"
    "addDeploymentScaleTransformerIfNeeded ''imc-controller'' (r_namespace r) ti m1 em = Ok m2"
    "MTBrokerScaleTarget (r_brokers r) (r_scaler r) = Ok tb"
    "addHPATransformerIfNeeded ''broker-filter-hpa'' ''mt-broker-filter'' (r_namespace r) tb m2 em = Ok m3"
    "addHPATransformerIfNeeded ''broker-ingress-hpa'' ''mt-ingress-filter'' (r_namespace r) tb m3 em = Ok m4"
    "addDeploymentScaleTransformerIfNeeded ''mt-broker-controller'' (r_namespace r) tb m4 em = Ok m'"
  using assms by (auto simp: applyScaling_def applyScalingForIMC_def applyScalingForMTBroker_def go_outcome)

lemma applyScaling_adds:
  assumes "applyScaling r m em = Ok m'"
  shows "adds_scaling m m'"
  using assms
proof (rule applyScaling_steps)
  fix ti tb m1 m2 m3 m4
  assume steps:
    "addDeploymentScaleTransformerIfNeeded ''imc-dispatcher'' (r_namespace r) ti m em = Ok m1"
    "addDeploymentScaleTransformerIfNeeded ''imc-controller'' (r_namespace r) ti m1 em = Ok m2"
    "addHPATransformerIfNeeded ''broker-filter-hpa'' ''mt-broker-filter'' (r_namespace r) tb m2 em = Ok m3"
    "addHPATransformerIfNeeded ''broker-ingress-hpa'' ''mt-ingress-filter'' (r_namespace r) tb m3 em = Ok m4"
    "addDeploymentScaleTransformerIfNeeded ''mt-broker-controller'' (r_namespace r) tb m4 em = Ok m'"
  note a = adds_scaling_steps(1) [OF scaled_names_mem(1) steps(1)] adds_scaling_steps(1) [OF scaled_names_mem(2) steps(2)]
    adds_scaling_steps(2) [OF scaled_names_mem(3) steps(3)] adds_scaling_steps(2) [OF scaled_names_mem(4) steps(4)]
    adds_scaling_steps(1) [OF scaled_names_mem(5) steps(5)]
  from adds_scaling_trans [OF adds_scaling_trans [OF adds_scaling_trans [OF adds_scaling_trans [OF a(1,2)] a(3)] a(4)] a(5)]
  show ?thesis .
qed

lemma applyScaling_total:
  assumes "Overrides (em_Spec em) = Some ov"
    and "IMCScaleTarget (r_imcs r) (r_scaler r) = Ok ti" "MTBrokerScaleTarget (r_brokers r) (r_scaler r) = Ok tb"
  shows "is_ok (applyScaling r m em)"
proof -
  have d: "is_ok (addDeploymentScaleTransformerIfNeeded n ns t k em)" for n ns t k
    by (simp add: addDeploymentScale_eq [OF assms(1)])
  have h: "is_ok (addHPATransformerIfNeeded hp n ns t k em)" for hp n ns t k
    using addHPA_eq [OF assms(1), of hp n ns t k] by auto
  have b: "is_ok (bind_res x f)" if "is_ok x" "\<And>y. is_ok (f y)" for x :: "manifests res" and f :: "manifests \<Rightarrow> manifests res"
    using that by (cases x) auto
  have w: "is_ok (wrap_err msg x) = is_ok x" for msg and x :: "manifests res" by (cases x) auto
  show ?thesis
    using assms(2,3)
    by (auto simp: applyScaling_def applyScalingForIMC_def applyScalingForMTBroker_def w intro!: b d h)
qed

text \<open>
  Claim C38. The second autoscaled component is scaled under a Deployment name, \<^verbatim>\<open>mt-ingress-filter\<close>,
  that is not the ingress's: no transformer of the scaling stage changes the Deployment
  \<^verbatim>\<open>mt-broker-ingress\<close>, so it is never scaled to 0; and with target 0 its autoscaler
  \<^verbatim>\<open>broker-ingress-hpa\<close> is removed even when the user overrides the replicas of \<^verbatim>\<open>mt-broker-ingress\<close>.
\<close>

theorem ingress_never_scaled:
  assumes "applyScaling r m em = Ok m'"
    and "GetName u = ''mt-broker-ingress''" "GetKind u = ''Deployment''"
  shows "\<exists>ts. Transformers m' = Transformers m @ ts \<and> (\<forall>t\<in>set ts. run_transformer t u = Ok u) \<and>
    (MTBrokerScaleTarget (r_brokers r) (r_scaler r) = Ok 0 \<and> \<not> has_replicas_override em ''mt-ingress-filter'' \<longrightarrow>
       (\<forall>v\<in>set (resources (ToApply m')). \<not> is_hpa ''broker-ingress-hpa'' v))"
proof -
  have "GetName u \<notin> set scaled_names" using assms(2) by (simp add: scaled_names_def)
  then have ts: "\<exists>ts. Transformers m' = Transformers m @ ts \<and> (\<forall>t\<in>set ts. run_transformer t u = Ok u)"
    using applyScaling_adds [OF assms(1)] scaling_transformer_other [OF _ assms(3)] by (auto simp: adds_scaling_def)
  from assms(1) have "\<not> is_hpa ''broker-ingress-hpa'' v"
    if t: "MTBrokerScaleTarget (r_brokers r) (r_scaler r) = Ok 0" and o: "\<not> has_replicas_override em ''mt-ingress-filter''"
      and v: "v \<in> set (resources (ToApply m'))" for v
  proof (rule applyScaling_steps)
    fix tb m3 m4
    assume tb: "MTBrokerScaleTarget (r_brokers r) (r_scaler r) = Ok tb"
      and h: "addHPATransformerIfNeeded ''broker-ingress-hpa'' ''mt-ingress-filter'' (r_namespace r) tb m3 em = Ok m4"
      and d: "addDeploymentScaleTransformerIfNeeded ''mt-broker-controller'' (r_namespace r) tb m4 em = Ok m'"
    from d obtain ov where ov: "Overrides (em_Spec em) = Some ov"
      by (auto simp: addDeploymentScaleTransformerIfNeeded_def deref_overrides_def go_outcome split: option.splits)
    show ?thesis
      using addHPA_eq [OF ov, of "''broker-ingress-hpa''" "''mt-ingress-filter''" "r_namespace r" tb m3] t tb h d o v
      by (auto simp: addDeploymentScale_eq [OF ov] split: if_splits)
  qed
  with ts show ?thesis by blast
qed

section \<open>The resources of a run\<close>

text \<open>The manifests before the transform stage, and their transformers.\<close>

definition collected :: "('s, 'i, 'b) reconciler \<Rightarrow> event_mesh \<Rightarrow> manifests res" where
  "collected r em =
     bind_res (AppendFromParser (eventing_Parse (r_context r)) empty_manifests em) (\<lambda>m1.
     bind_res (AppendFromParser (kafkaBroker_Parse (r_context r)) m1 em) (\<lambda>m2.
     bind_res (applyScaling r m2 em) (\<lambda>m3. addOwnerReference m3 em)))"

definition collected_transformers :: "('s, 'i, 'b) reconciler \<Rightarrow> event_mesh \<Rightarrow> transformer option list" where
  "collected_transformers r em = (case collected r em of Ok m \<Rightarrow> Transformers m | _ \<Rightarrow> [])"

lemma prepare_collected: "prepare r em = bind_res (collected r em) (\<lambda>m. Transform_stage m em)"
  by (simp add: prepare_def collected_def bind_res_assoc)

text \<open>What a scaling step may do: move resources to the ones to delete, and add harmless transformers.\<close>

definition scaling_rel :: "manifests \<Rightarrow> manifests \<Rightarrow> bool" where
  "scaling_rel m m' \<longleftrightarrow>
     mset (resources (ToApply m')) + mset (resources (ToDelete m')) =
       mset (resources (ToApply m)) + mset (resources (ToDelete m)) \<and>
     PostInstall m' = PostInstall m \<and>
     filter (\<lambda>u. GetKind u \<noteq> ''HorizontalPodAutoscaler'') (resources (ToApply m')) =
       filter (\<lambda>u. GetKind u \<noteq> ''HorizontalPodAutoscaler'') (resources (ToApply m)) \<and>
     (\<forall>f. Some f \<in> set (Transformers m') \<longrightarrow> Some f \<in> set (Transformers m) \<or> keeps_identity f)"

lemma scaling_rel_trans: "scaling_rel a b \<Longrightarrow> scaling_rel b c \<Longrightarrow> scaling_rel a c"
  unfolding scaling_rel_def by (metis (no_types, lifting))

lemma addDeploymentScale_rel:
  assumes "addDeploymentScaleTransformerIfNeeded n ns t m em = Ok m'"
  shows "scaling_rel m m'"
  using assms
  by (auto simp: addDeploymentScaleTransformerIfNeeded_def scaling_rel_def go_outcome keeps_identity_transformers
      split: if_splits)

lemma addHPA_rel:
  assumes "addHPATransformerIfNeeded hpa n ns t m em = Ok m'"
  shows "scaling_rel m m'"
proof -
  from assms obtain ov where ov: "Overrides (em_Spec em) = Some ov"
    by (auto simp: addHPATransformerIfNeeded_def deref_overrides_def go_outcome split: option.splits)
  have "mset (filter (\<lambda>u. \<not> is_hpa hpa u) us) + (mset ds + mset (filter (is_hpa hpa) us)) = mset us + mset ds" for us ds
    by (induction us) auto
  moreover have "filter (\<lambda>u. GetKind u \<noteq> ''HorizontalPodAutoscaler'') (filter (\<lambda>u. \<not> is_hpa hpa u) us) =
      filter (\<lambda>u. GetKind u \<noteq> ''HorizontalPodAutoscaler'') us" for us
    by (induction us) (auto simp: is_hpa_def)
  ultimately show ?thesis
    using addHPA_eq [OF ov, of hpa n ns t m] assms
    by (auto simp: scaling_rel_def keeps_identity_transformers simp del: filter_filter split: if_splits)
qed

lemma applyScaling_rel:
  assumes "applyScaling r m em = Ok m'"
  shows "scaling_rel m m'"
  using assms
  by (auto simp: applyScaling_def applyScalingForIMC_def applyScalingForMTBroker_def go_outcome
      dest!: addDeploymentScale_rel addHPA_rel) (blast intro: scaling_rel_trans)

lemma collected_Ok:
  assumes "collected r em = Ok m"
  obtains ev kb where "eventing_Parse (r_context r) em = Ok ev" "kafkaBroker_Parse (r_context r) em = Ok kb"
    "mset (resources (ToApply m)) + mset (resources (ToDelete m)) =
       mset (resources (ToApply ev) @ resources (ToApply kb) @ resources (ToDelete ev) @ resources (ToDelete kb))"
    "resources (PostInstall m) = resources (PostInstall ev) @ resources (PostInstall kb)"
    "\<And>f. Some f \<in> set (Transformers m) \<Longrightarrow> keeps_identity f"
proof -
  from assms obtain ev kb m3 where p: "eventing_Parse (r_context r) em = Ok ev" "kafkaBroker_Parse (r_context r) em = Ok kb"
    and s: "applyScaling r (Append_manifests (Some kb) (Append_manifests (Some ev) empty_manifests)) em = Ok m3"
    and m: "addOwnerReference m3 em = Ok m"
    by (auto simp: collected_def AppendFromParser_def go_outcome)
  from eventing_Parse_transformers [OF p(1)] obtain ov where
    ov: "Transformers ev = take 6 (parser_transformers (pc_env (r_context r)) (em_Spec em) ov)" by blast
  note kb = kafkaBroker_Parse_transformers [OF p(2), of ov]
  note rel = applyScaling_rel [OF s, unfolded scaling_rel_def]
  have "keeps_identity f" if "Some f \<in> set (Transformers m)" for f
  proof -
    have "Some f \<in> set (parser_transformers (pc_env (r_context r)) (em_Spec em) ov) \<or> keeps_identity f"
      using that m rel ov kb
      by (auto simp: addOwnerReference_def keeps_identity_transformers dest: in_set_takeD in_set_dropD)
    then show ?thesis using keeps_identity_parser by blast
  qed
  with p m rel show ?thesis
    by (intro that [of ev kb]) (auto simp: addOwnerReference_def ac_simps)
qed

interpretation collected: identity_transformers "collected_transformers r em" for r em
proof
  fix f u u'
  assume f: "Some f \<in> set (collected_transformers r em)" "f u = Ok u'"
  then obtain m where "collected r em = Ok m" "Some f \<in> set (Transformers m)"
    by (cases "collected r em") (auto simp: collected_transformers_def)
  then have "keeps_identity f" by (auto elim: collected_Ok)
  with f(2) show "res_key u' = res_key u" by (simp add: keeps_identity_def)
qed

text \<open>
  Claim C2. The operator only ever applies or deletes what it ships: the objects a run prepares to
  apply and to delete are, by group, version, kind, namespace and name and with multiplicity, the
  objects the two parsers loaded, and the post-install objects likewise, in order. Neither the
  scaling nor any transformer, overrides of the user included, makes an object appear, vanish or
  change its identity.
\<close>

theorem prepare_keeps_identity:
  assumes "prepare r em = Ok m"
  shows "\<exists>ev kb. eventing_Parse (r_context r) em = Ok ev \<and> kafkaBroker_Parse (r_context r) em = Ok kb \<and>
    image_mset res_key (mset (resources (ToApply m) @ resources (ToDelete m))) =
      image_mset res_key (mset (resources (ToApply ev) @ resources (ToApply kb) @ resources (ToDelete ev) @ resources (ToDelete kb))) \<and>
    map res_key (resources (PostInstall m)) = map res_key (resources (PostInstall ev) @ resources (PostInstall kb))"
proof -
  from assms obtain m4 where c: "collected r em = Ok m4" and t: "Transform_stage m4 em = Ok m"
    by (auto simp: prepare_collected go_outcome)
  have ts: "Transformers m4 = collected_transformers r em" by (simp add: collected_transformers_def c)
  from t obtain a d p where
    "Transform (ToApply m4) (Transformers m4) = Ok a" "Transform (ToDelete m4) (Transformers m4) = Ok d"
    "Transform (PostInstall m4) (Transformers m4) = Ok p" "m = m4\<lparr>ToApply := a, ToDelete := d, PostInstall := p\<rparr>"
    by (rule Transform_stage_Ok)
  then have keys: "map res_key (resources (ToApply m)) = map res_key (resources (ToApply m4))"
    "map res_key (resources (ToDelete m)) = map res_key (resources (ToDelete m4))"
    "map res_key (resources (PostInstall m)) = map res_key (resources (PostInstall m4))"
    using collected.Transform_keys by (simp_all add: ts)
  from c obtain ev kb where parsed: "eventing_Parse (r_context r) em = Ok ev" "kafkaBroker_Parse (r_context r) em = Ok kb"
    and res: "mset (resources (ToApply m4)) + mset (resources (ToDelete m4)) =
       mset (resources (ToApply ev) @ resources (ToApply kb) @ resources (ToDelete ev) @ resources (ToDelete kb))"
      "resources (PostInstall m4) = resources (PostInstall ev) @ resources (PostInstall kb)"
    by (rule collected_Ok)
  have "image_mset res_key (mset (resources (ToApply m) @ resources (ToDelete m))) =
      image_mset res_key (mset (resources (ToApply m4)) + mset (resources (ToDelete m4)))"
    using keys(1,2) by (metis image_mset_union mset_append mset_map)
  with parsed res keys(3) show ?thesis by simp
qed

section \<open>A sample run\<close>

text \<open>
  A cluster that knows nothing yet and accepts every object; parsers whose core files hold the two
  Deployments of the sample manifest; no channels and Brokers.
\<close>

definition sample_client :: "gobj list mf_client" where
  "sample_client = \<lparr>c_get = (\<lambda>u s. Err (APINotFound (GetName u))), c_create = (\<lambda>u s. (Ok (), s @ [u])),
     c_update = (\<lambda>u s. (Ok (), s)), c_delete = (\<lambda>u s. (Ok (), s)), c_patch = (\<lambda>a b c. Ok None),
     c_marshal = (\<lambda>u. ''{}''), c_overlay = (\<lambda>a b. b)\<rparr>"

definition sample_parsers :: parser_context where
  "sample_parsers = sample_context\<lparr>pc_new_manifest := (\<lambda>path.
     Ok (if List.member [''/var/run/ko/eventing-latest/eventing-core.yaml'',
             ''/var/run/ko/eventing-kafka-broker-latest/eventing-kafka-controller.yaml''] path
         then sample_core else empty_manifest))\<rparr>"

definition sample_checked :: deployment_lister where
  "sample_checked ns n = Ok \<lparr>d_Name = n, d_Labels = [], d_OwnerReferences = [],
     d_Conditions = [(''Progressing'', ''True''), (''Available'', if n = ''eventing-controller'' then ''True'' else ''False'')]\<rparr>"

definition sample_reconciler :: "(gobj list, string, string) reconciler" where
  "sample_reconciler = \<lparr>r_context = sample_parsers, r_checked = sample_checked, r_scaler = New_scaler,
     r_imcs = (\<lambda>_. Ok []), r_brokers = (\<lambda>_. Ok []), r_manifest = empty_manifest, r_sort = sort_slice,
     r_client = sample_client, r_clock = int\<rparr>"

lemma sample_prechecks: "runPrechecks sample_reconciler sample_mesh_plain = (Ok True, sample_mesh_plain)"
  by code_simp

lemma sample_wf: "wf_status (em_Status sample_mesh_plain)"
  by code_simp

lemma sample_Install:
  "\<exists>c'. Install srt sample_client base m c = (Ok (Sort_manifests srt m), c')"
proof -
  have get: "get_mf sample_client u s = Ok None" for u s
    by (simp add: get_mf_def sample_client_def)
  have "\<exists>s'. each_resource (apply_mf sample_client ann) us s = (Ok (), s')" for ann us s
    by (induction us arbitrary: s) (simp_all add: apply_mf_def get, simp add: sample_client_def Let_def)
  moreover have "each_resource (delete_mf sample_client) us s = (Ok (), s)" for us s
    by (induction us arbitrary: s) (simp_all add: delete_mf_def get)
  ultimately show ?thesis
    unfolding Install_def Let_def Delete_mf_def Apply_mf_def wrap_fst_def
    by (metis (no_types, lifting) case_prod_conv fst_conv res.simps(10) snd_conv wrap_err.simps(1))
qed

text \<open>The parsed sample, and its Deployments with the owner reference.\<close>

lemma sample_parsed:
  obtains ev kb where "eventing_Parse sample_parsers sample_mesh_plain = Ok ev"
    "kafkaBroker_Parse sample_parsers sample_mesh_plain = Ok kb"
    "resources (ToApply ev) = resources sample_core" "resources (ToDelete ev) = []" "resources (PostInstall ev) = []"
    "resources (ToApply kb) = resources sample_core" "resources (ToDelete kb) = []" "resources (PostInstall kb) = []"
proof -
  let ?ok = "\<lambda>x. case x of Ok m \<Rightarrow> resources (ToApply m) = resources sample_core \<and> resources (ToDelete m) = [] \<and>
    resources (PostInstall m) = [] | _ \<Rightarrow> False"
  have "?ok (eventing_Parse sample_parsers sample_mesh_plain)" "?ok (kafkaBroker_Parse sample_parsers sample_mesh_plain)"
    by code_simp+
  then show ?thesis using that by (auto split: res.splits)
qed

lemma sample_parser_transformers:
  "u \<in> set (resources sample_core) \<Longrightarrow>
   list_all (\<lambda>t. run_transformer t u = Ok u) (parser_transformers sample_env (em_Spec sample_mesh_plain) \<lparr>Config = [], Workloads = None\<rparr>)"
proof -
  have "list_all (\<lambda>u. list_all (\<lambda>t. run_transformer t u = Ok u)
     (parser_transformers sample_env (em_Spec sample_mesh_plain) \<lparr>Config = [], Workloads = None\<rparr>)) (resources sample_core)"
    by code_simp
  then show "u \<in> set (resources sample_core) \<Longrightarrow> ?thesis" by (simp add: list_all_iff)
qed

definition sample_owner :: owner where
  "sample_owner = \<lparr>owner_gvk = SchemeGroupVersion_WithKind ''EventMesh'', owner_name = ''mesh'', owner_uid = ''u-1''\<rparr>"

lemma sample_transform:
  assumes "ts = parser_transformers sample_env (em_Spec sample_mesh_plain) \<lparr>Config = [], Workloads = None\<rparr> @ ss @ [Some (InjectOwner sample_owner)]"
    and "\<forall>t\<in>set ss. scaling_transformer t" and u: "u \<in> set (resources sample_core)"
  shows "transform_resource ts u = Ok (SetOwnerReferences u [NewControllerRef sample_owner])"
proof -
  have k: "GetKind u = ''Deployment'' \<and> GetName u \<notin> set scaled_names"
  proof -
    have "list_all (\<lambda>u. GetKind u = ''Deployment'' \<and> \<not> List.member scaled_names (GetName u)) (resources sample_core)"
      by code_simp
    then show ?thesis using u by (auto simp: list_all_iff)
  qed
  have noop: "fold_res run_transformer xs u = Ok u" if "\<forall>t\<in>set xs. run_transformer t u = Ok u" for xs
    using that by (induction xs) auto
  have "fold_res run_transformer (parser_transformers sample_env (em_Spec sample_mesh_plain) \<lparr>Config = [], Workloads = None\<rparr> @ ss) u = Ok u"
    using sample_parser_transformers [OF u] assms(2) scaling_transformer_other k
    by (intro noop) (auto simp: list_all_iff)
  then show ?thesis
    unfolding assms(1) transform_resource_def append_assoc [symmetric]
    using k by (simp only: fold_res_append) (simp add: run_transformer_def InjectOwner_def mf_InjectOwner_def)
qed

lemma map_res_all_Ok: "(\<And>x. x \<in> set xs \<Longrightarrow> f x = Ok (g x)) \<Longrightarrow> map_res f xs = Ok (map g xs)"
  by (induction xs) auto

lemma sample_prepare:
  assumes "r_context r = sample_parsers" "r_scaler r = New_scaler"
  obtains m where "prepare r sample_mesh_plain = Ok m"
    "resources (ToApply m) = map (\<lambda>u. SetOwnerReferences u [NewControllerRef sample_owner])
       (resources sample_core @ resources sample_core)"
    "resources (ToDelete m) = []" "resources (PostInstall m) = []"
proof -
  let ?em = sample_mesh_plain and ?ov = "\<lparr>Config = [], Workloads = None\<rparr>"
  have em: "Overrides (em_Spec ?em) = Some ?ov" "em_Name ?em = ''mesh''" "em_UID ?em = ''u-1''" by code_simp+
  obtain ev kb where p: "eventing_Parse sample_parsers ?em = Ok ev" "kafkaBroker_Parse sample_parsers ?em = Ok kb"
    and res: "resources (ToApply ev) = resources sample_core" "resources (ToDelete ev) = []" "resources (PostInstall ev) = []"
      "resources (ToApply kb) = resources sample_core" "resources (ToDelete kb) = []" "resources (PostInstall kb) = []"
    by (rule sample_parsed)
  let ?m2 = "Append_manifests (Some kb) (Append_manifests (Some ev) empty_manifests)"
  have t: "IMCScaleTarget (r_imcs r) (r_scaler r) = Ok 0" "MTBrokerScaleTarget (r_brokers r) (r_scaler r) = Ok 0"
    by (simp_all add: assms IMCScaleTarget_def MTBrokerScaleTarget_def New_scaler_def New_informer_def Lister_Load_def)
  obtain m3 where m3: "applyScaling r ?m2 ?em = Ok m3"
    using applyScaling_total [OF em(1) t, of ?m2] by (auto simp: is_ok_def split: res.splits)
  have dep: "GetKind u = ''Deployment''" if "u \<in> set (resources sample_core)" for u
  proof -
    have "list_all (\<lambda>u. GetKind u = ''Deployment'') (resources sample_core)" by code_simp
    then show ?thesis using that by (simp add: list_all_iff)
  qed
  note rel = applyScaling_rel [OF m3, unfolded scaling_rel_def]
  have ms: "mset (resources (ToApply m3)) + mset (resources (ToDelete m3)) = mset (resources sample_core @ resources sample_core)"
    and flt: "filter (\<lambda>u. GetKind u \<noteq> ''HorizontalPodAutoscaler'') (resources (ToApply m3)) = resources sample_core @ resources sample_core"
    using rel dep by (simp_all add: res filter_id_conv)
  have "set (resources (ToApply m3)) \<subseteq> set (resources sample_core)"
    using arg_cong [OF ms, of set_mset] by auto
  then have "filter (\<lambda>u. GetKind u \<noteq> ''HorizontalPodAutoscaler'') (resources (ToApply m3)) = resources (ToApply m3)"
    using dep by (intro filter_True) auto
  with flt have ap: "resources (ToApply m3) = resources sample_core @ resources sample_core" by simp
  with ms have de: "resources (ToDelete m3) = []" by simp
  have po: "resources (PostInstall m3) = []" using rel by (simp add: res)
  obtain ss where ss: "Transformers m3 = Transformers ?m2 @ ss" "\<forall>t\<in>set ss. scaling_transformer t"
    using applyScaling_adds [OF m3] by (auto simp: adds_scaling_def)
  have env: "pc_env sample_parsers = sample_env" by (simp add: sample_parsers_def sample_context_def)
  obtain ov where "Overrides (em_Spec ?em) = Some ov"
    and tv: "Transformers ev = take 6 (parser_transformers (pc_env sample_parsers) (em_Spec ?em) ov)"
    by (rule eventing_Parse_transformers [OF p(1)])
  with em(1) have "Transformers ?m2 = parser_transformers sample_env (em_Spec ?em) ?ov"
    using kafkaBroker_Parse_transformers [OF p(2), of ?ov] env by (simp del: take_Suc_Cons drop_Suc_Cons)
  define m4 where "m4 = AddTransformers [Some (InjectOwner sample_owner)] m3"
  have ts: "transform_resource (Transformers m4) u = Ok (SetOwnerReferences u [NewControllerRef sample_owner])"
    if "u \<in> set (resources sample_core)" for u
    using \<open>Transformers ?m2 = _\<close> ss by (intro sample_transform [OF _ ss(2) that]) (simp add: m4_def)
  have "Transform (ToApply m3) (Transformers m4) = Ok ((ToApply m3)\<lparr>resources := map (\<lambda>u. SetOwnerReferences u [NewControllerRef sample_owner])
       (resources sample_core @ resources sample_core)\<rparr>)"
    unfolding Transform_def ap using ts by (subst map_res_all_Ok) auto
  moreover have "Transform (ToDelete m3) (Transformers m4) = Ok (ToDelete m3)" "Transform (PostInstall m3) (Transformers m4) = Ok (PostInstall m3)"
    by (simp_all add: Transform_def de po)
  moreover have "prepare r ?em = Transform_stage m4 ?em"
    using m3 p em(2,3) by (simp add: prepare_def AppendFromParser_def assms addOwnerReference_def m4_def sample_owner_def)
  ultimately have "prepare r ?em = Ok (m4\<lparr>ToApply := (ToApply m3)\<lparr>resources := map (\<lambda>u. SetOwnerReferences u [NewControllerRef sample_owner])
       (resources sample_core @ resources sample_core)\<rparr>, ToDelete := ToDelete m3, PostInstall := PostInstall m3\<rparr>)"
    by (simp add: Transform_stage_def TransformToApply_def TransformToDelete_def TransformPostInstall_def m4_def)
  then show ?thesis by (rule that) (simp_all add: de po)
qed

theorem prepare_keeps_identity_witness:
  "\<exists>m. prepare sample_reconciler sample_mesh_plain = Ok m \<and>
     image_mset res_key (mset (resources (ToApply m) @ resources (ToDelete m))) =
       image_mset res_key (mset (resources sample_core @ resources sample_core))"
proof -
  have r: "r_context sample_reconciler = sample_parsers" "r_scaler sample_reconciler = New_scaler"
    by (simp_all add: sample_reconciler_def)
  obtain m where m: "prepare sample_reconciler sample_mesh_plain = Ok m" by (rule sample_prepare [OF r])
  obtain ev kb where "eventing_Parse sample_parsers sample_mesh_plain = Ok ev" "kafkaBroker_Parse sample_parsers sample_mesh_plain = Ok kb"
    "resources (ToApply ev) = resources sample_core" "resources (ToDelete ev) = []"
    "resources (ToApply kb) = resources sample_core" "resources (ToDelete kb) = []"
    by (rule sample_parsed)
  with prepare_keeps_identity [OF m] m show ?thesis by (auto simp: r(1))
qed

lemma sample_run_inputs:
  obtains m c' ds where "prepare sample_reconciler sample_mesh_plain = Ok m"
    "Install (r_sort sample_reconciler) (r_client sample_reconciler) (r_manifest sample_reconciler) m [] =
       (Ok (Sort_manifests (r_sort sample_reconciler) m), c')"
    "looked_up (r_checked sample_reconciler) (deployments_of (ToApply (Sort_manifests (r_sort sample_reconciler) m))) = Ok ds"
    "waiting_for ds \<noteq> []"
proof -
  have r: "r_context sample_reconciler = sample_parsers" "r_scaler sample_reconciler = New_scaler"
    "r_client sample_reconciler = sample_client" "r_checked sample_reconciler = sample_checked" "r_sort sample_reconciler = sort_slice"
    by (simp_all add: sample_reconciler_def)
  obtain m where m: "prepare sample_reconciler sample_mesh_plain = Ok m" and
    a: "resources (ToApply m) = map (\<lambda>u. SetOwnerReferences u [NewControllerRef sample_owner]) (resources sample_core @ resources sample_core)"
    by (rule sample_prepare [OF r(1,2)])
  obtain c' where i: "Install (r_sort sample_reconciler) (r_client sample_reconciler) (r_manifest sample_reconciler) m [] =
      (Ok (Sort_manifests (r_sort sample_reconciler) m), c')"
    using sample_Install [of "r_sort sample_reconciler" "r_manifest sample_reconciler" m "[]"] unfolding r(3) by blast
  have "case looked_up sample_checked (filter (ByKind ''Deployment'') (sort_slice ByKindPriority
      (map (\<lambda>u. SetOwnerReferences u [NewControllerRef sample_owner]) (resources sample_core @ resources sample_core)))) of
      Ok ds \<Rightarrow> waiting_for ds \<noteq> [] | _ \<Rightarrow> False"
    by code_simp
  then have "case looked_up (r_checked sample_reconciler) (deployments_of (ToApply (Sort_manifests (r_sort sample_reconciler) m))) of
      Ok ds \<Rightarrow> waiting_for ds \<noteq> [] | _ \<Rightarrow> False"
    unfolding r(4,5) deployments_of_def Sort_manifests_sel a .
  then obtain ds where "looked_up (r_checked sample_reconciler) (deployments_of (ToApply (Sort_manifests (r_sort sample_reconciler) m))) = Ok ds"
    "waiting_for ds \<noteq> []"
    by (auto split: res.splits)
  from that [OF m i this] show thesis .
qed

theorem installed_run_status_witness:
  "\<exists>em' c'. ReconcileKind sample_reconciler sample_mesh_plain [] = (Ok (), em', c') \<and>
     cond_view (em_Status em') EventMeshConditionInstallSucceeded = Some (ConditionTrue, '''', '''')"
proof -
  obtain m c' ds where run: "prepare sample_reconciler sample_mesh_plain = Ok m"
    "Install (r_sort sample_reconciler) (r_client sample_reconciler) (r_manifest sample_reconciler) m [] =
       (Ok (Sort_manifests (r_sort sample_reconciler) m), c')"
    "looked_up (r_checked sample_reconciler) (deployments_of (ToApply (Sort_manifests (r_sort sample_reconciler) m))) = Ok ds"
    by (rule sample_run_inputs) blast
  from installed_run_status [OF sample_wf sample_prechecks run] show ?thesis by blast
qed

text \<open>A mesh that was ready, and a file that cannot be read.\<close>

definition broken_reconciler :: "(gobj list, string, string) reconciler" where
  "broken_reconciler = sample_reconciler\<lparr>r_context := sample_parsers\<lparr>pc_new_manifest := (\<lambda>_. Err (ErrMsg ''no such file''))\<rparr>\<rparr>"

definition ready_mesh :: event_mesh where
  "ready_mesh = sample_mesh_plain\<lparr>em_Status := installed_status\<rparr>"

lemma broken_prepare:
  "\<exists>e. prepare broken_reconciler em = Err e \<and> \<not> IsDeploymentsNotReadyError e \<and> \<not> IsNonRecoverableError e"
proof -
  let ?e = "ErrWrap ''failed to get eventing manifests'' (ErrWrap ''failed to load eventing core manifests''
    (ErrWrap ''failed to load eventing core manifests'' (ErrWrap ''failed to parse manifest eventing-latest/eventing-crds.yaml''
      (ErrMsg ''no such file''))))"
  have "prepare broken_reconciler em = Err ?e"
    by (simp add: prepare_def AppendFromParser_def broken_reconciler_def eventing_Parse_def eventingCoreManifests_def
        loadEventingCoreManifests_def loadManifests_def)
  moreover have "\<not> IsDeploymentsNotReadyError ?e" "\<not> IsNonRecoverableError ?e" by code_simp+
  ultimately show ?thesis by blast
qed

text \<open>The manifests do not depend on the status.\<close>

lemma parse_status:
  "eventing_Parse pc (em\<lparr>em_Status := st\<rparr>) = eventing_Parse pc em"
  "kafkaBroker_Parse pc (em\<lparr>em_Status := st\<rparr>) = kafkaBroker_Parse pc em"
proof -
  have "tls_manifests pc (em\<lparr>em_Status := st\<rparr>) = tls_manifests pc em"
    by (simp add: fun_eq_iff tls_manifests_def)
  then show "eventing_Parse pc (em\<lparr>em_Status := st\<rparr>) = eventing_Parse pc em"
    "kafkaBroker_Parse pc (em\<lparr>em_Status := st\<rparr>) = kafkaBroker_Parse pc em"
    by (simp_all add: eventing_Parse_def kafkaBroker_Parse_def eventingCoreManifests_def eventingIMCManifests_def
        eventingMTBrokerManifests_def eventingTLSManifests_def eventingPostInstallManifests_def deref_overrides_def
        eventingKafkaBrokerCoreManifests_def eventingKafkaBrokerTLSManifests_def
        eventingKafkaBrokerPostInstallManifests_def eventingKafkaChannelTemplateConfigMap_def)
qed

lemma prepare_status: "prepare r (em\<lparr>em_Status := st\<rparr>) = prepare r em"
  by (simp add: prepare_def AppendFromParser_def parse_status applyScaling_def applyScalingForIMC_def
      applyScalingForMTBroker_def addHPATransformerIfNeeded_def addDeploymentScaleTransformerIfNeeded_def
      deref_overrides_def addOwnerReference_def Transform_stage_def)

theorem missing_deployment_status_witness:
  "\<exists>em' c'. ReconcileKind (sample_reconciler\<lparr>r_checked := no_deployments\<rparr>) sample_mesh_plain [] = (Ok (), em', c') \<and>
     cond_view (em_Status em') ''Ready'' = Some (ConditionFalse, ''NotReady'', ''Waiting on deployments: all'')"
proof -
  let ?r = "sample_reconciler\<lparr>r_checked := no_deployments\<rparr>"
  have r: "r_context ?r = sample_parsers" "r_scaler ?r = New_scaler" "r_client ?r = sample_client"
    "r_checked ?r = no_deployments" "r_sort ?r = sort_slice"
    by (simp_all add: sample_reconciler_def)
  have pre: "runPrechecks ?r sample_mesh_plain = (Ok True, sample_mesh_plain)" by code_simp
  obtain m where m: "prepare ?r sample_mesh_plain = Ok m" and
    a: "resources (ToApply m) = map (\<lambda>u. SetOwnerReferences u [NewControllerRef sample_owner]) (resources sample_core @ resources sample_core)"
    by (rule sample_prepare [OF r(1,2)])
  obtain c' where i: "Install (r_sort ?r) (r_client ?r) (r_manifest ?r) m [] = (Ok (Sort_manifests (r_sort ?r) m), c')"
    using sample_Install [of "r_sort ?r" "r_manifest ?r" m "[]"] unfolding r(3) by blast
  have "looked_up no_deployments (filter (ByKind ''Deployment'') (sort_slice ByKindPriority
      (map (\<lambda>u. SetOwnerReferences u [NewControllerRef sample_owner]) (resources sample_core @ resources sample_core)))) =
    Err (APINotFound ''eventing-controller'')"
    by code_simp
  then have l: "looked_up (r_checked ?r) (deployments_of (ToApply (Sort_manifests (r_sort ?r) m))) = Err (APINotFound ''eventing-controller'')"
    unfolding r(4,5) deployments_of_def Sort_manifests_sel a .
  have e: "\<not> IsDeploymentsNotReadyError (APINotFound ''eventing-controller'')" "\<not> IsNonRecoverableError (APINotFound ''eventing-controller'')"
    by code_simp+
  from missing_deployment_status [OF sample_wf pre m i l e] obtain x em' where
    "ReconcileKind ?r sample_mesh_plain [] = (x, em', c')" "is_ok x"
    "cond_view (em_Status em') ''Ready'' = Some (ConditionFalse, ''NotReady'', ''Waiting on deployments: all'')" by auto
  then show ?thesis by (cases x) auto
qed

text \<open>An eventing installation of somebody else.\<close>

definition occupied_reconciler :: "(gobj list, string, string) reconciler" where
  "occupied_reconciler = sample_reconciler\<lparr>r_context := sample_parsers\<lparr>pc_deployments := (\<lambda>ns n.
     Ok \<lparr>d_Name = n, d_Labels = [], d_OwnerReferences = [], d_Conditions = []\<rparr>)\<rparr>\<rparr>"

theorem prechecks_guard_installation_witness:
  "\<exists>em'. ReconcileKind occupied_reconciler sample_mesh_plain [] = (Ok (), em', []) \<and>
     (\<exists>reason message. cond_view (em_Status em') ''Ready'' = Some (ConditionFalse, reason, message))"
proof -
  have "fst (runPrechecks occupied_reconciler sample_mesh_plain) = Ok False" by code_simp
  with prechecks_guard_installation [OF sample_wf, of occupied_reconciler "[]"] show ?thesis by blast
qed

definition owned_reconciler :: "(gobj list, string, string) reconciler" where
  "owned_reconciler = sample_reconciler\<lparr>r_context := sample_parsers\<lparr>pc_deployments := (\<lambda>ns n.
     Ok \<lparr>d_Name = n, d_Labels = [], d_OwnerReferences = [NewControllerRef sample_owner], d_Conditions = []\<rparr>)\<rparr>\<rparr>"

theorem own_installation_recognised_witness:
  "hasForeignEventingInstalled owned_reconciler sample_mesh_plain = Ok False"
proof -
  have d: "pc_deployments (r_context owned_reconciler) (r_namespace owned_reconciler) ''eventing-controller'' =
      Ok \<lparr>d_Name = ''eventing-controller'', d_Labels = [], d_OwnerReferences = [NewControllerRef sample_owner], d_Conditions = []\<rparr>"
    by (simp add: owned_reconciler_def)
  have n: "em_Name sample_mesh_plain = ''mesh''" "em_UID sample_mesh_plain = ''u-1''" by code_simp+
  from own_installation_recognised [OF d, of empty_manifests sample_mesh_plain sample_mesh_plain] show ?thesis
    by (simp add: n sample_owner_def GetGroupVersionKind_def)
qed

theorem hpa_scaling_decision_witness:
  "\<exists>m'. addHPATransformerIfNeeded ''broker-filter-hpa'' ''mt-broker-filter'' ''knative-eventing'' 0
      (AddToApply \<lparr>resources = [sample_hpa], lastAppliedConfigAnnotation = ''''\<rparr> empty_manifests) sample_mesh_plain = Ok m' \<and>
    (\<forall>u\<in>set (resources (ToApply m')). \<not> (GetKind u = ''HorizontalPodAutoscaler'' \<and> GetName u = ''broker-filter-hpa''))"
proof -
  have o: "Overrides (em_Spec sample_mesh_plain) = Some \<lparr>Config = [], Workloads = None\<rparr>" by code_simp
  have "\<not> HasAtLeastOneWithReplicasSet (GetByName (Workloads \<lparr>Config = [], Workloads = None\<rparr>) ''mt-broker-filter'')" by code_simp
  with hpa_scaling_decision [OF o, of "''broker-filter-hpa''" "''mt-broker-filter''" "''knative-eventing''" 0
      "AddToApply \<lparr>resources = [sample_hpa], lastAppliedConfigAnnotation = ''''\<rparr> empty_manifests"]
  show ?thesis by auto
qed

theorem ingress_never_scaled_witness:
  "\<exists>m' ts. applyScaling sample_reconciler empty_manifests sample_mesh_plain = Ok m' \<and> Transformers m' = ts \<and>
     (\<forall>t\<in>set ts. run_transformer t (sample_deployment ''mt-broker-ingress'' ''1.18.2'') = Ok (sample_deployment ''mt-broker-ingress'' ''1.18.2''))"
proof -
  have o: "Overrides (em_Spec sample_mesh_plain) = Some \<lparr>Config = [], Workloads = None\<rparr>" by code_simp
  have t: "IMCScaleTarget (r_imcs sample_reconciler) (r_scaler sample_reconciler) = Ok 0"
    "MTBrokerScaleTarget (r_brokers sample_reconciler) (r_scaler sample_reconciler) = Ok 0" by code_simp+
  obtain m' where m': "applyScaling sample_reconciler empty_manifests sample_mesh_plain = Ok m'"
    using applyScaling_total [OF o t, of empty_manifests] by (auto simp: is_ok_def split: res.splits)
  have "GetName (sample_deployment ''mt-broker-ingress'' ''1.18.2'') = ''mt-broker-ingress''"
    "GetKind (sample_deployment ''mt-broker-ingress'' ''1.18.2'') = ''Deployment''" by code_simp+
  from ingress_never_scaled [OF m' this] m' show ?thesis by auto
qed

end
