(* ===== verification/Generated_Reconciler.thy ===== *)
theory Generated_Reconciler
  imports Reconciler
begin

text \<open>
  The generated controller code around the EventMesh reconciler
  (\<^verbatim>\<open>pkg/client/injection/reconciler/operator/v1alpha1/eventmesh\<close>: reconciler.go, state.go,
  controller.go) with the parts of \<^verbatim>\<open>knative.dev/pkg/reconciler\<close> it calls: from a work queue key to
  the call of the reconciler's method, finalizers, the write-back of the status with retries, and
  the events it records. The code is generic in the interfaces the reconciler implements; the
  operator's reconciler implements only \<^verbatim>\<open>ReconcileKind\<close>. Theorems: when a key changes nothing,
  how often the status is written, and what finalizer updates do.
\<close>

section \<open>Events and surroundings\<close>

text \<open>
  \<^verbatim>\<open>reconciler.Event\<close> is an error: a plain one, a \<^verbatim>\<open>ReconcilerEvent\<close> (type, reason, message), one that
  wraps another, or one of the controller's two key errors.
\<close>

datatype reconcile_event =
    PlainError go_error
  | ReconcilerEvent string string string
  | WrappedEvent string reconcile_event
  | SkipKey string
  | RequeueKey int

text \<open>\<^verbatim>\<open>%q\<close> of a name, which has no character to escape.\<close>

definition quoted :: "string \<Rightarrow> string" where
  "quoted s = CHR 34 # s @ [CHR 34]"

fun event_text :: "reconcile_event \<Rightarrow> string" where
  "event_text (PlainError e) = err_text e"
| "event_text (ReconcilerEvent t r m) = m"
| "event_text (WrappedEvent m e) = m @ '': '' @ event_text e"
| "event_text (SkipKey key) = ''skipped key: '' @ quoted key"
| "event_text (RequeueKey d) = ''requeue after: '' @ int_str d"

fun EventAs :: "reconcile_event \<Rightarrow> (string \<times> string \<times> string) option" where
  "EventAs (ReconcilerEvent t r m) = Some (t, r, m)"
| "EventAs (WrappedEvent m e) = EventAs e"
| "EventAs _ = None"

fun IsSkipKey :: "reconcile_event \<Rightarrow> bool" where
  "IsSkipKey (SkipKey _) = True"
| "IsSkipKey (WrappedEvent m e) = IsSkipKey e"
| "IsSkipKey _ = False"

fun IsRequeueKey :: "reconcile_event \<Rightarrow> bool" where
  "IsRequeueKey (RequeueKey _) = True"
| "IsRequeueKey (WrappedEvent m e) = IsRequeueKey e"
| "IsRequeueKey _ = False"

text \<open>
  The typed client for EventMeshes over a state \<open>'s\<close>; an operation answers with an error or a
  result. \<open>ec_Patch ns name finalizers resourceVersion\<close> is the merge patch of the two metadata
  fields, \<open>ec_IsConflict\<close> tells the API server's conflict errors.
\<close>

record 's em_client =
  ec_Get :: "string \<Rightarrow> string \<Rightarrow> 's \<Rightarrow> go_error + event_mesh"
  ec_UpdateStatus :: "event_mesh \<Rightarrow> 's \<Rightarrow> go_error option \<times> 's"
  ec_Patch :: "string \<Rightarrow> string \<Rightarrow> string list \<Rightarrow> string \<Rightarrow> 's \<Rightarrow> (go_error + event_mesh) \<times> 's"
  ec_IsConflict :: "go_error \<Rightarrow> bool"

text \<open>The methods of a reconciler; the last three are the optional interfaces.\<close>

type_synonym 's kind_method = "event_mesh \<Rightarrow> 's \<Rightarrow> reconcile_event option res \<times> event_mesh \<times> 's"

record 's methods =
  m_ReconcileKind :: "'s kind_method"
  m_FinalizeKind :: "'s kind_method option"
  m_ObserveKind :: "'s kind_method option"
  m_ObserveDeletion :: "(string \<Rightarrow> string \<Rightarrow> 's \<Rightarrow> reconcile_event option \<times> 's) option"

record 's reconcilerImpl =
  ri_buckets :: "(string \<times> (string \<Rightarrow> string \<Rightarrow> bool)) list"
  ri_Client :: "'s em_client"
  ri_Lister :: "string \<Rightarrow> string \<Rightarrow> go_error + event_mesh"
  ri_reconciler :: "'s methods"
  ri_finalizerName :: string
  ri_skipStatusUpdates :: bool
  ri_configStore :: "nat option"
  ri_DemoteFunc :: "nat option"
  ri_clock :: clock
  ri_lower :: "string \<Rightarrow> string"

text \<open>The state and the events recorded so far: type, reason and message.\<close>

record 's world =
  w_state :: 's
  w_recorded :: "(string \<times> string \<times> string) list"

definition record_event :: "string \<Rightarrow> string \<Rightarrow> string \<Rightarrow> 's world \<Rightarrow> 's world" where
  "record_event ty reason message w = w\<lparr>w_recorded := w_recorded w @ [(ty, reason, message)]\<rparr>"

section \<open>Construction and leadership\<close>

definition defaultFinalizerName :: string where
  "defaultFinalizerName = ''eventmeshes.operator.knative.dev''"

text \<open>
  \<^verbatim>\<open>controller.Options\<close>; a config store, a demote and a promote hook are named by numbers, since the
  generated code only stores them.
\<close>

record reconciler_options =
  opt_ConfigStore :: "nat option"
  opt_FinalizerName :: string
  opt_AgentName :: string
  opt_SkipStatusUpdates :: bool
  opt_DemoteFunc :: "nat option"
  opt_PromoteFilterFunc :: "(event_mesh \<Rightarrow> bool) option"
  opt_PromoteFunc :: "nat option"

definition apply_options :: "reconciler_options \<Rightarrow> 's reconcilerImpl \<Rightarrow> 's reconcilerImpl" where
  "apply_options opts rec =
     (let rec1 = (if opt_ConfigStore opts \<noteq> None then rec\<lparr>ri_configStore := opt_ConfigStore opts\<rparr> else rec);
          rec2 = (if opt_FinalizerName opts \<noteq> '''' then rec1\<lparr>ri_finalizerName := opt_FinalizerName opts\<rparr> else rec1);
          rec3 = (if opt_SkipStatusUpdates opts then rec2\<lparr>ri_skipStatusUpdates := True\<rparr> else rec2)
      in if opt_DemoteFunc opts \<noteq> None then rec3\<lparr>ri_DemoteFunc := opt_DemoteFunc opts\<rparr> else rec3)"

definition base_impl :: "'s em_client \<Rightarrow> (string \<Rightarrow> string \<Rightarrow> go_error + event_mesh) \<Rightarrow> 's methods \<Rightarrow> clock \<Rightarrow>
    (string \<Rightarrow> string) \<Rightarrow> 's reconcilerImpl" where
  "base_impl client lister r clk lower =
     \<lparr>ri_buckets = [], ri_Client = client, ri_Lister = lister, ri_reconciler = r, ri_finalizerName = defaultFinalizerName,
      ri_skipStatusUpdates = False, ri_configStore = None, ri_DemoteFunc = None, ri_clock = clk, ri_lower = lower\<rparr>"

text \<open>\<open>leaderAware\<close>: the reconciler given implements the other \<^verbatim>\<open>LeaderAware\<close> interface. \<^verbatim>\<open>Fatal\<close> ends the process.\<close>

definition NewReconciler :: "bool \<Rightarrow> 's em_client \<Rightarrow> (string \<Rightarrow> string \<Rightarrow> go_error + event_mesh) \<Rightarrow> 's methods \<Rightarrow> clock \<Rightarrow>
    (string \<Rightarrow> string) \<Rightarrow> reconciler_options list \<Rightarrow> 's reconcilerImpl res" where
  "NewReconciler leaderAware client lister r clk lower options =
     (if length options > 1 then Panic ''Up to one options struct is supported''
      else if leaderAware then Panic ''implements the incorrect LeaderAware interface''
      else Ok (fold apply_options options (base_impl client lister r clk lower)))"

record impl_hooks =
  ih_agentName :: string
  ih_promoteFilterFunc :: "(event_mesh \<Rightarrow> bool) option"
  ih_promoteFunc :: "nat option"

definition apply_hooks :: "reconciler_options \<Rightarrow> impl_hooks \<Rightarrow> impl_hooks" where
  "apply_hooks opts h =
     (let h1 = (if opt_AgentName opts \<noteq> '''' then h\<lparr>ih_agentName := opt_AgentName opts\<rparr> else h);
          h2 = (if opt_PromoteFilterFunc opts \<noteq> None then h1\<lparr>ih_promoteFilterFunc := opt_PromoteFilterFunc opts\<rparr> else h1)
      in if opt_PromoteFunc opts \<noteq> None then h2\<lparr>ih_promoteFunc := opt_PromoteFunc opts\<rparr> else h2)"

definition NewImpl :: "'s em_client \<Rightarrow> (string \<Rightarrow> string \<Rightarrow> go_error + event_mesh) \<Rightarrow> 's methods \<Rightarrow> clock \<Rightarrow>
    (string \<Rightarrow> string) \<Rightarrow> reconciler_options list \<Rightarrow> ('s reconcilerImpl \<times> impl_hooks) res" where
  "NewImpl client lister r clk lower optionsFns =
     (if length optionsFns > 1 then Panic ''Up to one options function is supported''
      else Ok (fold apply_options optionsFns (base_impl client lister r clk lower),
               fold apply_hooks optionsFns
                 \<lparr>ih_agentName = ''eventmesh-controller'', ih_promoteFilterFunc = None, ih_promoteFunc = None\<rparr>))"

text \<open>The keys that a promotion to leader enqueues.\<close>

fun promote_keys :: "(event_mesh \<Rightarrow> bool) option \<Rightarrow> event_mesh list \<Rightarrow> (string \<times> string) list" where
  "promote_keys flt [] = []"
| "promote_keys flt (elt # elts) =
     (if (case flt of None \<Rightarrow> True | Some f \<Rightarrow> f elt) then (em_Namespace elt, em_Name elt) # promote_keys flt elts
      else promote_keys flt elts)"

definition PromoteFunc :: "(event_mesh \<Rightarrow> bool) option \<Rightarrow> event_mesh list res \<Rightarrow> (string \<times> string) list res" where
  "PromoteFunc flt listed = bind_res listed (\<lambda>elts. Ok (promote_keys flt elts))"

definition IsLeaderFor :: "'s reconcilerImpl \<Rightarrow> string \<Rightarrow> string \<Rightarrow> bool" where
  "IsLeaderFor r ns n = list_ex (\<lambda>(name, has). has ns n) (ri_buckets r)"

section \<open>The state of one run\<close>

record rec_state =
  s_key :: string
  s_namespace :: string
  s_name :: string
  s_isROI :: bool
  s_isLeader :: bool

definition SplitMetaNamespaceKey :: "string \<Rightarrow> (string \<times> string) option" where
  "SplitMetaNamespaceKey key = (case Split (CHR ''/'') key of
       [n] \<Rightarrow> Some ('''', n)
     | [ns, n] \<Rightarrow> Some (ns, n)
     | _ \<Rightarrow> None)"

definition newState :: "string \<Rightarrow> 's reconcilerImpl \<Rightarrow> rec_state res" where
  "newState key r = (case SplitMetaNamespaceKey key of
       None \<Rightarrow> Err (ErrMsg (''invalid resource key: '' @ key))
     | Some (ns, n) \<Rightarrow> Ok \<lparr>s_key = key, s_namespace = ns, s_name = n,
         s_isROI = (m_ObserveKind (ri_reconciler r) \<noteq> None), s_isLeader = IsLeaderFor r ns n\<rparr>)"

definition isNotLeaderNorObserver :: "rec_state \<Rightarrow> bool" where
  "isNotLeaderNorObserver s = (if \<not> s_isLeader s \<and> \<not> s_isROI s then True else False)"

datatype method_name = DoReconcileKind | DoFinalizeKind | DoObserveKind | UnknownMethod

definition reconcileMethodFor :: "'s methods \<Rightarrow> rec_state \<Rightarrow> event_mesh \<Rightarrow> method_name" where
  "reconcileMethodFor m s em =
     (if em_DeletionTimestamp em = None then
        if s_isLeader s then DoReconcileKind
        else if s_isROI s then DoObserveKind
        else UnknownMethod
      else if s_isLeader s \<and> m_FinalizeKind m \<noteq> None then DoFinalizeKind
      else UnknownMethod)"

section \<open>Before and after the method\<close>

definition failedGenerationBump :: string where
  "failedGenerationBump = ''NewObservedGenFailure''"

definition PreProcessReconcile :: "clock \<Rightarrow> (string \<Rightarrow> string) \<Rightarrow> event_mesh \<Rightarrow> event_mesh" where
  "PreProcessReconcile clk lower em =
     (let em1 = SetDefaults lower em;
          st1 = InitializeConditions clk (em_Status em1);
          st2 = (if st_ObservedGeneration st1 \<noteq> em_Generation em1
                 then MarkUnknown clk EventMeshCondSet (happy EventMeshCondSet) failedGenerationBump
                        ''unsuccessfully observed a new generation'' st1
                 else st1)
      in em1\<lparr>em_Status := st2\<rparr>)"

definition groom_condition :: "int \<Rightarrow> em_status \<Rightarrow> condition \<Rightarrow> condition" where
  "groom_condition now old cond = (case GetCondition old (c_Type cond) of
       Some oldCond \<Rightarrow>
         (let cond1 = cond\<lparr>c_LastTransitionTime := c_LastTransitionTime oldCond\<rparr>
          in if cond1 = oldCond then cond1 else cond1\<lparr>c_LastTransitionTime := now\<rparr>)
     | None \<Rightarrow> cond\<lparr>c_LastTransitionTime := now\<rparr>)"

definition groomConditionsTransitionTime :: "clock \<Rightarrow> em_status \<Rightarrow> em_status \<Rightarrow> em_status" where
  "groomConditionsTransitionTime clk st old =
     (let now = clk (st_reads st)
      in st\<lparr>st_Conditions := map (groom_condition now old) (st_Conditions st), st_reads := Suc (st_reads st)\<rparr>)"

definition PostProcessReconcile :: "clock \<Rightarrow> event_mesh \<Rightarrow> event_mesh \<Rightarrow> event_mesh" where
  "PostProcessReconcile clk em original =
     em\<lparr>em_Status := groomConditionsTransitionTime clk ((em_Status em)\<lparr>st_ObservedGeneration := em_Generation em\<rparr>) (em_Status original)\<rparr>"

section \<open>Finalizers\<close>

definition updateFinalizersFiltered ::
    "'s reconcilerImpl \<Rightarrow> event_mesh \<Rightarrow> string list \<Rightarrow> 's world \<Rightarrow> (go_error + event_mesh) \<times> 's world" where
  "updateFinalizersFiltered r resource desiredFinalizers w =
     (let existing = em_Finalizers resource; f = ri_finalizerName r;
          patch = (\<lambda>finalizers.
            (case ec_Patch (ri_Client r) (em_Namespace resource) (em_Name resource) finalizers (em_ResourceVersion resource) (w_state w) of
               (Inl e, s') \<Rightarrow> (Inl e, record_event ''Warning'' ''FinalizerUpdateFailed''
                   (''Failed to update finalizers for '' @ quoted (em_Name resource) @ '': '' @ err_text e) (w\<lparr>w_state := s'\<rparr>))
             | (Inr updated, s') \<Rightarrow> (Inr updated, record_event ''Normal'' ''FinalizerUpdate''
                   (''Updated '' @ quoted (em_Name resource) @ '' finalizers'') (w\<lparr>w_state := s'\<rparr>))))
      in if List.member desiredFinalizers f then
           if List.member existing f then (Inr resource, w) else patch (existing @ [f])
         else
           if \<not> List.member existing f then (Inr resource, w) else patch (sort (remdups (filter (\<lambda>x. x \<noteq> f) existing))))"

definition setFinalizerIfFinalizer :: "'s reconcilerImpl \<Rightarrow> event_mesh \<Rightarrow> 's world \<Rightarrow> (go_error + event_mesh) \<times> 's world" where
  "setFinalizerIfFinalizer r resource w =
     (if m_FinalizeKind (ri_reconciler r) = None then (Inr resource, w)
      else let finalizers = (if em_DeletionTimestamp resource = None
                             then em_Finalizers resource @ [ri_finalizerName r] else em_Finalizers resource)
           in updateFinalizersFiltered r resource finalizers w)"

definition clearFinalizer ::
    "'s reconcilerImpl \<Rightarrow> event_mesh \<Rightarrow> reconcile_event option \<Rightarrow> 's world \<Rightarrow> (go_error + event_mesh) \<times> 's world" where
  "clearFinalizer r resource ev w =
     (if m_FinalizeKind (ri_reconciler r) = None then (Inr resource, w)
      else if em_DeletionTimestamp resource = None then (Inr resource, w)
      else let without = filter (\<lambda>x. x \<noteq> ri_finalizerName r) (em_Finalizers resource);
               finalizers = (case ev of
                   None \<Rightarrow> without
                 | Some e \<Rightarrow> (case EventAs e of
                     Some (ty, _, _) \<Rightarrow> if ty = ''Normal'' then without else em_Finalizers resource
                   | None \<Rightarrow> em_Finalizers resource))
           in updateFinalizersFiltered r resource finalizers w)"

section \<open>Writing the status back\<close>

text \<open>\<^verbatim>\<open>equality.Semantic.DeepEqual\<close> on statuses: transition times never count as a difference.\<close>

definition untimed :: "condition \<Rightarrow> condition" where
  "untimed c = c\<lparr>c_LastTransitionTime := 0\<rparr>"

definition status_DeepEqual :: "em_status \<Rightarrow> em_status \<Rightarrow> bool" where
  "status_DeepEqual a b \<longleftrightarrow> st_ObservedGeneration a = st_ObservedGeneration b \<and>
     map untimed (st_Conditions a) = map untimed (st_Conditions b)"

definition update_attempt :: "'s em_client \<Rightarrow> event_mesh \<Rightarrow> event_mesh \<Rightarrow> nat \<Rightarrow> 's \<Rightarrow> go_error option \<times> 's" where
  "update_attempt cl original desired attempts s =
     (case (if attempts > 0 then ec_Get cl (em_Namespace desired) (em_Name desired) s else Inr original) of
        Inl e \<Rightarrow> (Some e, s)
      | Inr existing \<Rightarrow>
          if status_DeepEqual (em_Status existing) (em_Status desired) then (None, s)
          else ec_UpdateStatus cl (existing\<lparr>em_Status := em_Status desired\<rparr>) s)"

text \<open>\<^verbatim>\<open>RetryUpdateConflicts\<close> with the five steps of \<^verbatim>\<open>retry.DefaultRetry\<close>.\<close>

fun retry_conflicts :: "(go_error \<Rightarrow> bool) \<Rightarrow> (nat \<Rightarrow> 's \<Rightarrow> go_error option \<times> 's) \<Rightarrow> nat \<Rightarrow> nat \<Rightarrow> 's \<Rightarrow> go_error option \<times> 's" where
  "retry_conflicts conflict updater 0 attempts s = (None, s)"
| "retry_conflicts conflict updater (Suc steps) attempts s = (case updater attempts s of
       (None, s') \<Rightarrow> (None, s')
     | (Some e, s') \<Rightarrow>
         if conflict e then
           if steps = 0 then (Some e, s') else retry_conflicts conflict updater steps (Suc attempts) s'
         else (Some e, s'))"

definition updateStatus :: "'s em_client \<Rightarrow> event_mesh \<Rightarrow> event_mesh \<Rightarrow> 's \<Rightarrow> go_error option \<times> 's" where
  "updateStatus cl original desired s = retry_conflicts (ec_IsConflict cl) (update_attempt cl original desired) 5 0 s"

section \<open>Reconcile\<close>

text \<open>Running the method: an early return, or the method's event and the resource it left.\<close>

definition run_method :: "'s reconcilerImpl \<Rightarrow> rec_state \<Rightarrow> event_mesh \<Rightarrow> 's world \<Rightarrow>
    (reconcile_event option res + reconcile_event option \<times> event_mesh) \<times> 's world" where
  "run_method r s original w =
     (let call = (\<lambda>f em w. case f em (w_state w) of (ev, em', s') \<Rightarrow> (ev, em', w\<lparr>w_state := s'\<rparr>))
      in case reconcileMethodFor (ri_reconciler r) s original of
           DoReconcileKind \<Rightarrow>
             (case setFinalizerIfFinalizer r original w of
                (Inl e, w1) \<Rightarrow> (Inl (Ok (Some (WrappedEvent ''failed to set finalizers'' (PlainError e)))), w1)
              | (Inr resource, w1) \<Rightarrow>
                  (let pre = (if \<not> ri_skipStatusUpdates r then PreProcessReconcile (ri_clock r) (ri_lower r) resource else resource)
                   in case call (m_ReconcileKind (ri_reconciler r)) pre w1 of
                        (Ok ev, em', w2) \<Rightarrow>
                          (Inr (ev, if \<not> ri_skipStatusUpdates r then PostProcessReconcile (ri_clock r) em' original else em'), w2)
                      | (Err e, em', w2) \<Rightarrow> (Inl (Err e), w2)
                      | (Panic p, em', w2) \<Rightarrow> (Inl (Panic p), w2)))
         | DoFinalizeKind \<Rightarrow>
             (case m_FinalizeKind (ri_reconciler r) of
                None \<Rightarrow> (Inr (None, original), w)
              | Some fin \<Rightarrow>
                  (case call fin original w of
                     (Ok ev, em', w1) \<Rightarrow>
                       (case clearFinalizer r em' ev w1 of
                          (Inl e, w2) \<Rightarrow> (Inl (Ok (Some (WrappedEvent ''failed to clear finalizers'' (PlainError e)))), w2)
                        | (Inr resource, w2) \<Rightarrow> (Inr (ev, resource), w2))
                   | (Err e, em', w1) \<Rightarrow> (Inl (Err e), w1)
                   | (Panic p, em', w1) \<Rightarrow> (Inl (Panic p), w1)))
         | DoObserveKind \<Rightarrow>
             (case m_ObserveKind (ri_reconciler r) of
                None \<Rightarrow> (Inr (None, original), w)
              | Some obs \<Rightarrow>
                  (case call obs original w of
                     (Ok ev, em', w1) \<Rightarrow> (Inr (ev, em'), w1)
                   | (Err e, em', w1) \<Rightarrow> (Inl (Err e), w1)
                   | (Panic p, em', w1) \<Rightarrow> (Inl (Panic p), w1)))
         | UnknownMethod \<Rightarrow> (Inr (None, original), w))"

definition sync_status :: "'s reconcilerImpl \<Rightarrow> rec_state \<Rightarrow> event_mesh \<Rightarrow> event_mesh \<Rightarrow> 's world \<Rightarrow> go_error option \<times> 's world" where
  "sync_status r s original resource w =
     (if ri_skipStatusUpdates r then (None, w)
      else if status_DeepEqual (em_Status original) (em_Status resource) then (None, w)
      else if \<not> s_isLeader s then (None, w)
      else (case updateStatus (ri_Client r) original resource (w_state w) of
              (None, s') \<Rightarrow> (None, w\<lparr>w_state := s'\<rparr>)
            | (Some e, s') \<Rightarrow> (Some e, record_event ''Warning'' ''UpdateFailed''
                (''Failed to update status for '' @ quoted (em_Name resource) @ '': '' @ err_text e) (w\<lparr>w_state := s'\<rparr>))))"

definition report_event :: "reconcile_event option \<Rightarrow> 's world \<Rightarrow> reconcile_event option \<times> 's world" where
  "report_event ev w = (case ev of
       None \<Rightarrow> (None, w)
     | Some e \<Rightarrow> (case EventAs e of
         Some (ty, reason, message) \<Rightarrow>
           (case e of ReconcilerEvent _ _ _ \<Rightarrow> None | _ \<Rightarrow> Some e, record_event ty reason message w)
       | None \<Rightarrow>
           (Some e, if IsSkipKey e then w else if IsRequeueKey e then w
                    else record_event ''Warning'' ''InternalError'' (event_text e) w)))"

definition Reconcile :: "'s reconcilerImpl \<Rightarrow> string \<Rightarrow> 's world \<Rightarrow> reconcile_event option res \<times> 's world" where
  "Reconcile r key w = (case newState key r of
       Err e \<Rightarrow> (Ok None, w)
     | Panic p \<Rightarrow> (Panic p, w)
     | Ok s \<Rightarrow>
         if isNotLeaderNorObserver s then (Ok (Some (SkipKey key)), w)
         else (case ri_Lister r (s_namespace s) (s_name s) of
             Inl e \<Rightarrow>
               if IsNotFound e then
                 (case m_ObserveDeletion (ri_reconciler r) of
                    None \<Rightarrow> (Ok None, w)
                  | Some del \<Rightarrow> (case del (s_namespace s) (s_name s) (w_state w) of (ev, s') \<Rightarrow> (Ok ev, w\<lparr>w_state := s'\<rparr>)))
               else (Ok (Some (PlainError e)), w)
           | Inr original \<Rightarrow> (case run_method r s original w of
               (Inl ret, w1) \<Rightarrow> (ret, w1)
             | (Inr (ev, resource), w1) \<Rightarrow> (case sync_status r s original resource w1 of
                 (Some e, w2) \<Rightarrow> (Ok (Some (PlainError e)), w2)
               | (None, w2) \<Rightarrow> (case report_event ev w2 of (ret, w3) \<Rightarrow> (Ok ret, w3))))))"

section \<open>The operator's instance\<close>

definition as_event :: "unit res \<times> event_mesh \<times> 's \<Rightarrow> reconcile_event option res \<times> event_mesh \<times> 's" where
  "as_event x = (case x of (out, em, s) \<Rightarrow>
     (case out of Ok _ \<Rightarrow> Ok None | Err e \<Rightarrow> Ok (Some (PlainError e)) | Panic p \<Rightarrow> Panic p, em, s))"

text \<open>The operator's reconciler has neither a finalizer nor an observer.\<close>

definition operator_methods :: "('s, 'i, 'b) reconciler \<Rightarrow> 's methods" where
  "operator_methods r = \<lparr>m_ReconcileKind = (\<lambda>em s. as_event (ReconcileKind r em s)), m_FinalizeKind = None,
     m_ObserveKind = None, m_ObserveDeletion = None\<rparr>"

section \<open>Keys that change nothing\<close>

lemma operator_methods_none [simp]:
  "m_FinalizeKind (operator_methods rc) = None" "m_ObserveKind (operator_methods rc) = None"
  "m_ObserveDeletion (operator_methods rc) = None"
  by (simp_all add: operator_methods_def)

lemma newState_operator:
  assumes "ri_reconciler r = operator_methods rc"
  shows "newState key r = (case SplitMetaNamespaceKey key of
       None \<Rightarrow> Err (ErrMsg (''invalid resource key: '' @ key))
     | Some (ns, n) \<Rightarrow> Ok \<lparr>s_key = key, s_namespace = ns, s_name = n, s_isROI = False, s_isLeader = IsLeaderFor r ns n\<rparr>)"
  using assms by (simp add: newState_def split: option.split)

lemma status_DeepEqual_refl [simp]: "status_DeepEqual st st"
  by (simp add: status_DeepEqual_def)

text \<open>
  Claim C21. A key leads to no change, in the cluster or in the recorded events, when it is malformed, when
  this instance is not the leader for it, when the EventMesh cannot be read from the cache, and when
  the EventMesh is being deleted. Only a non-leader asks the queue to skip the key.
\<close>

theorem reconcile_inert:
  assumes op: "ri_reconciler r = operator_methods rc"
    and "case SplitMetaNamespaceKey key of None \<Rightarrow> True
       | Some (ns, n) \<Rightarrow> \<not> IsLeaderFor r ns n \<or>
           (case ri_Lister r ns n of Inl e \<Rightarrow> True | Inr em \<Rightarrow> em_DeletionTimestamp em \<noteq> None)"
  shows "snd (Reconcile r key w) = w \<and>
    (fst (Reconcile r key w) = Ok (Some (SkipKey key)) \<longleftrightarrow>
       (\<exists>ns n. SplitMetaNamespaceKey key = Some (ns, n) \<and> \<not> IsLeaderFor r ns n))"
proof (cases "SplitMetaNamespaceKey key")
  case None
  then show ?thesis by (simp add: Reconcile_def newState_operator [OF op])
next
  case (Some k)
  obtain ns n where k: "SplitMetaNamespaceKey key = Some (ns, n)" using Some by (cases k) auto
  show ?thesis
  proof (cases "IsLeaderFor r ns n")
    case False
    with k show ?thesis by (simp add: Reconcile_def newState_operator [OF op] isNotLeaderNorObserver_def)
  next
    case True
    with k assms(2) show ?thesis
      by (auto simp: Reconcile_def newState_operator [OF op] isNotLeaderNorObserver_def op run_method_def
          reconcileMethodFor_def sync_status_def report_event_def split: sum.splits)
  qed
qed

section \<open>Writing the status\<close>

lemma retry_conflicts_bound:
  assumes "\<And>k s. cnt (snd (updater k s)) \<le> Suc (cnt s)"
  shows "cnt (snd (retry_conflicts conflict updater steps attempts s)) \<le> cnt s + steps"
proof (induction steps arbitrary: attempts s)
  case (Suc steps)
  obtain e s' where u: "updater attempts s = (e, s')" by fastforce
  have "cnt s' \<le> Suc (cnt s)" using assms [of attempts s] u by simp
  with u Suc.IH [of "Suc attempts" s'] show ?case by (cases e) auto
qed simp

text \<open>
  One reconcile run sends at most five status updates, whatever the API server answers: a
  counter that an update request raises by at most one grows by at most five.
\<close>

theorem updateStatus_bounded:
  assumes "\<And>em s. cnt (snd (ec_UpdateStatus cl em s)) \<le> Suc (cnt s)"
  shows "cnt (snd (updateStatus cl original desired s)) \<le> cnt s + 5"
  unfolding updateStatus_def
proof (rule retry_conflicts_bound)
  show "cnt (snd (update_attempt cl original desired k s)) \<le> Suc (cnt s)" for k s
    using assms by (auto simp: update_attempt_def split: sum.split)
qed

text \<open>A server that always answers with a conflict, counting the requests.\<close>

definition conflicting_client :: "nat em_client" where
  "conflicting_client = \<lparr>ec_Get = (\<lambda>ns n s. Inr sample_mesh_plain), ec_UpdateStatus = (\<lambda>em s. (Some (APIError ''conflict''), Suc s)),
     ec_Patch = (\<lambda>ns n fs rv s. (Inr sample_mesh_plain, s)), ec_IsConflict = (\<lambda>e. True)\<rparr>"

theorem updateStatus_bounded_witness:
  "snd (updateStatus conflicting_client sample_mesh_plain ready_mesh 0) = 5 \<and>
   snd (updateStatus conflicting_client sample_mesh_plain ready_mesh 0) \<le> 0 + 5"
proof -
  have "snd (updateStatus conflicting_client sample_mesh_plain ready_mesh 0) = 5" by code_simp
  moreover have "id (snd (ec_UpdateStatus conflicting_client em s)) \<le> Suc (id s)" for em s
    by (simp add: conflicting_client_def)
  from updateStatus_bounded [where cnt = id, OF this, of sample_mesh_plain ready_mesh 0]
  have "snd (updateStatus conflicting_client sample_mesh_plain ready_mesh 0) \<le> 0 + 5" by simp
  ultimately show ?thesis by blast
qed

lemma retry_conflicts_success:
  assumes "\<And>k s s'. updater k s = (None, s') \<Longrightarrow> P s'"
  shows "0 < steps \<Longrightarrow> retry_conflicts conflict updater steps attempts s = (None, s') \<Longrightarrow> P s'"
proof (induction steps arbitrary: attempts s)
  case (Suc steps)
  then show ?case using assms by (auto split: prod.splits option.splits if_splits)
qed simp

text \<open>
  Claim C28. A status update that reports success has reached the API server: for a server that after an
  accepted update shows the written status, and a desired status that differs from the cached one,
  the server shows the desired status (transition times aside) after \<open>updateStatus\<close> succeeded, also
  when conflicts with other writers made it retry with the server's latest object.
\<close>

theorem updateStatus_written:
  assumes store: "\<And>em s s'. ec_UpdateStatus cl em s = (None, s') \<Longrightarrow>
      \<exists>x. ec_Get cl (em_Namespace em) (em_Name em) s' = Inr x \<and> status_DeepEqual (em_Status x) (em_Status em)"
    and named: "\<And>ns n s x. ec_Get cl ns n s = Inr x \<Longrightarrow> em_Namespace x = ns \<and> em_Name x = n"
    and same: "em_Namespace original = em_Namespace desired" "em_Name original = em_Name desired"
    and differs: "\<not> status_DeepEqual (em_Status original) (em_Status desired)"
    and ok: "updateStatus cl original desired s = (None, s')"
  shows "\<exists>x. ec_Get cl (em_Namespace desired) (em_Name desired) s' = Inr x \<and>
    status_DeepEqual (em_Status x) (em_Status desired)"
proof -
  let ?P = "\<lambda>s'. \<exists>x. ec_Get cl (em_Namespace desired) (em_Name desired) s' = Inr x \<and>
    status_DeepEqual (em_Status x) (em_Status desired)"
  have "?P s'" if a: "update_attempt cl original desired k s = (None, s')" for k s s'
  proof -
    from a obtain existing where e: "(if k > 0 then ec_Get cl (em_Namespace desired) (em_Name desired) s else Inr original) = Inr existing"
      by (auto simp: update_attempt_def split: sum.splits)
    then have n: "em_Namespace existing = em_Namespace desired" "em_Name existing = em_Name desired"
      using same named [of "em_Namespace desired" "em_Name desired" s existing] by (auto split: if_splits)
    show ?thesis
    proof (cases "status_DeepEqual (em_Status existing) (em_Status desired)")
      case True
      with e differs have "ec_Get cl (em_Namespace desired) (em_Name desired) s = Inr existing" by (auto split: if_splits)
      with a e True show ?thesis by (auto simp: update_attempt_def)
    next
      case False
      with a e have "ec_UpdateStatus cl (existing\<lparr>em_Status := em_Status desired\<rparr>) s = (None, s')"
        by (simp add: update_attempt_def)
      from store [OF this] n show ?thesis by simp
    qed
  qed
  then show ?thesis
    by (rule retry_conflicts_success [where P = ?P]) (use ok in \<open>auto simp: updateStatus_def\<close>)
qed

text \<open>A server that stores one EventMesh.\<close>

definition store_client :: "event_mesh em_client" where
  "store_client = \<lparr>ec_Get = (\<lambda>ns n s. if em_Namespace s = ns \<and> em_Name s = n then Inr s else Inl (APINotFound n)),
     ec_UpdateStatus = (\<lambda>em s. if em_Namespace s = em_Namespace em \<and> em_Name s = em_Name em
        then (None, s\<lparr>em_Status := em_Status em\<rparr>) else (Some (APINotFound (em_Name em)), s)),
     ec_Patch = (\<lambda>ns n fs rv s. (Inr (s\<lparr>em_Finalizers := fs\<rparr>), s\<lparr>em_Finalizers := fs\<rparr>)), ec_IsConflict = (\<lambda>e. False)\<rparr>"

theorem updateStatus_written_witness:
  "\<exists>x. ec_Get store_client (em_Namespace ready_mesh) (em_Name ready_mesh)
       (snd (updateStatus store_client sample_mesh_plain ready_mesh sample_mesh_plain)) = Inr x \<and>
     status_DeepEqual (em_Status x) (em_Status ready_mesh)"
proof -
  let ?s = "snd (updateStatus store_client sample_mesh_plain ready_mesh sample_mesh_plain)"
  have ok: "updateStatus store_client sample_mesh_plain ready_mesh sample_mesh_plain = (None, ?s)" by code_simp
  have d: "em_Namespace sample_mesh_plain = em_Namespace ready_mesh" "em_Name sample_mesh_plain = em_Name ready_mesh"
    "\<not> status_DeepEqual (em_Status sample_mesh_plain) (em_Status ready_mesh)" by code_simp+
  show ?thesis
  proof (rule updateStatus_written [OF _ _ d ok])
    show "\<exists>x. ec_Get store_client (em_Namespace em) (em_Name em) s' = Inr x \<and> status_DeepEqual (em_Status x) (em_Status em)"
      if "ec_UpdateStatus store_client em s = (None, s')" for em s s'
      using that by (auto simp: store_client_def split: if_splits)
    show "em_Namespace x = ns \<and> em_Name x = n" if "ec_Get store_client ns n s = Inr x" for ns n s x
      using that by (auto simp: store_client_def split: if_splits)
  qed
qed

definition sample_impl :: "(string \<times> (string \<Rightarrow> string \<Rightarrow> bool)) list \<Rightarrow> (gobj list) reconcilerImpl" where
  "sample_impl buckets = \<lparr>ri_buckets = buckets,
     ri_Client = \<lparr>ec_Get = (\<lambda>ns n s. Inr ready_mesh), ec_UpdateStatus = (\<lambda>em s. (None, s)),
       ec_Patch = (\<lambda>ns n fs rv s. (Inr ready_mesh, s)), ec_IsConflict = (\<lambda>e. False)\<rparr>,
     ri_Lister = (\<lambda>ns n. Inr ready_mesh), ri_reconciler = operator_methods sample_reconciler,
     ri_finalizerName = defaultFinalizerName, ri_skipStatusUpdates = False, ri_configStore = None,
     ri_DemoteFunc = None, ri_clock = int, ri_lower = id\<rparr>"

theorem reconcile_inert_witness:
  "Reconcile (sample_impl []) ''knative-eventing/mesh'' \<lparr>w_state = [], w_recorded = []\<rparr> =
     (Ok (Some (SkipKey ''knative-eventing/mesh'')), \<lparr>w_state = [], w_recorded = []\<rparr>)"
proof -
  have k: "SplitMetaNamespaceKey ''knative-eventing/mesh'' = Some (''knative-eventing'', ''mesh'')" by code_simp
  have l: "\<not> IsLeaderFor (sample_impl []) ''knative-eventing'' ''mesh''" by (simp add: sample_impl_def IsLeaderFor_def)
  have op: "ri_reconciler (sample_impl []) = operator_methods sample_reconciler" by (simp add: sample_impl_def)
  from reconcile_inert [OF op, of "''knative-eventing/mesh''" "\<lparr>w_state = [], w_recorded = []\<rparr>"] k l show ?thesis
    by (simp add: prod_eq_iff)
qed

section \<open>The status around a run\<close>

definition all_present :: "em_status \<Rightarrow> bool" where
  "all_present st \<longleftrightarrow> (\<forall>t\<in>{''Ready'', ''InstallSucceeded'', ''DeploymentsAvailable''}. GetCondition st t \<noteq> None)"

lemma InitializeConditions_id:
  assumes "all_present st"
  shows "InitializeConditions clk st = st"
proof -
  obtain a b c where "GetCondition st ''Ready'' = Some a" "GetCondition st ''InstallSucceeded'' = Some b"
    "GetCondition st ''DeploymentsAvailable'' = Some c"
    using assms by (fastforce simp: all_present_def)
  then show ?thesis
    by (simp add: InitializeConditions_def InitializeConditions_set_def initializeTerminalCondition_def Let_def)
qed

lemma groom_condition_time: "\<exists>t. groom_condition now old c = c\<lparr>c_LastTransitionTime := t\<rparr>"
proof (cases "GetCondition old (c_Type c)")
  case (Some o')
  have "groom_condition now old c = c\<lparr>c_LastTransitionTime :=
      (if c\<lparr>c_LastTransitionTime := c_LastTransitionTime o'\<rparr> = o' then c_LastTransitionTime o' else now)\<rparr>"
    using Some by (cases "c\<lparr>c_LastTransitionTime := c_LastTransitionTime o'\<rparr> = o'") (simp_all add: groom_condition_def)
  then show ?thesis by blast
qed (auto simp: groom_condition_def)

lemma groom_condition_sel [simp]:
  "c_Type (groom_condition now old c) = c_Type c" "cond_body (groom_condition now old c) = cond_body c"
  using groom_condition_time [of now old c] by (auto simp: cond_body_def)

lemma groom_view: "cond_view (groomConditionsTransitionTime clk st old) t = cond_view st t"
proof -
  have "map_option cond_body (find (\<lambda>c. c_Type c = t) (map (groom_condition now old) cs)) =
      map_option cond_body (find (\<lambda>c. c_Type c = t) cs)" for now cs
    by (induction cs) auto
  then show ?thesis by (simp add: groomConditionsTransitionTime_def cond_view_def GetCondition_def Let_def)
qed

lemma groom_same:
  assumes "distinct (map c_Type (st_Conditions old))" "st_Conditions st = st_Conditions old"
  shows "st_Conditions (groomConditionsTransitionTime clk st old) = st_Conditions old"
proof -
  have "groom_condition now old c = c" if "c \<in> set (st_Conditions old)" for now c
    using that GetCondition_Some_iff [OF assms(1), of "c_Type c" c] by (simp add: groom_condition_def)
  then show ?thesis
    using assms(2) by (simp add: groomConditionsTransitionTime_def Let_def map_idI)
qed

lemma PreProcess_same_generation:
  assumes "all_present (em_Status em)" "st_ObservedGeneration (em_Status em) = em_Generation em"
  shows "PreProcessReconcile clk lower em = SetDefaults lower em"
  using assms by (simp add: PreProcessReconcile_def SetDefaults_def InitializeConditions_id Let_def)

lemma SetCondition_generation [simp]: "st_ObservedGeneration (SetCondition clk cond st) = st_ObservedGeneration st"
  by (simp add: SetCondition_def split: option.split)

lemma InitializeConditions_generation [simp]:
  "st_ObservedGeneration (InitializeConditions clk st) = st_ObservedGeneration st"
  by (simp add: InitializeConditions_def InitializeConditions_set_def initializeTerminalCondition_def Let_def split: option.split)

lemma all_present_view:
  "all_present st \<longleftrightarrow> (\<forall>t\<in>{''Ready'', ''InstallSucceeded'', ''DeploymentsAvailable''}. cond_view st t \<noteq> None)"
  by (simp add: all_present_def cond_view_def)

lemma fill_None_iff: "fill t s v u = None \<longleftrightarrow> t \<noteq> u \<and> v u = None"
  by (auto simp: fill_def)

lemma fill_keeps: "v u = Some x \<Longrightarrow> fill t s v u = Some x"
  by (auto simp: fill_def)

text \<open>
  What the preparation of the status leaves, for any well-formed status: the missing conditions are
  filled in, those that were there stay, and a generation that was not observed yet takes Ready.
\<close>

lemma PreProcess_status:
  fixes clk lower em
  assumes wf: "wf_status (em_Status em)"
  defines "st \<equiv> em_Status (PreProcessReconcile clk lower em)"
  shows "all_present st"
    and "cond_view (em_Status em) t = Some v \<Longrightarrow>
      t \<noteq> ''Ready'' \<or> st_ObservedGeneration (em_Status em) = em_Generation em \<Longrightarrow> cond_view st t = Some v"
    and "st_ObservedGeneration (em_Status em) \<noteq> em_Generation em \<Longrightarrow> \<exists>x\<in>{ConditionFalse, ConditionUnknown}.
      cond_view st ''Ready'' = Some (x, failedGenerationBump, ''unsuccessfully observed a new generation'')"
proof -
  let ?i = "InitializeConditions clk (em_Status em)"
  let ?m = "MarkUnknown clk EventMeshCondSet ''Ready'' failedGenerationBump ''unsuccessfully observed a new generation'' ?i"
  note i = InitializeConditions_refines [OF wf, of clk]
  note m = MarkUnknown_Ready_refines(2) [OF i(1), of clk failedGenerationBump "''unsuccessfully observed a new generation''"]
  have st: "st = (if st_ObservedGeneration (em_Status em) \<noteq> em_Generation em then ?m else ?i)"
    by (simp add: st_def PreProcessReconcile_def SetDefaults_def Let_def)
  have all: "all_present ?i" by (simp add: all_present_view i(2) Let_def fill_None_iff)
  then show "all_present st" unfolding all_present_view st by (simp add: m)
  have keep: "cond_view ?i t = Some v" if "cond_view (em_Status em) t = Some v" for t v
    using that unfolding i(2) Let_def by (intro fill_keeps)
  show "cond_view st t = Some v" if "cond_view (em_Status em) t = Some v"
    "t \<noteq> ''Ready'' \<or> st_ObservedGeneration (em_Status em) = em_Generation em"
    using keep [OF that(1)] that(2) by (auto simp: st m)
  show "\<exists>x\<in>{ConditionFalse, ConditionUnknown}.
      cond_view st ''Ready'' = Some (x, failedGenerationBump, ''unsuccessfully observed a new generation'')"
    if "st_ObservedGeneration (em_Status em) \<noteq> em_Generation em"
    using that by (simp add: st m)
qed

lemma untimed_sel: "c_Type (untimed c) = c_Type c" "cond_body (untimed c) = cond_body c"
  by (simp_all add: untimed_def cond_body_def)

text \<open>Statuses that are equal up to transition times have the same conditions.\<close>

lemma status_DeepEqual_view: "status_DeepEqual a b \<Longrightarrow> cond_view a t = cond_view b t"
proof -
  have same: "map untimed cs = map untimed ds \<Longrightarrow> map_option cond_body (find (\<lambda>c. c_Type c = t) cs) =
      map_option cond_body (find (\<lambda>c. c_Type c = t) ds)" for cs ds
  proof (induction cs arbitrary: ds)
    case (Cons c cs)
    then obtain d ds' where ds: "ds = d # ds'" "untimed c = untimed d" "map untimed cs = map untimed ds'" by auto
    then have "c_Type c = c_Type d" "cond_body c = cond_body d"
      using untimed_sel [of c] untimed_sel [of d] by simp_all
    with ds Cons.IH show ?case by simp
  qed simp
  assume "status_DeepEqual a b"
  then have "map untimed (st_Conditions a) = map untimed (st_Conditions b)" by (simp add: status_DeepEqual_def)
  from same [OF this] show "cond_view a t = cond_view b t" by (simp add: cond_view_def GetCondition_def)
qed

lemma PreProcess_wf:
  assumes "wf_status (em_Status em)"
  shows "wf_status (em_Status (PreProcessReconcile clk lower em))"
  using InitializeConditions_refines(1) [OF assms] MarkUnknown_Ready_refines(1)
  by (auto simp: PreProcessReconcile_def SetDefaults_def Let_def)

lemma PreProcess_sel [simp]:
  "em_Generation (PreProcessReconcile clk lower em) = em_Generation em"
  by (simp add: PreProcessReconcile_def SetDefaults_def Let_def)

lemma PostProcess_sel [simp]:
  "st_ObservedGeneration (em_Status (PostProcessReconcile clk em original)) = em_Generation em"
  "cond_view (em_Status (PostProcessReconcile clk em original)) t = cond_view (em_Status em) t"
  "em_Name (PostProcessReconcile clk em original) = em_Name em"
  using groom_view [of clk "(em_Status em)\<lparr>st_ObservedGeneration := em_Generation em\<rparr>" "em_Status original"]
  by (simp_all add: PostProcessReconcile_def groomConditionsTransitionTime_def Let_def cond_view_def GetCondition_def)

text \<open>From a key to the method's outcome, for the leader and a mesh that is not being deleted.\<close>

lemma Reconcile_leader:
  assumes "ri_reconciler r = operator_methods rc" "SplitMetaNamespaceKey key = Some (ns, n)" "IsLeaderFor r ns n"
    and "ri_Lister r ns n = Inr original" "em_DeletionTimestamp original = None" "\<not> ri_skipStatusUpdates r"
    and "ReconcileKind rc (PreProcessReconcile (ri_clock r) (ri_lower r) original) (w_state w) = (res, em', s')"
    and "res = Ok () \<and> ev = None \<or> (\<exists>e. res = Err e \<and> ev = Some (PlainError e))"
  shows "Reconcile r key w =
    (let resource = PostProcessReconcile (ri_clock r) em' original; w1 = w\<lparr>w_state := s'\<rparr>;
         fin = (\<lambda>w2. case report_event ev w2 of (ret, w3) \<Rightarrow> (Ok ret, w3))
     in if status_DeepEqual (em_Status original) (em_Status resource) then fin w1
        else (case updateStatus (ri_Client r) original resource s' of
            (None, s'') \<Rightarrow> fin (w1\<lparr>w_state := s''\<rparr>)
          | (Some e, s'') \<Rightarrow> (Ok (Some (PlainError e)), record_event ''Warning'' ''UpdateFailed''
                (''Failed to update status for '' @ quoted (em_Name resource) @ '': '' @ err_text e) (w1\<lparr>w_state := s''\<rparr>))))"
proof -
  let ?s = "\<lparr>s_key = key, s_namespace = ns, s_name = n, s_isROI = False, s_isLeader = True\<rparr>"
  have "newState key r = Ok ?s" using assms(2,3) by (simp add: newState_operator [OF assms(1)])
  moreover have "run_method r ?s original w = (Inr (ev, PostProcessReconcile (ri_clock r) em' original), w\<lparr>w_state := s'\<rparr>)"
    using assms
    by (auto simp: run_method_def reconcileMethodFor_def setFinalizerIfFinalizer_def operator_methods_def as_event_def)
  ultimately show ?thesis
    using assms(4,6)
    by (auto simp: Reconcile_def isNotLeaderNorObserver_def sync_status_def Let_def split: prod.split option.split)
qed

end
