(* ===== verification/Work_Queue.thy ===== *)
theory Work_Queue
  imports Go_Prelude
begin

text \<open>
  The work queue of a controller: client-go's queue with its dirty and processing sets
  (\<^verbatim>\<open>util/workqueue/queue.go\<close>), the delaying and rate limiting queues around it, and Knative's queue of two
  lanes (\<^verbatim>\<open>two_lane_queue.go\<close>), whose producer and consumer goroutines move the keys of both lanes into
  the queue that the workers read. The calls hold a queue's lock, so calls, goroutines and workers
  interleave as atomic steps (\<open>wq_step\<close>). Theorems: the queue refines a set of pending keys of which no key
  is handed to two workers at once and none is lost; a pending key can always reach a worker; retries
  back off exponentially within bounds.
\<close>

section \<open>A queue with dirty and processing sets\<close>

record 'k typed_queue =
  tq_queue :: "'k list"
  tq_dirty :: "'k set"
  tq_processing :: "'k set"
  tq_shuttingDown :: bool
  tq_drain :: bool

definition NewTyped :: "'k typed_queue" where
  "NewTyped = \<lparr>tq_queue = [], tq_dirty = {}, tq_processing = {}, tq_shuttingDown = False, tq_drain = False\<rparr>"

definition tq_Add :: "'k \<Rightarrow> 'k typed_queue \<Rightarrow> 'k typed_queue" where
  "tq_Add item q =
     (if tq_shuttingDown q then q
      else if item \<in> tq_dirty q then q
      else let q1 = q\<lparr>tq_dirty := insert item (tq_dirty q)\<rparr> in
        if item \<in> tq_processing q1 then q1 else q1\<lparr>tq_queue := tq_queue q1 @ [item]\<rparr>)"

definition tq_Len :: "'k typed_queue \<Rightarrow> nat" where
  "tq_Len q = length (tq_queue q)"

text \<open>\<open>Blocked\<close>: the call waits on the condition variable; \<open>Shutdown\<close> is the second result.\<close>

datatype 'k got = Blocked | Shutdown | Item 'k

definition tq_Get :: "'k typed_queue \<Rightarrow> 'k got \<times> 'k typed_queue" where
  "tq_Get q = (case tq_queue q of
       [] \<Rightarrow> (if tq_shuttingDown q then Shutdown else Blocked, q)
     | item # rest \<Rightarrow>
         (Item item, q\<lparr>tq_queue := rest, tq_processing := insert item (tq_processing q), tq_dirty := tq_dirty q - {item}\<rparr>))"

definition tq_Done :: "'k \<Rightarrow> 'k typed_queue \<Rightarrow> 'k typed_queue" where
  "tq_Done item q =
     (let q1 = q\<lparr>tq_processing := tq_processing q - {item}\<rparr> in
      if item \<in> tq_dirty q1 then q1\<lparr>tq_queue := tq_queue q1 @ [item]\<rparr> else q1)"

definition tq_ShutDown :: "'k typed_queue \<Rightarrow> 'k typed_queue" where
  "tq_ShutDown q = q\<lparr>tq_drain := False, tq_shuttingDown := True\<rparr>"

section \<open>Rate limits\<close>

text \<open>
  Durations are nanoseconds. The source computes with \<^verbatim>\<open>float64\<close>, which is exact here: the base delay
  times a power of two.
\<close>

definition failures_of :: "('k \<times> nat) list \<Rightarrow> 'k \<Rightarrow> nat" where
  "failures_of fs item = (case map_of fs item of None \<Rightarrow> 0 | Some n \<Rightarrow> n)"

definition item_When :: "int \<Rightarrow> int \<Rightarrow> 'k \<Rightarrow> ('k \<times> nat) list \<Rightarrow> int \<times> ('k \<times> nat) list" where
  "item_When baseDelay maxDelay item fs =
     (let exp = failures_of fs item;
          fs' = AList.update item (failures_of fs item + 1) fs;
          backoff = baseDelay * 2 ^ exp
      in (if backoff > 2 ^ 63 then maxDelay else if backoff > maxDelay then maxDelay else backoff, fs'))"

definition item_Forget :: "'k \<Rightarrow> ('k \<times> nat) list \<Rightarrow> ('k \<times> nat) list" where
  "item_Forget item fs = AList.delete item fs"

text \<open>\<open>bucket\<close> is the delay that the token bucket of ten retries per second reserves.\<close>

fun maxOf_loop :: "int \<Rightarrow> int list \<Rightarrow> int" where
  "maxOf_loop ret [] = ret"
| "maxOf_loop ret (cur # cs) = maxOf_loop (if cur > ret then cur else ret) cs"

definition default_When :: "int \<Rightarrow> 'k \<Rightarrow> ('k \<times> nat) list \<Rightarrow> int \<times> ('k \<times> nat) list" where
  "default_When bucket item fs =
     (case item_When 5000000 1000000000000 item fs of (d, fs') \<Rightarrow> (maxOf_loop 0 [d, bucket], fs'))"

section \<open>The queue of two lanes\<close>

text \<open>The goroutine of a lane, and the goroutine that reads both channels.\<close>

datatype 'k producer = Fetching | Fetched 'k | Sending 'k | Closed

datatype 'k consumer = Looking | Selecting | Adding 'k | Ended

text \<open>
  \<open>waitingForAddCh\<close> and \<open>waitingForQueue\<close> hold keys with the time at which they are due, \<open>clock_now\<close> is the
  time of the clock, \<open>q_failures\<close> the state of the rate limiter. That \<^verbatim>\<open>AddAfter\<close> blocks when a thousand
  entries wait in the channel is left out; the waiting queue is a list from which the loop takes an
  earliest entry.
\<close>

record 'k work_queue =
  fastLane :: "'k typed_queue"
  slowLane :: "'k typed_queue"
  consumerQueue :: "'k typed_queue"
  fastChan :: "'k producer"
  slowChan :: "'k producer"
  q_consumer :: "'k consumer"
  q_fast :: bool
  q_slow :: bool
  waitingForAddCh :: "('k \<times> int) list"
  waitingForQueue :: "('k \<times> int) list"
  clock_now :: int
  q_failures :: "('k \<times> nat) list"

definition newTwoLaneWorkQueue :: "int \<Rightarrow> 'k work_queue" where
  "newTwoLaneWorkQueue t = \<lparr>fastLane = NewTyped, slowLane = NewTyped, consumerQueue = NewTyped, fastChan = Fetching, slowChan = Fetching,
     q_consumer = Looking, q_fast = True, q_slow = True, waitingForAddCh = [], waitingForQueue = [], clock_now = t, q_failures = []\<rparr>"

definition q_ShuttingDown :: "'k work_queue \<Rightarrow> bool" where
  "q_ShuttingDown q \<longleftrightarrow> tq_shuttingDown (fastLane q) \<or> tq_shuttingDown (slowLane q)"

definition q_Add :: "'k \<Rightarrow> 'k work_queue \<Rightarrow> 'k work_queue" where
  "q_Add item q = q\<lparr>fastLane := tq_Add item (fastLane q)\<rparr>"

definition q_AddSlow :: "'k \<Rightarrow> 'k work_queue \<Rightarrow> 'k work_queue" where
  "q_AddSlow item q = q\<lparr>slowLane := tq_Add item (slowLane q)\<rparr>"

definition q_AddAfter :: "'k \<Rightarrow> int \<Rightarrow> 'k work_queue \<Rightarrow> 'k work_queue" where
  "q_AddAfter item duration q =
     (if q_ShuttingDown q then q
      else if duration \<le> 0 then q_Add item q
      else q\<lparr>waitingForAddCh := waitingForAddCh q @ [(item, clock_now q + duration)]\<rparr>)"

definition q_AddRateLimited :: "int \<Rightarrow> 'k \<Rightarrow> 'k work_queue \<Rightarrow> 'k work_queue" where
  "q_AddRateLimited bucket item q = (case default_When bucket item (q_failures q) of
     (d, fs) \<Rightarrow> q_AddAfter item d (q\<lparr>q_failures := fs\<rparr>))"

definition q_Forget :: "'k \<Rightarrow> 'k work_queue \<Rightarrow> 'k work_queue" where
  "q_Forget item q = q\<lparr>q_failures := item_Forget item (q_failures q)\<rparr>"

definition q_Get :: "'k work_queue \<Rightarrow> 'k got \<times> 'k work_queue" where
  "q_Get q = (case tq_Get (consumerQueue q) of (g, c) \<Rightarrow> (g, q\<lparr>consumerQueue := c\<rparr>))"

definition q_Done :: "'k \<Rightarrow> 'k work_queue \<Rightarrow> 'k work_queue" where
  "q_Done item q = q\<lparr>consumerQueue := tq_Done item (consumerQueue q)\<rparr>"

definition q_Len :: "'k work_queue \<Rightarrow> nat" where
  "q_Len q = tq_Len (fastLane q) + tq_Len (slowLane q) + tq_Len (consumerQueue q)"

definition q_ShutDown :: "'k work_queue \<Rightarrow> 'k work_queue" where
  "q_ShutDown q = q\<lparr>fastLane := tq_ShutDown (fastLane q), slowLane := tq_ShutDown (slowLane q)\<rparr>"

text \<open>\<^verbatim>\<open>insert\<close> of the waiting loop: a key that waits already is only moved forward in time.\<close>

definition insert_waiting :: "'k \<times> int \<Rightarrow> ('k \<times> int) list \<Rightarrow> ('k \<times> int) list" where
  "insert_waiting e w = (case map_of w (fst e) of
       Some readyAt \<Rightarrow> if readyAt > snd e then AList.update (fst e) (snd e) w else w
     | None \<Rightarrow> w @ [e])"

definition receive_entry :: "'k \<times> int \<Rightarrow> 'k work_queue \<Rightarrow> 'k work_queue" where
  "receive_entry e q =
     (if snd e > clock_now q then q\<lparr>waitingForQueue := insert_waiting e (waitingForQueue q)\<rparr> else q_Add (fst e) q)"

section \<open>Interleavings\<close>

datatype 'k q_event = EvAdd 'k | EvGet 'k | EvDone 'k | EvInternal

text \<open>The queue with the keys that workers hold; \<open>n\<close> workers run.\<close>

record 'k q_conf =
  qc_queue :: "'k work_queue"
  qc_busy :: "'k list"

inductive lane_step :: "'k typed_queue \<times> 'k producer \<Rightarrow> 'k typed_queue \<times> 'k producer \<Rightarrow> bool" where
  fetch: "tq_Get l = (Item k, l') \<Longrightarrow> lane_step (l, Fetching) (l', Fetched k)"
| fetch_shutdown: "tq_Get l = (Shutdown, l') \<Longrightarrow> lane_step (l, Fetching) (l', Closed)"
| fetched: "lane_step (l, Fetched k) (tq_Done k l, Sending k)"

inductive consumer_step :: "'k work_queue \<Rightarrow> 'k work_queue \<Rightarrow> bool" where
  take_fast: "q_consumer q = Looking \<and> q_fast q \<or> q_consumer q = Selecting \<Longrightarrow> fastChan q = Sending k \<Longrightarrow>
    consumer_step q (q\<lparr>fastChan := Fetching, q_consumer := Adding k\<rparr>)"
| fast_closed: "q_consumer q = Looking \<and> q_fast q \<or> q_consumer q = Selecting \<Longrightarrow> fastChan q = Closed \<Longrightarrow>
    consumer_step q (q\<lparr>q_fast := False, q_consumer := Looking\<rparr>)"
| nothing_fast: "q_consumer q = Looking \<Longrightarrow> q_fast q \<or> q_slow q \<Longrightarrow> q_fast q \<longrightarrow> fastChan q = Fetching \<or> (\<exists>k. fastChan q = Fetched k) \<Longrightarrow>
    consumer_step q (q\<lparr>q_consumer := Selecting\<rparr>)"
| take_slow: "q_consumer q = Selecting \<Longrightarrow> slowChan q = Sending k \<Longrightarrow>
    consumer_step q (q\<lparr>slowChan := Fetching, q_consumer := Adding k\<rparr>)"
| slow_closed: "q_consumer q = Selecting \<Longrightarrow> slowChan q = Closed \<Longrightarrow>
    consumer_step q (q\<lparr>q_slow := False, q_consumer := Looking\<rparr>)"
| add: "q_consumer q = Adding k \<Longrightarrow>
    consumer_step q (q\<lparr>consumerQueue := tq_Add k (consumerQueue q), q_consumer := Looking\<rparr>)"
| stop: "q_consumer q = Looking \<Longrightarrow> \<not> q_fast q \<Longrightarrow> \<not> q_slow q \<Longrightarrow>
    consumer_step q (q\<lparr>consumerQueue := tq_ShutDown (consumerQueue q), q_consumer := Ended\<rparr>)"

inductive delay_step :: "'k work_queue \<Rightarrow> 'k work_queue \<Rightarrow> bool" where
  receive: "waitingForAddCh q = e # es \<Longrightarrow> delay_step q (receive_entry e (q\<lparr>waitingForAddCh := es\<rparr>))"
| ready: "(k, t) \<in> set (waitingForQueue q) \<Longrightarrow> t \<le> clock_now q \<Longrightarrow> \<forall>e\<in>set (waitingForQueue q). t \<le> snd e \<Longrightarrow>
    delay_step q (q_Add k (q\<lparr>waitingForQueue := AList.delete k (waitingForQueue q)\<rparr>))"
| tick: "clock_now q \<le> t \<Longrightarrow> delay_step q (q\<lparr>clock_now := t\<rparr>)"

inductive wq_step :: "nat \<Rightarrow> 'k q_event \<Rightarrow> 'k q_conf \<Rightarrow> 'k q_conf \<Rightarrow> bool" for n :: nat where
  call_Add: "wq_step n (EvAdd k) c (c\<lparr>qc_queue := q_Add k (qc_queue c)\<rparr>)"
| call_AddSlow: "wq_step n (EvAdd k) c (c\<lparr>qc_queue := q_AddSlow k (qc_queue c)\<rparr>)"
| call_AddAfter: "wq_step n (EvAdd k) c (c\<lparr>qc_queue := q_AddAfter k d (qc_queue c)\<rparr>)"
| call_AddRateLimited: "wq_step n (EvAdd k) c (c\<lparr>qc_queue := q_AddRateLimited b k (qc_queue c)\<rparr>)"
| call_Forget: "wq_step n EvInternal c (c\<lparr>qc_queue := q_Forget k (qc_queue c)\<rparr>)"
| call_ShutDown: "wq_step n EvInternal c (c\<lparr>qc_queue := q_ShutDown (qc_queue c)\<rparr>)"
| worker_Get: "length (qc_busy c) < n \<Longrightarrow> q_Get (qc_queue c) = (Item k, q') \<Longrightarrow>
    wq_step n (EvGet k) c \<lparr>qc_queue = q', qc_busy = k # qc_busy c\<rparr>"
| worker_Done: "k \<in> set (qc_busy c) \<Longrightarrow>
    wq_step n (EvDone k) c \<lparr>qc_queue = q_Done k (qc_queue c), qc_busy = remove1 k (qc_busy c)\<rparr>"
| fast_lane: "lane_step (fastLane (qc_queue c), fastChan (qc_queue c)) (l, p) \<Longrightarrow>
    wq_step n EvInternal c (c\<lparr>qc_queue := (qc_queue c)\<lparr>fastLane := l, fastChan := p\<rparr>\<rparr>)"
| slow_lane: "lane_step (slowLane (qc_queue c), slowChan (qc_queue c)) (l, p) \<Longrightarrow>
    wq_step n EvInternal c (c\<lparr>qc_queue := (qc_queue c)\<lparr>slowLane := l, slowChan := p\<rparr>\<rparr>)"
| consumer: "consumer_step (qc_queue c) q' \<Longrightarrow> wq_step n EvInternal c (c\<lparr>qc_queue := q'\<rparr>)"
| delay: "delay_step (qc_queue c) q' \<Longrightarrow> wq_step n EvInternal c (c\<lparr>qc_queue := q'\<rparr>)"

inductive_cases lane_stepE: "lane_step lp lp'"
inductive_cases consumer_stepE: "consumer_step q q'"
inductive_cases delay_stepE: "delay_step q q'"
inductive_cases wq_stepE: "wq_step n ev c c'"

section \<open>Invariant\<close>

text \<open>The comment of the source: every element of the queue is dirty and not being processed.\<close>

definition tq_ok :: "'k typed_queue \<Rightarrow> bool" where
  "tq_ok q \<longleftrightarrow> distinct (tq_queue q) \<and> set (tq_queue q) = tq_dirty q - tq_processing q"

lemma NewTyped_ok [simp]: "tq_ok NewTyped"
  by (simp add: tq_ok_def NewTyped_def)

lemma tq_Add_queue:
  "tq_queue (tq_Add k q) = (if tq_shuttingDown q \<or> k \<in> tq_dirty q \<or> k \<in> tq_processing q then tq_queue q else tq_queue q @ [k])"
  "tq_dirty (tq_Add k q) = (if tq_shuttingDown q then tq_dirty q else insert k (tq_dirty q))"
  by (auto simp: tq_Add_def Let_def)

lemma tq_Add_ok: "tq_ok q \<Longrightarrow> tq_ok (tq_Add k q)"
proof -
  assume ok: "tq_ok q"
  have p: "tq_processing (tq_Add k q) = tq_processing q" by (simp add: tq_Add_def Let_def)
  show ?thesis using ok unfolding tq_ok_def tq_Add_queue p by auto
qed

lemma tq_Add_sel [simp]:
  "tq_processing (tq_Add k q) = tq_processing q" "tq_shuttingDown (tq_Add k q) = tq_shuttingDown q"
  "\<not> tq_shuttingDown q \<Longrightarrow> tq_dirty (tq_Add k q) = insert k (tq_dirty q)"
  by (auto simp: tq_Add_def Let_def)

lemma tq_Get_cases:
  assumes "tq_Get q = (g, q')"
  obtains "tq_queue q = []" "g = (if tq_shuttingDown q then Shutdown else Blocked)" "q' = q"
  | k rest where "tq_queue q = k # rest" "g = Item k"
      "q' = q\<lparr>tq_queue := rest, tq_processing := insert k (tq_processing q), tq_dirty := tq_dirty q - {k}\<rparr>"
proof (cases "tq_queue q")
  case Nil
  show thesis by (rule that(1)) (use assms Nil in \<open>simp_all add: tq_Get_def split: if_splits\<close>)
next
  case (Cons k rest)
  show thesis by (rule that(2)) (use assms Cons in \<open>auto simp: tq_Get_def\<close>)
qed

lemma tq_Get_ok:
  assumes "tq_ok q" "tq_Get q = (g, q')"
  shows "tq_ok q'"
  using assms(2)
proof (cases rule: tq_Get_cases)
  case (2 k rest)
  have k: "k \<notin> set rest" "distinct rest" and s: "insert k (set rest) = tq_dirty q - tq_processing q"
    using assms(1) 2(1) by (simp_all add: tq_ok_def)
  have "set rest = insert k (set rest) - {k}" using k by blast
  also have "\<dots> = (tq_dirty q - {k}) - insert k (tq_processing q)" unfolding s by blast
  finally show ?thesis using k(2) by (simp add: tq_ok_def 2(3))
qed (use assms in simp)

lemma tq_Get_Item:
  assumes "tq_ok q" "tq_Get q = (Item k, q')"
  shows "k \<in> tq_dirty q" "k \<notin> tq_processing q" "tq_dirty q' = tq_dirty q - {k}"
    "tq_processing q' = insert k (tq_processing q)" "tq_shuttingDown q' = tq_shuttingDown q"
    "tq_queue q = k # tq_queue q'"
proof -
  obtain rest where q: "tq_queue q = k # rest"
    "q' = q\<lparr>tq_queue := rest, tq_processing := insert k (tq_processing q), tq_dirty := tq_dirty q - {k}\<rparr>"
    using assms(2) by (cases rule: tq_Get_cases) (auto split: if_splits)
  have "k \<in> set (tq_queue q)" by (simp add: q(1))
  then show "k \<in> tq_dirty q" "k \<notin> tq_processing q" using assms(1) by (simp_all add: tq_ok_def)
  show "tq_dirty q' = tq_dirty q - {k}" "tq_processing q' = insert k (tq_processing q)"
    "tq_shuttingDown q' = tq_shuttingDown q" "tq_queue q = k # tq_queue q'" by (simp_all add: q)
qed

lemma q_Get_Item:
  assumes "q_Get q = (Item k, q')"
  shows "\<exists>l. tq_Get (consumerQueue q) = (Item k, l) \<and> q' = q\<lparr>consumerQueue := l\<rparr>"
  using assms by (cases "tq_Get (consumerQueue q)") (simp add: q_Get_def)

lemma tq_Get_Shutdown: "tq_Get q = (Shutdown, q') \<Longrightarrow> q' = q \<and> tq_shuttingDown q \<and> tq_queue q = []"
  by (erule tq_Get_cases) (auto split: if_splits)

lemma tq_Done_queue: "tq_queue (tq_Done k q) = (if k \<in> tq_dirty q then tq_queue q @ [k] else tq_queue q)"
  by (simp add: tq_Done_def Let_def)

lemma tq_Done_ok: "tq_ok q \<Longrightarrow> k \<in> tq_processing q \<Longrightarrow> tq_ok (tq_Done k q)"
proof -
  assume ok: "tq_ok q" "k \<in> tq_processing q"
  have p: "tq_processing (tq_Done k q) = tq_processing q - {k}" "tq_dirty (tq_Done k q) = tq_dirty q"
    by (simp_all add: tq_Done_def Let_def)
  show ?thesis using ok unfolding tq_ok_def tq_Done_queue p by auto
qed

lemma tq_Done_sel [simp]:
  "tq_dirty (tq_Done k q) = tq_dirty q" "tq_processing (tq_Done k q) = tq_processing q - {k}"
  "tq_shuttingDown (tq_Done k q) = tq_shuttingDown q"
  by (auto simp: tq_Done_def Let_def)

lemma tq_ShutDown_sel [simp]:
  "tq_queue (tq_ShutDown q) = tq_queue q" "tq_dirty (tq_ShutDown q) = tq_dirty q" "tq_processing (tq_ShutDown q) = tq_processing q"
  "tq_shuttingDown (tq_ShutDown q)" "tq_ok (tq_ShutDown q) = tq_ok q"
  by (simp_all add: tq_ShutDown_def tq_ok_def)

fun fetched_key :: "'k producer \<Rightarrow> 'k set" where
  "fetched_key (Fetched k) = {k}"
| "fetched_key _ = {}"

definition lane_ok :: "'k typed_queue \<Rightarrow> 'k producer \<Rightarrow> bool" where
  "lane_ok l p \<longleftrightarrow> tq_ok l \<and> tq_processing l = fetched_key p \<and> (p = Closed \<longrightarrow> tq_shuttingDown l \<and> tq_dirty l = {})"

lemma lane_step_ok:
  assumes "lane_step (l, p) (l', p')" "lane_ok l p"
  shows "lane_ok l' p'"
  using assms(1)
proof (cases rule: lane_step.cases)
  case (fetch k)
  then show ?thesis using assms(2) tq_Get_ok [of l "Item k" l'] tq_Get_Item(4) [of l k l'] by (simp add: lane_ok_def)
next
  case fetch_shutdown
  then show ?thesis using assms(2) tq_Get_Shutdown [of l l'] by (auto simp: lane_ok_def tq_ok_def)
next
  case (fetched k)
  then show ?thesis using assms(2) by (simp add: lane_ok_def tq_Done_ok)
qed

lemma lane_ok_ShutDown [simp]: "lane_ok l p \<Longrightarrow> lane_ok (tq_ShutDown l) p"
  by (simp add: lane_ok_def)

lemma lane_ok_Add [simp]: "lane_ok l p \<Longrightarrow> lane_ok (tq_Add k l) p"
  by (auto simp: lane_ok_def tq_Add_ok) (simp add: tq_Add_def)

text \<open>
  Each lane's goroutine holds what its lane takes for being processed; the consumer stops looking at
  a lane only after it is closed and shuts the workers' queue down last; the workers hold
  what that queue takes for being processed.
\<close>

definition q_inv :: "'k q_conf \<Rightarrow> bool" where
  "q_inv c \<longleftrightarrow> (let q = qc_queue c in
     lane_ok (fastLane q) (fastChan q) \<and> lane_ok (slowLane q) (slowChan q) \<and>
     (\<not> q_fast q \<longrightarrow> fastChan q = Closed) \<and> (\<not> q_slow q \<longrightarrow> slowChan q = Closed) \<and>
     tq_ok (consumerQueue q) \<and> (tq_shuttingDown (consumerQueue q) \<longleftrightarrow> q_consumer q = Ended) \<and>
     (q_consumer q = Ended \<longrightarrow> \<not> q_fast q \<and> \<not> q_slow q) \<and>
     distinct (qc_busy c) \<and> set (qc_busy c) = tq_processing (consumerQueue q) \<and>
     distinct (map fst (waitingForQueue q)))"

lemma q_invI [intro?]:
  assumes "lane_ok (fastLane (qc_queue c)) (fastChan (qc_queue c))" "lane_ok (slowLane (qc_queue c)) (slowChan (qc_queue c))"
    "\<not> q_fast (qc_queue c) \<Longrightarrow> fastChan (qc_queue c) = Closed" "\<not> q_slow (qc_queue c) \<Longrightarrow> slowChan (qc_queue c) = Closed"
    "tq_ok (consumerQueue (qc_queue c))" "tq_shuttingDown (consumerQueue (qc_queue c)) \<longleftrightarrow> q_consumer (qc_queue c) = Ended"
    "q_consumer (qc_queue c) = Ended \<Longrightarrow> \<not> q_fast (qc_queue c) \<and> \<not> q_slow (qc_queue c)"
    "distinct (qc_busy c)" "set (qc_busy c) = tq_processing (consumerQueue (qc_queue c))"
    "distinct (map fst (waitingForQueue (qc_queue c)))"
  shows "q_inv c"
  using assms by (simp add: q_inv_def Let_def)

lemma q_invD:
  assumes "q_inv c"
  shows "lane_ok (fastLane (qc_queue c)) (fastChan (qc_queue c))" "lane_ok (slowLane (qc_queue c)) (slowChan (qc_queue c))"
    "\<not> q_fast (qc_queue c) \<Longrightarrow> fastChan (qc_queue c) = Closed" "\<not> q_slow (qc_queue c) \<Longrightarrow> slowChan (qc_queue c) = Closed"
    "tq_ok (consumerQueue (qc_queue c))" "tq_shuttingDown (consumerQueue (qc_queue c)) \<longleftrightarrow> q_consumer (qc_queue c) = Ended"
    "q_consumer (qc_queue c) = Ended \<Longrightarrow> \<not> q_fast (qc_queue c) \<and> \<not> q_slow (qc_queue c)"
    "distinct (qc_busy c)" "set (qc_busy c) = tq_processing (consumerQueue (qc_queue c))"
    "distinct (map fst (waitingForQueue (qc_queue c)))"
  using assms by (simp_all add: q_inv_def Let_def)

lemma q_Add_inv: "q_inv c \<Longrightarrow> q_inv (c\<lparr>qc_queue := q_Add k (qc_queue c)\<rparr>)"
  by (auto simp: q_inv_def q_Add_def Let_def)

lemma q_AddAfter_inv: "q_inv c \<Longrightarrow> q_inv (c\<lparr>qc_queue := q_AddAfter k d (qc_queue c)\<rparr>)"
  using q_Add_inv [of c k] by (auto simp: q_AddAfter_def) (simp add: q_inv_def Let_def)

lemma distinct_insert_waiting: "distinct (map fst w) \<Longrightarrow> distinct (map fst (insert_waiting e w))"
  by (cases e) (auto simp: insert_waiting_def distinct_update map_of_eq_None_iff split: option.split)

lemma consumer_step_inv:
  assumes "consumer_step (qc_queue c) q'" "q_inv c"
  shows "q_inv (c\<lparr>qc_queue := q'\<rparr>)"
  using assms(1)
proof (cases rule: consumer_step.cases)
  case (add k)
  then show ?thesis using assms(2) by (auto simp: q_inv_def Let_def tq_Add_ok)
qed (use assms(2) in \<open>auto simp: q_inv_def Let_def lane_ok_def\<close>)

lemma delay_step_inv:
  assumes "delay_step (qc_queue c) q'" "q_inv c"
  shows "q_inv (c\<lparr>qc_queue := q'\<rparr>)"
  using assms(1)
proof (cases rule: delay_step.cases)
  case (receive e es)
  then show ?thesis
    using assms(2) distinct_insert_waiting [of "waitingForQueue (qc_queue c)" e]
    by (auto simp: receive_entry_def q_Add_def q_inv_def Let_def)
next
  case (ready k t)
  then show ?thesis using assms(2) by (auto simp: q_inv_def q_Add_def Let_def distinct_delete)
next
  case (tick t)
  then show ?thesis using assms(2) by (simp add: q_inv_def Let_def)
qed

lemma wq_step_inv:
  assumes "wq_step n ev c c'" "q_inv c"
  shows "q_inv c'"
  using assms(1)
proof (cases rule: wq_step.cases)
  case (call_Add k)
  then show ?thesis using q_Add_inv [OF assms(2)] by simp
next
  case (call_AddSlow k)
  then show ?thesis using assms(2) by (auto simp: q_inv_def q_AddSlow_def Let_def)
next
  case (call_AddAfter k d)
  then show ?thesis using q_AddAfter_inv [OF assms(2)] by simp
next
  case (call_AddRateLimited k b)
  obtain d fs where d: "default_When b k (q_failures (qc_queue c)) = (d, fs)" by fastforce
  have "q_inv (c\<lparr>qc_queue := (qc_queue c)\<lparr>q_failures := fs\<rparr>\<rparr>)" using assms(2) by (simp add: q_inv_def Let_def)
  from q_AddAfter_inv [OF this, of k d] show ?thesis by (simp add: call_AddRateLimited(2) q_AddRateLimited_def d)
next
  case (call_Forget k)
  then show ?thesis using assms(2) by (simp add: q_inv_def q_Forget_def Let_def)
next
  case call_ShutDown
  then show ?thesis using assms(2) by (simp add: q_inv_def q_ShutDown_def Let_def)
next
  case (worker_Get k q')
  obtain l where l: "tq_Get (consumerQueue (qc_queue c)) = (Item k, l)" "q' = (qc_queue c)\<lparr>consumerQueue := l\<rparr>"
    using q_Get_Item [OF worker_Get(4)] by blast
  note ok = q_invD [OF assms(2)]
  note g = tq_Get_Item [OF ok(5) l(1)]
  show ?thesis unfolding worker_Get(2)
    by (rule q_invI) (use ok g tq_Get_ok [OF ok(5) l(1)] in \<open>simp_all add: l(2)\<close>)
next
  case (worker_Done k)
  note ok = q_invD [OF assms(2)]
  have "tq_ok (tq_Done k (consumerQueue (qc_queue c)))" using ok(5,9) worker_Done(3) by (intro tq_Done_ok) auto
  then show ?thesis unfolding worker_Done(2)
    by (intro q_invI) (use ok in \<open>auto simp: q_Done_def set_remove1_eq\<close>)
next
  case (fast_lane l p)
  then show ?thesis using assms(2) lane_step_ok [OF fast_lane(3)] by (auto simp: q_inv_def Let_def elim: lane_stepE)
next
  case (slow_lane l p)
  then show ?thesis using assms(2) lane_step_ok [OF slow_lane(3)] by (auto simp: q_inv_def Let_def elim: lane_stepE)
next
  case (consumer q')
  then show ?thesis using consumer_step_inv [OF _ assms(2)] by simp
next
  case (delay q')
  then show ?thesis using delay_step_inv [OF _ assms(2)] by simp
qed

section \<open>Refinement of a set of pending keys\<close>

fun producer_keys :: "'k producer \<Rightarrow> 'k set" where
  "producer_keys (Fetched k) = {k}"
| "producer_keys (Sending k) = {k}"
| "producer_keys _ = {}"

fun consumer_keys :: "'k consumer \<Rightarrow> 'k set" where
  "consumer_keys (Adding k) = {k}"
| "consumer_keys _ = {}"

text \<open>The keys that somebody added and no worker has taken since.\<close>

definition q_pending :: "'k work_queue \<Rightarrow> 'k set" where
  "q_pending q = tq_dirty (fastLane q) \<union> producer_keys (fastChan q) \<union> tq_dirty (slowLane q) \<union> producer_keys (slowChan q) \<union>
     consumer_keys (q_consumer q) \<union> tq_dirty (consumerQueue q) \<union> fst ` set (waitingForAddCh q) \<union> fst ` set (waitingForQueue q)"

text \<open>
  What a client may rely on: a set of pending keys and a set of keys that workers hold. A key that is
  taken may be pending again at once, since it was added twice; nothing else is forgotten.
\<close>

inductive spec_step :: "'k q_event \<Rightarrow> 'k set \<times> 'k set \<Rightarrow> 'k set \<times> 'k set \<Rightarrow> bool" where
  spec_add: "spec_step (EvAdd k) (P, B) (insert k P, B)"
| spec_get: "k \<in> P \<Longrightarrow> k \<notin> B \<Longrightarrow> P - {k} \<subseteq> P' \<Longrightarrow> P' \<subseteq> P \<Longrightarrow> spec_step (EvGet k) (P, B) (P', insert k B)"
| spec_done: "k \<in> B \<Longrightarrow> spec_step (EvDone k) (P, B) (P, B - {k})"
| spec_internal: "spec_step EvInternal (P, B) (P, B)"

definition abs_conf :: "'k q_conf \<Rightarrow> 'k set \<times> 'k set" where
  "abs_conf c = (q_pending (qc_queue c), set (qc_busy c))"

lemma q_Add_pending: "\<not> q_ShuttingDown q \<Longrightarrow> q_pending (q_Add k q) = insert k (q_pending q)"
  by (auto simp: q_pending_def q_Add_def q_ShuttingDown_def)

lemma q_AddSlow_pending: "\<not> q_ShuttingDown q \<Longrightarrow> q_pending (q_AddSlow k q) = insert k (q_pending q)"
  by (auto simp: q_pending_def q_AddSlow_def q_ShuttingDown_def)

lemma q_AddAfter_pending: "\<not> q_ShuttingDown q \<Longrightarrow> q_pending (q_AddAfter k d q) = insert k (q_pending q)"
  by (simp add: q_AddAfter_def q_Add_pending) (auto simp: q_pending_def)

lemma q_AddRateLimited_pending: "\<not> q_ShuttingDown q \<Longrightarrow> q_pending (q_AddRateLimited b k q) = insert k (q_pending q)"
proof -
  assume s: "\<not> q_ShuttingDown q"
  obtain d fs where "default_When b k (q_failures q) = (d, fs)" by fastforce
  then show ?thesis
    using s q_AddAfter_pending [of "q\<lparr>q_failures := fs\<rparr>" k d]
    by (simp add: q_AddRateLimited_def q_ShuttingDown_def) (simp add: q_pending_def)
qed

lemma q_Forget_pending [simp]: "q_pending (q_Forget k q) = q_pending q"
  by (simp add: q_pending_def q_Forget_def)

lemma q_Done_pending [simp]: "q_pending (q_Done k q) = q_pending q"
  by (simp add: q_pending_def q_Done_def)

lemma insert_waiting_keys: "fst ` set (insert_waiting e w) = insert (fst e) (fst ` set w)"
proof (cases "map_of w (fst e)")
  case None
  then show ?thesis by (simp add: insert_waiting_def)
next
  case (Some t)
  then have "fst e \<in> fst ` set w" by (metis map_of_SomeD image_eqI fst_conv)
  with Some show ?thesis by (auto simp: insert_waiting_def dom_update image_image [symmetric] simp flip: dom_map_of_conv_image_fst)
qed

lemma lane_step_keys:
  assumes "lane_step (l, p) (l', p')" "lane_ok l p"
  shows "tq_dirty l' \<union> producer_keys p' = tq_dirty l \<union> producer_keys p" "tq_shuttingDown l' = tq_shuttingDown l"
proof -
  have ok: "tq_ok l" using assms(2) by (simp add: lane_ok_def)
  from assms(1) have "tq_dirty l' \<union> producer_keys p' = tq_dirty l \<union> producer_keys p \<and> tq_shuttingDown l' = tq_shuttingDown l"
  proof (cases rule: lane_step.cases)
    case (fetch k)
    then show ?thesis using tq_Get_Item [OF ok fetch(3)] by auto
  next
    case fetch_shutdown
    then show ?thesis using tq_Get_Shutdown [of l l'] by simp
  qed simp
  then show "tq_dirty l' \<union> producer_keys p' = tq_dirty l \<union> producer_keys p" "tq_shuttingDown l' = tq_shuttingDown l" by simp_all
qed

lemma consumer_step_pending:
  assumes "consumer_step q q'" "tq_shuttingDown (consumerQueue q) \<longleftrightarrow> q_consumer q = Ended"
  shows "q_pending q' = q_pending q" "q_ShuttingDown q' = q_ShuttingDown q"
  using assms(1) by (cases rule: consumer_step.cases, use assms(2) in \<open>auto simp: q_pending_def q_ShuttingDown_def\<close>)+

lemma receive_entry_pending:
  assumes "\<not> q_ShuttingDown q"
  shows "q_pending (receive_entry e q) = insert (fst e) (q_pending q)"
proof (cases "snd e > clock_now q")
  case True
  have "q_pending (receive_entry e q) = insert (fst e) (q_pending q)"
    unfolding receive_entry_def if_P [OF True] q_pending_def by (simp add: insert_waiting_keys) 
  then show ?thesis .
qed (simp add: receive_entry_def q_Add_pending assms)

lemma delay_step_pending:
  assumes "delay_step q q'" "\<not> q_ShuttingDown q"
  shows "q_pending q' = q_pending q"
  using assms(1)
proof (cases rule: delay_step.cases)
  case (receive e es)
  have "\<not> q_ShuttingDown (q\<lparr>waitingForAddCh := es\<rparr>)" using assms(2) by (simp add: q_ShuttingDown_def)
  from receive_entry_pending [OF this, of e] show ?thesis unfolding receive(1) by (simp add: q_pending_def receive(2))
next
  case (ready k t)
  have "\<not> q_ShuttingDown (q\<lparr>waitingForQueue := AList.delete k (waitingForQueue q)\<rparr>)" using assms(2) by (simp add: q_ShuttingDown_def)
  note a = q_Add_pending [OF this, of k]
  have "insert k (fst ` set (AList.delete k (waitingForQueue q))) = fst ` set (waitingForQueue q)"
    using ready(2) by (force simp: AList.delete_eq)
  then show ?thesis unfolding ready(1) a by (simp add: q_pending_def flip: Un_insert_right)
next
  case (tick t)
  then show ?thesis by (simp add: q_pending_def)
qed


lemma wq_step_ShuttingDown:
  assumes "wq_step n ev c c'" "q_inv c" "q_ShuttingDown (qc_queue c)"
  shows "q_ShuttingDown (qc_queue c')"
  using assms(1)
proof (cases rule: wq_step.cases)
  case (call_AddRateLimited k b)
  then show ?thesis using assms(3)
    by (simp add: q_AddRateLimited_def q_AddAfter_def q_ShuttingDown_def split: prod.split)
next
  case (worker_Get k q')
  then show ?thesis using assms(3) q_Get_Item [OF worker_Get(4)] by (auto simp: q_ShuttingDown_def)
next
  case (fast_lane l p)
  then show ?thesis using assms(3) lane_step_keys(2) [OF fast_lane(3) q_invD(1) [OF assms(2)]] by (simp add: q_ShuttingDown_def)
next
  case (slow_lane l p)
  then show ?thesis using assms(3) lane_step_keys(2) [OF slow_lane(3) q_invD(2) [OF assms(2)]] by (simp add: q_ShuttingDown_def)
next
  case (consumer q')
  then show ?thesis using assms(3) consumer_step_pending(2) [OF consumer(3) q_invD(6) [OF assms(2)]] by simp
next
  case (delay q')
  from delay(3) show ?thesis
    using assms(3) delay(2) by (cases rule: delay_step.cases) (auto simp: receive_entry_def q_Add_def q_ShuttingDown_def)
qed (use assms(3) in \<open>auto simp: q_Add_def q_AddSlow_def q_AddAfter_def q_Forget_def q_ShutDown_def q_Done_def q_ShuttingDown_def\<close>)

text \<open>One step of the queue is one step of the specification.\<close>

lemma wq_step_refines:
  assumes "wq_step n ev c c'" "q_inv c" "\<not> q_ShuttingDown (qc_queue c')"
  shows "spec_step ev (abs_conf c) (abs_conf c')"
proof -
  have live: "\<not> q_ShuttingDown (qc_queue c)" using wq_step_ShuttingDown [OF assms(1,2)] assms(3) by blast
  note ok = q_invD [OF assms(2)]
  from assms(1) show ?thesis
  proof (cases rule: wq_step.cases)
    case (call_ShutDown)
    then show ?thesis using assms(3) by (simp add: q_ShutDown_def q_ShuttingDown_def)
  next
    case (worker_Get k q')
    obtain l where l: "tq_Get (consumerQueue (qc_queue c)) = (Item k, l)" "q' = (qc_queue c)\<lparr>consumerQueue := l\<rparr>"
      using q_Get_Item [OF worker_Get(4)] by blast
    note g = tq_Get_Item [OF ok(5) l(1)]
    have "k \<in> q_pending (qc_queue c)" using g(1) by (simp add: q_pending_def)
    moreover have "k \<notin> set (qc_busy c)" using g(2) ok(9) by simp
    moreover have "q_pending (qc_queue c) - {k} \<subseteq> q_pending q'" "q_pending q' \<subseteq> q_pending (qc_queue c)"
      using g(3) by (auto simp: q_pending_def l(2))
    ultimately show ?thesis by (simp add: abs_conf_def worker_Get spec_step.spec_get)
  next
    case (worker_Done k)
    have "set (remove1 k (qc_busy c)) = set (qc_busy c) - {k}" using ok(8) by (simp add: set_remove1_eq)
    then show ?thesis using worker_Done(3) by (simp add: abs_conf_def worker_Done(1,2) spec_step.spec_done)
  next
    case (fast_lane l p)
    have "q_pending (qc_queue c') = q_pending (qc_queue c)"
      using lane_step_keys(1) [OF fast_lane(3) ok(1)] unfolding fast_lane(2) q_pending_def by simp
    then show ?thesis by (simp add: abs_conf_def fast_lane(1,2) spec_step.spec_internal)
  next
    case (slow_lane l p)
    have "tq_dirty l \<union> producer_keys p = tq_dirty (slowLane (qc_queue c)) \<union> producer_keys (slowChan (qc_queue c))"
      by (rule lane_step_keys(1) [OF slow_lane(3) ok(2)])
    then have "q_pending (qc_queue c') = q_pending (qc_queue c)"
      unfolding slow_lane(2) q_pending_def by (simp add: Un_assoc)
    then show ?thesis by (simp add: abs_conf_def slow_lane(1,2) spec_step.spec_internal)
  next
    case (consumer q')
    then show ?thesis
      using consumer_step_pending(1) [OF consumer(3) ok(6)] by (simp add: abs_conf_def spec_step.spec_internal)
  next
    case (delay q')
    then show ?thesis using delay_step_pending [OF delay(3) live] by (simp add: abs_conf_def spec_step.spec_internal)
  qed (use live in \<open>simp_all add: abs_conf_def q_Add_pending q_AddSlow_pending q_AddAfter_pending q_AddRateLimited_pending
         spec_step.spec_add spec_step.spec_internal\<close>)
qed

lemma wq_step_busy: "wq_step n ev c c' \<Longrightarrow> length (qc_busy c) \<le> n \<Longrightarrow> length (qc_busy c') \<le> n"
  by (erule wq_stepE) (auto simp: length_remove1)

text \<open>Runs with their events.\<close>

inductive wq_trace :: "nat \<Rightarrow> 'k q_conf \<Rightarrow> 'k q_event list \<Rightarrow> 'k q_conf \<Rightarrow> bool" for n :: nat and c0 :: "'k q_conf" where
  start: "wq_trace n c0 [] c0"
| extend: "wq_trace n c0 evs c \<Longrightarrow> wq_step n ev c c' \<Longrightarrow> wq_trace n c0 (evs @ [ev]) c'"

inductive spec_trace :: "'k set \<times> 'k set \<Rightarrow> 'k q_event list \<Rightarrow> 'k set \<times> 'k set \<Rightarrow> bool" for s0 :: "'k set \<times> 'k set" where
  spec_start: "spec_trace s0 [] s0"
| spec_extend: "spec_trace s0 evs s \<Longrightarrow> spec_step ev s s' \<Longrightarrow> spec_trace s0 (evs @ [ev]) s'"

definition new_conf :: "int \<Rightarrow> 'k q_conf" where
  "new_conf t = \<lparr>qc_queue = newTwoLaneWorkQueue t, qc_busy = []\<rparr>"

lemma new_queue: "\<not> q_ShuttingDown (newTwoLaneWorkQueue t)" "q_pending (newTwoLaneWorkQueue t) = {}"
  by (simp_all add: newTwoLaneWorkQueue_def q_ShuttingDown_def q_pending_def NewTyped_def)

lemma new_conf_inv: "q_inv (new_conf t)" "\<not> q_ShuttingDown (qc_queue (new_conf t))" "abs_conf (new_conf t) = ({}, {})"
  by (simp_all add: q_inv_def new_conf_def newTwoLaneWorkQueue_def lane_ok_def Let_def q_ShuttingDown_def abs_conf_def q_pending_def)
    (simp_all add: NewTyped_def)

lemma wq_trace_inv: "wq_trace n c0 evs c \<Longrightarrow> q_inv c0 \<Longrightarrow> q_inv c"
  by (induction rule: wq_trace.induct) (auto intro: wq_step_inv)

lemma wq_trace_busy: "wq_trace n c0 evs c \<Longrightarrow> length (qc_busy c0) \<le> n \<Longrightarrow> length (qc_busy c) \<le> n"
  by (induction rule: wq_trace.induct) (auto intro: wq_step_busy)

lemma wq_trace_append: "wq_trace n c evs c1 \<Longrightarrow> wq_trace n c1 evs' c2 \<Longrightarrow> wq_trace n c (evs @ evs') c2"
  by (rotate_tac, induction rule: wq_trace.induct) (auto intro: wq_trace.extend simp flip: append_assoc)

lemma wq_trace_one: "wq_step n ev c c' \<Longrightarrow> wq_trace n c [ev] c'"
  using wq_trace.extend [OF wq_trace.start] by fastforce

lemma wq_trace_held:
  "wq_trace n c evs c' \<Longrightarrow> k \<in> set (qc_busy c) \<Longrightarrow> EvDone k \<notin> set evs \<Longrightarrow> k \<in> set (qc_busy c')"
proof (induction rule: wq_trace.induct)
  case (extend evs c1 ev c2)
  then have "k \<in> set (qc_busy c1)" "ev \<noteq> EvDone k" by auto
  with extend.hyps(2) show ?case by (auto elim!: wq_stepE) (metis in_set_remove1)
qed

lemma wq_trace_refines:
  assumes "wq_trace n c0 evs c" "q_inv c0" "\<not> q_ShuttingDown (qc_queue c)"
  shows "spec_trace (abs_conf c0) evs (abs_conf c)"
  using assms
proof (induction rule: wq_trace.induct)
  case (extend evs c ev c')
  have inv: "q_inv c" using wq_trace_inv extend.hyps(1) extend.prems(1) .
  then have "\<not> q_ShuttingDown (qc_queue c)" using wq_step_ShuttingDown [OF extend.hyps(2)] extend.prems(2) by blast
  then show ?case using extend wq_step_refines [OF extend.hyps(2) inv] by (blast intro: spec_trace.spec_extend)
qed (rule spec_trace.spec_start)


section \<open>Progress\<close>

text \<open>Steps without a client's call to add a key, while nobody shuts the queue down.\<close>

definition q_live :: "'k q_conf \<Rightarrow> bool" where
  "q_live c \<longleftrightarrow> q_inv c \<and> \<not> q_ShuttingDown (qc_queue c)"

inductive quiet_step :: "nat \<Rightarrow> 'k q_conf \<Rightarrow> 'k q_conf \<Rightarrow> bool" for n :: nat where
  quiet: "wq_step n ev c c' \<Longrightarrow> \<forall>k. ev \<noteq> EvAdd k \<Longrightarrow> \<not> q_ShuttingDown (qc_queue c') \<Longrightarrow> quiet_step n c c'"

abbreviation quiet_run :: "nat \<Rightarrow> 'k q_conf \<Rightarrow> 'k q_conf \<Rightarrow> bool" where
  "quiet_run n \<equiv> (quiet_step n)\<^sup>*\<^sup>*"

lemma quiet_step_live: "quiet_step n c c' \<Longrightarrow> q_live c \<Longrightarrow> q_live c'"
  by (auto simp: q_live_def elim!: quiet_step.cases intro: wq_step_inv)

lemma quiet_run_live: "quiet_run n c c' \<Longrightarrow> q_live c \<Longrightarrow> q_live c'"
  by (induction rule: rtranclp_induct) (auto intro: quiet_step_live)

lemma q_liveD:
  assumes "q_live c"
  shows "lane_ok (fastLane (qc_queue c)) (fastChan (qc_queue c))" "lane_ok (slowLane (qc_queue c)) (slowChan (qc_queue c))"
    "q_fast (qc_queue c)" "q_slow (qc_queue c)" "fastChan (qc_queue c) \<noteq> Closed" "slowChan (qc_queue c) \<noteq> Closed"
    "q_consumer (qc_queue c) \<noteq> Ended" "\<not> tq_shuttingDown (consumerQueue (qc_queue c))"
    "\<not> tq_shuttingDown (fastLane (qc_queue c))" "\<not> tq_shuttingDown (slowLane (qc_queue c))"
  using assms unfolding q_live_def q_inv_def Let_def lane_ok_def q_ShuttingDown_def by blast+

lemma consumer_quiet:
  "q_live c \<Longrightarrow> consumer_step (qc_queue c) q \<Longrightarrow> quiet_step n c (c\<lparr>qc_queue := q\<rparr>)"
  by (rule quiet_step.quiet [OF wq_step.consumer])
    (auto simp: q_live_def consumer_step_pending(2) [OF _ q_invD(6)])

lemma delay_quiet:
  assumes "q_live c" "delay_step (qc_queue c) q"
  shows "quiet_step n c (c\<lparr>qc_queue := q\<rparr>)"
proof (rule quiet_step.quiet [OF wq_step.delay [OF assms(2)]])
  from assms(2) show "\<not> q_ShuttingDown (qc_queue (c\<lparr>qc_queue := q\<rparr>))"
    using assms(1) by (cases rule: delay_step.cases) (auto simp: q_live_def q_ShuttingDown_def receive_entry_def q_Add_def)
qed simp

text \<open>The consumer returns to its loop, or is where a channel can be read.\<close>

lemma consumer_finishes_add:
  assumes "q_live c" "q_consumer (qc_queue c) = Adding j"
  obtains c' where "quiet_step n c c'" "q_consumer (qc_queue c') = Looking" "qc_busy c' = qc_busy c"
    "fastLane (qc_queue c') = fastLane (qc_queue c)" "slowLane (qc_queue c') = slowLane (qc_queue c)"
    "fastChan (qc_queue c') = fastChan (qc_queue c)" "slowChan (qc_queue c') = slowChan (qc_queue c)"
    "tq_dirty (consumerQueue (qc_queue c')) = insert j (tq_dirty (consumerQueue (qc_queue c)))"
proof (rule that)
  show "quiet_step n c (c\<lparr>qc_queue := (qc_queue c)\<lparr>consumerQueue := tq_Add j (consumerQueue (qc_queue c)), q_consumer := Looking\<rparr>\<rparr>)"
    by (rule consumer_quiet [OF assms(1) consumer_step.add [OF assms(2)]])
qed (use q_liveD(8) [OF assms(1)] in simp_all)

text \<open>\<open>delivered\<close>: the lane keeps its keys, its goroutine fetches again and the workers' queue has the key.\<close>

lemma fast_sent:
  assumes "q_live c" "fastChan (qc_queue c) = Sending k"
  shows "\<exists>c'. quiet_run n c c' \<and> fastLane (qc_queue c') = fastLane (qc_queue c) \<and> fastChan (qc_queue c') = Fetching \<and>
    slowLane (qc_queue c') = slowLane (qc_queue c) \<and> slowChan (qc_queue c') = slowChan (qc_queue c) \<and>
    q_consumer (qc_queue c') = Looking \<and> k \<in> tq_dirty (consumerQueue (qc_queue c'))"
proof -
  have ready: "\<exists>c'. quiet_run n c c' \<and> fastLane (qc_queue c') = fastLane (qc_queue c) \<and> fastChan (qc_queue c') = Fetching \<and>
    slowLane (qc_queue c') = slowLane (qc_queue c) \<and> slowChan (qc_queue c') = slowChan (qc_queue c) \<and>
    q_consumer (qc_queue c') = Looking \<and> k \<in> tq_dirty (consumerQueue (qc_queue c'))"
    if c: "q_live c" "fastChan (qc_queue c) = Sending k" "q_consumer (qc_queue c) = Looking \<or> q_consumer (qc_queue c) = Selecting" for c
  proof -
    have s: "quiet_step n c (c\<lparr>qc_queue := (qc_queue c)\<lparr>fastChan := Fetching, q_consumer := Adding k\<rparr>\<rparr>)" (is "quiet_step n c ?c1")
      by (rule consumer_quiet [OF c(1) consumer_step.take_fast]) (use c q_liveD(3) [OF c(1)] in auto)
    obtain c2 where c2: "quiet_step n ?c1 c2" "q_consumer (qc_queue c2) = Looking"
      "fastLane (qc_queue c2) = fastLane (qc_queue c)" "slowLane (qc_queue c2) = slowLane (qc_queue c)"
      "fastChan (qc_queue c2) = Fetching" "slowChan (qc_queue c2) = slowChan (qc_queue c)"
      "tq_dirty (consumerQueue (qc_queue c2)) = insert k (tq_dirty (consumerQueue (qc_queue c)))"
      by (rule consumer_finishes_add [OF quiet_step_live [OF s c(1)], of k n]) simp_all
    have "quiet_run n c c2" using s c2(1) by (blast intro: converse_rtranclp_into_rtranclp)
    then show ?thesis using c2 by (intro exI [of _ c2]) simp
  qed
  show ?thesis
  proof (cases "q_consumer (qc_queue c)")
    case (Adding j)
    from consumer_finishes_add [OF assms(1) this, of n] obtain c1 where c1: "quiet_step n c c1" "q_consumer (qc_queue c1) = Looking"
      "fastLane (qc_queue c1) = fastLane (qc_queue c)" "slowLane (qc_queue c1) = slowLane (qc_queue c)"
      "fastChan (qc_queue c1) = Sending k" "slowChan (qc_queue c1) = slowChan (qc_queue c)" using assms(2) by metis
    from ready [OF quiet_step_live [OF c1(1) assms(1)] c1(5)] c1 show ?thesis
      by (metis converse_rtranclp_into_rtranclp)
  qed (use ready [OF assms] q_liveD(7) [OF assms(1)] in simp_all)
qed

lemma slow_selected:
  assumes "q_live c" "slowChan (qc_queue c) = Sending k" "q_consumer (qc_queue c) = Selecting"
  shows "\<exists>c'. quiet_run n c c' \<and> slowLane (qc_queue c') = slowLane (qc_queue c) \<and> slowChan (qc_queue c') = Fetching \<and>
    k \<in> tq_dirty (consumerQueue (qc_queue c'))"
proof -
  have s: "quiet_step n c (c\<lparr>qc_queue := (qc_queue c)\<lparr>slowChan := Fetching, q_consumer := Adding k\<rparr>\<rparr>)" (is "quiet_step n c ?c1")
    by (rule consumer_quiet [OF assms(1) consumer_step.take_slow]) (use assms in auto)
  obtain c2 where c2: "quiet_step n ?c1 c2" "slowLane (qc_queue c2) = slowLane (qc_queue c)" "slowChan (qc_queue c2) = Fetching"
    "tq_dirty (consumerQueue (qc_queue c2)) = insert k (tq_dirty (consumerQueue (qc_queue c)))"
    by (rule consumer_finishes_add [OF quiet_step_live [OF s assms(1)], of k n]) simp_all
  have "quiet_run n c c2" using s c2(1) by (blast intro: converse_rtranclp_into_rtranclp)
  then show ?thesis using c2 by (intro exI [of _ c2]) simp
qed

lemma slow_looked:
  assumes "q_live c" "slowChan (qc_queue c) = Sending k" "q_consumer (qc_queue c) = Looking" "\<forall>j. fastChan (qc_queue c) \<noteq> Sending j"
  shows "\<exists>c'. quiet_run n c c' \<and> slowLane (qc_queue c') = slowLane (qc_queue c) \<and> slowChan (qc_queue c') = Fetching \<and>
    k \<in> tq_dirty (consumerQueue (qc_queue c'))"
proof -
  have "fastChan (qc_queue c) = Fetching \<or> (\<exists>j. fastChan (qc_queue c) = Fetched j)"
    using assms(4) q_liveD(5) [OF assms(1)] by (cases "fastChan (qc_queue c)") auto
  then have s: "quiet_step n c (c\<lparr>qc_queue := (qc_queue c)\<lparr>q_consumer := Selecting\<rparr>\<rparr>)" (is "quiet_step n c ?c1")
    by (intro consumer_quiet [OF assms(1) consumer_step.nothing_fast]) (use assms q_liveD(3) [OF assms(1)] in auto)
  have "\<exists>c'. quiet_run n ?c1 c' \<and> slowLane (qc_queue c') = slowLane (qc_queue c) \<and> slowChan (qc_queue c') = Fetching \<and>
    k \<in> tq_dirty (consumerQueue (qc_queue c'))"
    using slow_selected [OF quiet_step_live [OF s assms(1)], of k n] assms(2) by simp
  with s show ?thesis by (meson converse_rtranclp_into_rtranclp)
qed

lemma slow_sent:
  assumes "q_live c" "slowChan (qc_queue c) = Sending k"
  shows "\<exists>c'. quiet_run n c c' \<and> slowLane (qc_queue c') = slowLane (qc_queue c) \<and> slowChan (qc_queue c') = Fetching \<and>
    k \<in> tq_dirty (consumerQueue (qc_queue c'))"
proof -
  have looking: "\<exists>c'. quiet_run n c c' \<and> slowLane (qc_queue c') = slowLane (qc_queue c) \<and> slowChan (qc_queue c') = Fetching \<and>
    k \<in> tq_dirty (consumerQueue (qc_queue c'))" if c: "q_live c" "slowChan (qc_queue c) = Sending k" "q_consumer (qc_queue c) = Looking" for c
  proof (cases "\<exists>j. fastChan (qc_queue c) = Sending j")
    case True
    with fast_sent [OF c(1), of _ n] c obtain c1 where c1: "quiet_run n c c1" "fastChan (qc_queue c1) = Fetching"
      "slowLane (qc_queue c1) = slowLane (qc_queue c)" "slowChan (qc_queue c1) = Sending k" "q_consumer (qc_queue c1) = Looking" by metis
    from slow_looked [OF quiet_run_live [OF c1(1) c(1)] c1(4,5), of n] c1 show ?thesis
      by (metis producer.distinct(3) rtranclp_trans)
  qed (use slow_looked [OF c] in simp)
  show ?thesis
  proof (cases "q_consumer (qc_queue c)")
    case (Adding j)
    from consumer_finishes_add [OF assms(1) this, of n] obtain c1 where c1: "quiet_step n c c1" "q_consumer (qc_queue c1) = Looking"
      "slowLane (qc_queue c1) = slowLane (qc_queue c)" "slowChan (qc_queue c1) = Sending k" using assms(2) by metis
    from looking [OF quiet_step_live [OF c1(1) assms(1)] c1(4,2)] c1 show ?thesis
      by (metis converse_rtranclp_into_rtranclp)
  qed (use looking [OF assms] slow_selected [OF assms] q_liveD(7) [OF assms(1)] in simp_all)
qed


text \<open>
  A lane with its goroutine: what a lane offers the workers' queue, and from that alone, that every
  key of the lane gets there.
\<close>

locale lane_progress =
  fixes n :: nat
    and lane :: "'k q_conf \<Rightarrow> 'k typed_queue"
    and chan :: "'k q_conf \<Rightarrow> 'k producer"
  assumes lane_live: "q_live c \<Longrightarrow> lane_ok (lane c) (chan c) \<and> chan c \<noteq> Closed"
    and lane_moves: "q_live c \<Longrightarrow> lane_step (lane c, chan c) (l, p) \<Longrightarrow> \<exists>c'. quiet_step n c c' \<and> lane c' = l \<and> chan c' = p"
    and lane_sends: "q_live c \<Longrightarrow> chan c = Sending k \<Longrightarrow>
      \<exists>c'. quiet_run n c c' \<and> lane c' = lane c \<and> chan c' = Fetching \<and> k \<in> tq_dirty (consumerQueue (qc_queue c'))"
begin

lemma held_key_delivered:
  assumes "q_live c" "k \<in> producer_keys (chan c)"
  shows "\<exists>c'. quiet_run n c c' \<and> chan c' = Fetching \<and> (lane c' = lane c \<or> lane c' = tq_Done k (lane c)) \<and>
    k \<in> tq_dirty (consumerQueue (qc_queue c'))"
proof (cases "chan c")
  case (Fetched j)
  then have j: "chan c = Fetched k" using assms(2) by simp
  obtain c1 where c1: "quiet_step n c c1" "lane c1 = tq_Done k (lane c)" "chan c1 = Sending k"
    using lane_moves [OF assms(1), of "tq_Done k (lane c)" "Sending k"] by (auto simp: j lane_step.fetched)
  with lane_sends [OF quiet_step_live [OF c1(1) assms(1)] c1(3)] show ?thesis
    by (metis converse_rtranclp_into_rtranclp)
next
  case (Sending j)
  then show ?thesis using assms(2) lane_sends [OF assms(1), of k] by auto
qed (use assms in simp_all)

lemma queued_key_delivered:
  assumes "q_live c" "chan c = Fetching" "tq_queue (lane c) = xs @ k # ys"
  shows "\<exists>c'. quiet_run n c c' \<and> k \<in> tq_dirty (consumerQueue (qc_queue c'))"
  using assms
proof (induction xs arbitrary: c ys)
  case Nil
  then obtain l where "tq_Get (lane c) = (Item k, l)" by (simp add: tq_Get_def)
  then obtain c1 where c1: "quiet_step n c c1" "chan c1 = Fetched k"
    using lane_moves [OF Nil(1)] Nil(2) lane_step.fetch by metis
  then show ?case using held_key_delivered [OF quiet_step_live [OF c1(1) Nil(1)], of k]
    by (metis converse_rtranclp_into_rtranclp insertI1 producer_keys.simps(1))
next
  case (Cons x xs)
  then obtain l where l: "tq_Get (lane c) = (Item x, l)" "tq_queue l = xs @ k # ys" by (simp add: tq_Get_def)
  then obtain c1 where c1: "quiet_step n c c1" "chan c1 = Fetched x" "lane c1 = l"
    using lane_moves [OF Cons(2)] Cons(3) lane_step.fetch by metis
  note live1 = quiet_step_live [OF c1(1) Cons(2)]
  obtain c2 where c2: "quiet_run n c1 c2" "chan c2 = Fetching" "lane c2 = l \<or> lane c2 = tq_Done x l"
    using held_key_delivered [OF live1, of x] c1 by auto
  have "\<exists>zs. tq_queue (lane c2) = xs @ k # zs" using c2(3) l(2) by (auto simp: tq_Done_def Let_def)
  then obtain c3 where "quiet_run n c2 c3" "k \<in> tq_dirty (consumerQueue (qc_queue c3))"
    using Cons.IH [OF quiet_run_live [OF c2(1) live1] c2(2)] by blast
  with c1(1) c2(1) show ?case by (meson converse_rtranclp_into_rtranclp rtranclp_trans)
qed

lemma lane_key_delivered:
  assumes "q_live c" "k \<in> tq_dirty (lane c) \<union> producer_keys (chan c)"
  shows "\<exists>c'. quiet_run n c c' \<and> k \<in> tq_dirty (consumerQueue (qc_queue c'))"
proof (cases "k \<in> producer_keys (chan c)")
  case True
  then show ?thesis using held_key_delivered [OF assms(1)] by blast
next
  case False
  have processing: "tq_processing (lane c') \<subseteq> producer_keys (chan c')" if "q_live c'" for c'
    using lane_live [OF that] by (cases "chan c'") (auto simp: lane_ok_def)
  have queued: "k \<in> set (tq_queue (lane c))"
    using False assms(2) processing [OF assms(1)] lane_live [OF assms(1)] by (auto simp: lane_ok_def tq_ok_def)
  show ?thesis
  proof (cases "chan c = Fetching")
    case True
    then show ?thesis using queued queued_key_delivered [OF assms(1) True] by (meson split_list)
  next
    case other: False
    then obtain j where "j \<in> producer_keys (chan c)" using lane_live [OF assms(1)] by (cases "chan c") auto
    from held_key_delivered [OF assms(1) this] obtain c1 where
      c1: "quiet_run n c c1" "chan c1 = Fetching" "lane c1 = lane c \<or> lane c1 = tq_Done j (lane c)" by blast
    have "k \<in> set (tq_queue (lane c1))" using c1(3) queued by (auto simp: tq_Done_def Let_def)
    then show ?thesis
      using queued_key_delivered [OF quiet_run_live [OF c1(1) assms(1)] c1(2)] c1(1) by (meson rtranclp_trans split_list)
  qed
qed

end

interpretation fast: lane_progress n "\<lambda>c. fastLane (qc_queue c)" "\<lambda>c. fastChan (qc_queue c)" for n
proof unfold_locales
  fix c :: "'a q_conf" and l p
  assume live: "q_live c" and s: "lane_step (fastLane (qc_queue c), fastChan (qc_queue c)) (l, p)"
  have "quiet_step n c (c\<lparr>qc_queue := (qc_queue c)\<lparr>fastLane := l, fastChan := p\<rparr>\<rparr>)"
    by (rule quiet_step.quiet [OF wq_step.fast_lane [OF s]])
      (use live lane_step_keys(2) [OF s q_liveD(1) [OF live]] in \<open>simp_all add: q_live_def q_ShuttingDown_def\<close>)
  then show "\<exists>c'. quiet_step n c c' \<and> fastLane (qc_queue c') = l \<and> fastChan (qc_queue c') = p" by fastforce
next
  fix c :: "'a q_conf"
  assume "q_live c"
  then show "lane_ok (fastLane (qc_queue c)) (fastChan (qc_queue c)) \<and> fastChan (qc_queue c) \<noteq> Closed"
    using q_liveD(1,5) by blast
next
  fix c :: "'a q_conf" and k
  assume "q_live c" "fastChan (qc_queue c) = Sending k"
  from fast_sent [OF this, of n] show "\<exists>c'. quiet_run n c c' \<and> fastLane (qc_queue c') = fastLane (qc_queue c) \<and>
    fastChan (qc_queue c') = Fetching \<and> k \<in> tq_dirty (consumerQueue (qc_queue c'))" by blast
qed

interpretation slow: lane_progress n "\<lambda>c. slowLane (qc_queue c)" "\<lambda>c. slowChan (qc_queue c)" for n
proof unfold_locales
  fix c :: "'a q_conf" and l p
  assume live: "q_live c" and s: "lane_step (slowLane (qc_queue c), slowChan (qc_queue c)) (l, p)"
  have "quiet_step n c (c\<lparr>qc_queue := (qc_queue c)\<lparr>slowLane := l, slowChan := p\<rparr>\<rparr>)"
    by (rule quiet_step.quiet [OF wq_step.slow_lane [OF s]])
      (use live lane_step_keys(2) [OF s q_liveD(2) [OF live]] in \<open>simp_all add: q_live_def q_ShuttingDown_def\<close>)
  then show "\<exists>c'. quiet_step n c c' \<and> slowLane (qc_queue c') = l \<and> slowChan (qc_queue c') = p" by fastforce
next
  fix c :: "'a q_conf"
  assume "q_live c"
  then show "lane_ok (slowLane (qc_queue c)) (slowChan (qc_queue c)) \<and> slowChan (qc_queue c) \<noteq> Closed"
    using q_liveD(2,6) by blast
next
  fix c :: "'a q_conf" and k
  assume "q_live c" "slowChan (qc_queue c) = Sending k"
  from slow_sent [OF this, of n] show "\<exists>c'. quiet_run n c c' \<and> slowLane (qc_queue c') = slowLane (qc_queue c) \<and>
    slowChan (qc_queue c') = Fetching \<and> k \<in> tq_dirty (consumerQueue (qc_queue c'))" by blast
qed

text \<open>The workers' queue: idle workers take the keys in front of a key until it is at the head.\<close>

lemma workers_finish:
  assumes "q_live c"
  shows "\<exists>c'. quiet_run n c c' \<and> qc_busy c' = [] \<and> tq_dirty (consumerQueue (qc_queue c')) = tq_dirty (consumerQueue (qc_queue c))"
  using assms
proof (induction "length (qc_busy c)" arbitrary: c)
  case 0
  then show ?case by auto
next
  case (Suc m)
  then obtain k ks where b: "qc_busy c = k # ks" by (cases "qc_busy c") auto
  let ?c1 = "\<lparr>qc_queue = q_Done k (qc_queue c), qc_busy = remove1 k (qc_busy c)\<rparr>"
  have s: "quiet_step n c ?c1"
    by (rule quiet_step.quiet [OF wq_step.worker_Done]) (use Suc(3) b in \<open>simp_all add: q_live_def q_Done_def q_ShuttingDown_def\<close>)
  from Suc(1) [of ?c1] quiet_step_live [OF s Suc(3)] Suc(2) b obtain c' where
    "quiet_run n ?c1 c'" "qc_busy c' = []" "tq_dirty (consumerQueue (qc_queue c')) = tq_dirty (consumerQueue (qc_queue ?c1))" by auto
  then show ?case using s by (auto simp: q_Done_def intro: converse_rtranclp_into_rtranclp)
qed

lemma queued_key_taken:
  assumes "q_live c" "0 < n" "qc_busy c = []" "tq_queue (consumerQueue (qc_queue c)) = xs @ k # ys"
  shows "\<exists>c' c''. quiet_run n c c' \<and> wq_step n (EvGet k) c' c'' \<and> \<not> q_ShuttingDown (qc_queue c'')"
  using assms
proof (induction xs arbitrary: c)
  case Nil
  then obtain q' where "q_Get (qc_queue c) = (Item k, q')" "q_ShuttingDown q' = q_ShuttingDown (qc_queue c)"
    by (auto simp: q_Get_def tq_Get_def q_ShuttingDown_def)
  then have "wq_step n (EvGet k) c \<lparr>qc_queue = q', qc_busy = k # qc_busy c\<rparr> \<and> \<not> q_ShuttingDown q'"
    using Nil wq_step.worker_Get [of c n k q'] by (simp add: q_live_def)
  then show ?case by (intro exI [of _ c] exI) auto
next
  case (Cons x xs)
  then obtain l where l: "tq_Get (consumerQueue (qc_queue c)) = (Item x, l)" "tq_queue l = xs @ k # ys" by (auto simp: tq_Get_def)
  have ok: "tq_ok (consumerQueue (qc_queue c))" using Cons(2) q_invD(5) by (auto simp: q_live_def)
  let ?c1 = "\<lparr>qc_queue = (qc_queue c)\<lparr>consumerQueue := l\<rparr>, qc_busy = [x]\<rparr>"
  let ?c2 = "\<lparr>qc_queue = q_Done x (qc_queue ?c1), qc_busy = []\<rparr>"
  have s1: "wq_step n (EvGet x) c ?c1" using wq_step.worker_Get [of c n x "(qc_queue c)\<lparr>consumerQueue := l\<rparr>"] Cons l by (simp add: q_Get_def)
  have q1: "quiet_step n c ?c1" by (rule quiet_step.quiet [OF s1]) (use Cons(2) in \<open>simp_all add: q_live_def q_ShuttingDown_def\<close>)
  have s2: "wq_step n (EvDone x) ?c1 ?c2" using wq_step.worker_Done [of x ?c1 n] by simp
  have q2: "quiet_step n ?c1 ?c2"
    by (rule quiet_step.quiet [OF s2]) (use Cons(2) in \<open>simp_all add: q_live_def q_Done_def q_ShuttingDown_def\<close>)
  have "tq_queue (consumerQueue (qc_queue ?c2)) = xs @ k # ys"
    using tq_Get_Item(3) [OF ok l(1)] l(2) by (simp add: q_Done_def tq_Done_def Let_def)
  then have "\<exists>c' c''. quiet_run n ?c2 c' \<and> wq_step n (EvGet k) c' c'' \<and> \<not> q_ShuttingDown (qc_queue c'')"
    using Cons(1) [OF quiet_step_live [OF q2 quiet_step_live [OF q1 Cons(2)]] Cons(3)] by simp
  then show ?case using q1 q2 by (meson converse_rtranclp_into_rtranclp)
qed

lemma dirty_key_taken:
  assumes "q_live c" "0 < n" "k \<in> tq_dirty (consumerQueue (qc_queue c))"
  shows "\<exists>c' c''. quiet_run n c c' \<and> wq_step n (EvGet k) c' c'' \<and> \<not> q_ShuttingDown (qc_queue c'')"
proof -
  obtain c1 where c1: "quiet_run n c c1" "qc_busy c1 = []" "k \<in> tq_dirty (consumerQueue (qc_queue c1))"
    using workers_finish [OF assms(1), of n] assms(3) by metis
  note live1 = quiet_run_live [OF c1(1) assms(1)]
  then have inv: "q_inv c1" by (simp add: q_live_def)
  have "tq_processing (consumerQueue (qc_queue c1)) = {}" using q_invD(9) [OF inv] c1(2) by simp
  then have "k \<in> set (tq_queue (consumerQueue (qc_queue c1)))" using q_invD(5) [OF inv] c1(3) by (simp add: tq_ok_def)
  then show ?thesis using queued_key_taken [OF live1 assms(2) c1(2)] c1(1) by (meson rtranclp_trans split_list)
qed

text \<open>The delaying queue: time passes and the keys that wait are added in the order of their times.\<close>

lemma due_key_added:
  assumes "q_live c" "k \<in> fst ` set (waitingForQueue (qc_queue c))" "\<forall>e\<in>set (waitingForQueue (qc_queue c)). snd e \<le> clock_now (qc_queue c)"
  shows "\<exists>c'. quiet_run n c c' \<and> k \<in> tq_dirty (fastLane (qc_queue c'))"
  using assms
proof (induction "length (waitingForQueue (qc_queue c))" arbitrary: c rule: less_induct)
  case less
  let ?w = "waitingForQueue (qc_queue c)"
  let ?e = "arg_min_on snd (set ?w)"
  have e: "?e \<in> set ?w" "\<forall>e\<in>set ?w. snd ?e \<le> snd e"
    using less(3) arg_min_if_finite(1) [of "set ?w" snd] arg_min_least [of "set ?w" _ snd] by fastforce+
  obtain j t where jt: "?e = (j, t)" by (cases ?e)
  let ?q = "q_Add j ((qc_queue c)\<lparr>waitingForQueue := AList.delete j ?w\<rparr>)"
  have s: "quiet_step n c (c\<lparr>qc_queue := ?q\<rparr>)" (is "quiet_step n c ?c1")
    by (rule delay_quiet [OF less(2) delay_step.ready]) (use e jt less(4) in auto)
  show ?case
  proof (cases "j = k")
    case True
    then have "k \<in> tq_dirty (fastLane (qc_queue ?c1))" using q_liveD(9) [OF less(2)] by (simp add: q_Add_def)
    then show ?thesis using s by blast
  next
    case False
    have "length (AList.delete j ?w) < length ?w"
      unfolding AList.delete_eq by (rule length_filter_less [of "(j, t)"]) (use e jt in auto)
    moreover have "k \<in> fst ` set (AList.delete j ?w)" using less(3) False by (force simp: AList.delete_eq)
    ultimately have "\<exists>c'. quiet_run n ?c1 c' \<and> k \<in> tq_dirty (fastLane (qc_queue c'))"
      using less(4) quiet_step_live [OF s less(2)] by (intro less(1)) (auto simp: q_Add_def AList.delete_eq)
    then show ?thesis using s by (meson converse_rtranclp_into_rtranclp)
  qed
qed

lemma waiting_key_added:
  assumes "q_live c" "k \<in> fst ` set (waitingForQueue (qc_queue c))"
  shows "\<exists>c'. quiet_run n c c' \<and> k \<in> tq_dirty (fastLane (qc_queue c'))"
proof -
  let ?w = "waitingForQueue (qc_queue c)"
  define t where "t = Max (insert (clock_now (qc_queue c)) (snd ` set ?w))"
  have "clock_now (qc_queue c) \<le> t" by (simp add: t_def)
  then have s: "quiet_step n c (c\<lparr>qc_queue := (qc_queue c)\<lparr>clock_now := t\<rparr>\<rparr>)" (is "quiet_step n c ?c1")
    by (intro delay_quiet [OF assms(1) delay_step.tick])
  have "\<exists>c'. quiet_run n ?c1 c' \<and> k \<in> tq_dirty (fastLane (qc_queue c'))"
    by (rule due_key_added [OF quiet_step_live [OF s assms(1)]]) (use assms(2) in \<open>auto simp: t_def\<close>)
  then show ?thesis using s by (meson converse_rtranclp_into_rtranclp)
qed

lemma sent_key_added:
  assumes "q_live c" "k \<in> fst ` set (waitingForAddCh (qc_queue c))"
  shows "\<exists>c'. quiet_run n c c' \<and> k \<in> tq_dirty (fastLane (qc_queue c'))"
  using assms
proof (induction "waitingForAddCh (qc_queue c)" arbitrary: c)
  case (Cons e es)
  let ?q = "receive_entry e ((qc_queue c)\<lparr>waitingForAddCh := es\<rparr>)"
  have s: "quiet_step n c (c\<lparr>qc_queue := ?q\<rparr>)" (is "quiet_step n c ?c1")
    by (rule delay_quiet [OF Cons(3) delay_step.receive]) (use Cons(2) in simp)
  note live1 = quiet_step_live [OF s Cons(3)]
  have "\<exists>c'. quiet_run n ?c1 c' \<and> k \<in> tq_dirty (fastLane (qc_queue c'))"
  proof (cases "fst e = k")
    case True
    have "k \<in> tq_dirty (fastLane ?q) \<or> k \<in> fst ` set (waitingForQueue ?q)"
      using q_liveD(9) [OF Cons(3)] True by (simp add: receive_entry_def q_Add_def insert_waiting_keys)
    then show ?thesis using waiting_key_added [OF live1, of k n] by auto
  next
    case False
    have "waitingForAddCh ?q = es" by (simp add: receive_entry_def q_Add_def)
    moreover have "k \<in> fst ` set es" using Cons(4) False unfolding Cons(2) [symmetric] by auto
    ultimately show ?thesis using Cons(1) [of ?c1] live1 by simp
  qed
  then show ?case using s by (meson converse_rtranclp_into_rtranclp)
qed simp

lemma pending_key_taken:
  assumes "q_live c" "0 < n" "k \<in> q_pending (qc_queue c)"
  shows "\<exists>c' c''. quiet_run n c c' \<and> wq_step n (EvGet k) c' c'' \<and> \<not> q_ShuttingDown (qc_queue c'')"
proof -
  have deliver: ?thesis if "quiet_run n c c1" "k \<in> tq_dirty (fastLane (qc_queue c1)) \<union> producer_keys (fastChan (qc_queue c1))" for c1
    using that fast.lane_key_delivered [OF quiet_run_live [OF that(1) assms(1)] that(2), of n] dirty_key_taken [OF _ assms(2)]
      quiet_run_live assms(1) by (metis rtranclp_trans)
  have slow: ?thesis if "k \<in> tq_dirty (slowLane (qc_queue c)) \<union> producer_keys (slowChan (qc_queue c))"
    using slow.lane_key_delivered [OF assms(1) that, of n] dirty_key_taken [OF _ assms(2)] quiet_run_live assms(1)
    by (metis rtranclp_trans)
  have adding: ?thesis if "k \<in> consumer_keys (q_consumer (qc_queue c))"
  proof -
    have "q_consumer (qc_queue c) = Adding k" using that by (cases "q_consumer (qc_queue c)") auto
    from consumer_finishes_add [OF assms(1) this, of n] obtain c1 where
      "quiet_step n c c1" "k \<in> tq_dirty (consumerQueue (qc_queue c1))" by (metis insertI1)
    then show ?thesis
      using dirty_key_taken [OF _ assms(2)] quiet_step_live assms(1) by (metis converse_rtranclp_into_rtranclp)
  qed
  from assms(3) consider "k \<in> tq_dirty (fastLane (qc_queue c)) \<union> producer_keys (fastChan (qc_queue c))"
    | "k \<in> tq_dirty (slowLane (qc_queue c)) \<union> producer_keys (slowChan (qc_queue c))"
    | "k \<in> consumer_keys (q_consumer (qc_queue c))" | "k \<in> tq_dirty (consumerQueue (qc_queue c))"
    | "k \<in> fst ` set (waitingForAddCh (qc_queue c))" | "k \<in> fst ` set (waitingForQueue (qc_queue c))"
    unfolding q_pending_def by blast
  then show ?thesis
  proof cases
    case 1
    then show ?thesis using deliver by blast
  next
    case 5
    then show ?thesis using sent_key_added [OF assms(1), of k n] deliver by blast
  next
    case 6
    then show ?thesis using waiting_key_added [OF assms(1), of k n] deliver by blast
  qed (use slow adding dirty_key_taken [OF assms(1,2)] in blast)+
qed


section \<open>Theorems\<close>

text \<open>Claim C15. At every moment of every run of the queue until it is shut down, with any interleaving of
  callers, lanes, timers and workers: what happened is a run of the abstract queue (a set of pending keys
  and a set of held keys), so no added key is lost and no key is handed to a second worker while a first one
  holds it; at most \<open>n\<close> keys are held.\<close>

theorem work_queue_refines:
  assumes "wq_trace n (new_conf t) evs c" "\<not> q_ShuttingDown (qc_queue c)"
  shows "spec_trace ({}, {}) evs (q_pending (qc_queue c), set (qc_busy c)) \<and> distinct (qc_busy c) \<and> length (qc_busy c) \<le> n"
proof -
  have "spec_trace (abs_conf (new_conf t)) evs (abs_conf c)" by (rule wq_trace_refines [OF assms(1) new_conf_inv(1) assms(2)])
  moreover have "distinct (qc_busy c)" by (rule q_invD(8) [OF wq_trace_inv [OF assms(1) new_conf_inv(1)]])
  moreover have "length (qc_busy c) \<le> n" by (rule wq_trace_busy [OF assms(1)]) (simp add: new_conf_def)
  ultimately show ?thesis by (simp add: new_conf_inv(3)) (simp add: abs_conf_def)
qed

text \<open>Claim C17. From every state that a queue reaches before it is shut down, a pending key can still reach a
  worker by steps of the queue itself, of time and of the workers alone: neither lane, nor the two
  goroutines, nor the timers can get into a state in which a key is stuck.\<close>

theorem work_queue_never_stuck:
  assumes "wq_trace n (new_conf t) evs c" "\<not> q_ShuttingDown (qc_queue c)" "0 < n" "k \<in> q_pending (qc_queue c)"
  shows "\<exists>c' c''. quiet_run n c c' \<and> wq_step n (EvGet k) c' c'' \<and> k \<in> set (qc_busy c'')"
proof -
  have "q_live c" using wq_trace_inv [OF assms(1) new_conf_inv(1)] assms(2) by (simp add: q_live_def)
  from pending_key_taken [OF this assms(3,4)] obtain c' c'' where c: "quiet_run n c c'" "wq_step n (EvGet k) c' c''" by blast
  from c(2) have "k \<in> set (qc_busy c'')" by cases simp
  with c show ?thesis by blast
qed

text \<open>Two keys are added, one of them in the slow lane and with a delay as well.\<close>

definition ex_conf :: "nat q_conf" where
  "ex_conf = (new_conf 0)\<lparr>qc_queue := q_AddAfter 1 5 (q_AddSlow 1 (q_Add 2 (newTwoLaneWorkQueue 0)))\<rparr>"

lemma ex_conf_trace: "wq_trace n (new_conf 0) [EvAdd 2, EvAdd 1, EvAdd 1] ex_conf" "\<not> q_ShuttingDown (qc_queue ex_conf)"
  "q_pending (qc_queue ex_conf) = {1, 2}"
proof -
  note s = wq_trace.extend [OF wq_trace.extend [OF wq_trace.extend [OF wq_trace.start [of n "new_conf 0"] wq_step.call_Add [of n "2::nat"]]
        wq_step.call_AddSlow [of n 1]] wq_step.call_AddAfter [of n 1 _ 5]]
  then show "wq_trace n (new_conf 0) [EvAdd 2, EvAdd 1, EvAdd 1] ex_conf" by (simp add: ex_conf_def new_conf_def)
  show "\<not> q_ShuttingDown (qc_queue ex_conf)" "q_pending (qc_queue ex_conf) = {1, 2}"
    by (auto simp: ex_conf_def new_conf_def newTwoLaneWorkQueue_def q_AddAfter_def q_AddSlow_def q_Add_def q_ShuttingDown_def
        q_pending_def NewTyped_def tq_Add_def)
qed

theorem work_queue_refines_witness:
  "spec_trace ({}, {}) [EvAdd 2, EvAdd 1, EvAdd 1] ({1, 2::nat}, set (qc_busy ex_conf)) \<and> length (qc_busy ex_conf) \<le> 2"
  using work_queue_refines [OF ex_conf_trace(1,2), of 2] by (simp add: ex_conf_trace(3))

theorem work_queue_never_stuck_witness:
  "\<exists>c' c''. quiet_run 1 ex_conf c' \<and> wq_step 1 (EvGet 1) c' c'' \<and> 1 \<in> set (qc_busy c'')"
  using work_queue_never_stuck [OF ex_conf_trace(1,2), of 1 1] by (simp add: ex_conf_trace(3))

text \<open>
  Claim C31. A worker is told to stop only when there is nothing left for it: both lanes, their channels and the
  workers' queue are empty. What may still be pending is a key that another worker holds, or one that
  waited for its delay.
\<close>

theorem shutdown_drains_lanes:
  assumes "wq_trace n (new_conf t) evs c" "q_Get (qc_queue c) = (Shutdown, q')"
  shows "q_ShuttingDown (qc_queue c) \<and> q_Len (qc_queue c) = 0 \<and>
    q_pending (qc_queue c) \<subseteq> set (qc_busy c) \<union> fst ` set (waitingForAddCh (qc_queue c)) \<union> fst ` set (waitingForQueue (qc_queue c))"
proof -
  have inv: "q_inv c" by (rule wq_trace_inv [OF assms(1) new_conf_inv(1)])
  note ok = q_invD [OF inv]
  obtain l where "tq_Get (consumerQueue (qc_queue c)) = (Shutdown, l)"
    using assms(2) by (cases "tq_Get (consumerQueue (qc_queue c))") (simp add: q_Get_def)
  from tq_Get_Shutdown [OF this] have stop: "tq_shuttingDown (consumerQueue (qc_queue c))" "tq_queue (consumerQueue (qc_queue c)) = []" by auto
  then have ended: "q_consumer (qc_queue c) = Ended" using ok(6) by simp
  have closed: "fastChan (qc_queue c) = Closed" "slowChan (qc_queue c) = Closed" using ok(3,4,7) ended by auto
  have lanes: "tq_dirty (fastLane (qc_queue c)) = {}" "tq_dirty (slowLane (qc_queue c)) = {}" "tq_shuttingDown (fastLane (qc_queue c))"
    "tq_queue (fastLane (qc_queue c)) = []" "tq_queue (slowLane (qc_queue c)) = []"
    using ok(1,2) closed by (auto simp: lane_ok_def tq_ok_def)
  have "tq_dirty (consumerQueue (qc_queue c)) \<subseteq> set (qc_busy c)" using ok(5,9) stop(2) by (auto simp: tq_ok_def)
  then show ?thesis
    using lanes stop(2) closed ended by (auto simp: q_ShuttingDown_def q_Len_def tq_Len_def q_pending_def)
qed

text \<open>A queue that is shut down at once: its goroutines end and its workers stop.\<close>

definition stopped_conf :: "nat q_conf" where
  "stopped_conf = (new_conf 0)\<lparr>qc_queue := (q_ShutDown (newTwoLaneWorkQueue 0))\<lparr>fastChan := Closed, slowChan := Closed, q_consumer := Ended,
     q_fast := False, q_slow := False, consumerQueue := tq_ShutDown NewTyped\<rparr>\<rparr>"

lemma stopped_conf_trace: "\<exists>evs. wq_trace n (new_conf 0) evs stopped_conf"
proof -
  note d = new_conf_def newTwoLaneWorkQueue_def q_ShutDown_def stopped_conf_def
  let ?d = "tq_ShutDown NewTyped :: nat typed_queue"
  define c0 :: "nat q_conf" where "c0 = (new_conf 0)\<lparr>qc_queue := q_ShutDown (newTwoLaneWorkQueue 0)\<rparr>"
  define q where "q = (\<lambda>fc sc (k :: nat consumer) f s. c0\<lparr>qc_queue := (qc_queue c0)\<lparr>fastChan := fc, slowChan := sc, q_consumer := k, q_fast := f, q_slow := s\<rparr>\<rparr>)"
  have "tq_Get ?d = (Shutdown, ?d)" by (simp add: tq_Get_def tq_ShutDown_def NewTyped_def)
  then have l: "lane_step (?d, Fetching) (?d, Closed)" by (rule lane_step.fetch_shutdown)
  have 1: "wq_step n EvInternal (new_conf 0) (q Fetching Fetching Looking True True)"
    using wq_step.call_ShutDown [of n "new_conf 0"] by (simp add: d q_def c0_def)
  have 2: "wq_step n EvInternal (q Fetching Fetching Looking True True) (q Closed Fetching Looking True True)"
    using wq_step.fast_lane [of "q Fetching Fetching Looking True True" ?d Closed n] l by (simp add: d q_def c0_def)
  have 3: "wq_step n EvInternal (q Closed Fetching Looking True True) (q Closed Closed Looking True True)"
    using wq_step.slow_lane [of "q Closed Fetching Looking True True" ?d Closed n] l by (simp add: d q_def c0_def)
  have 4: "wq_step n EvInternal (q Closed Closed Looking True True) (q Closed Closed Looking False True)"
    using wq_step.consumer [OF consumer_step.fast_closed, of "q Closed Closed Looking True True" n] by (simp add: d q_def c0_def)
  have 5: "wq_step n EvInternal (q Closed Closed Looking False True) (q Closed Closed Selecting False True)"
    using wq_step.consumer [OF consumer_step.nothing_fast, of "q Closed Closed Looking False True" n] by (simp add: d q_def c0_def)
  have 6: "wq_step n EvInternal (q Closed Closed Selecting False True) (q Closed Closed Looking False False)"
    using wq_step.consumer [OF consumer_step.slow_closed, of "q Closed Closed Selecting False True" n] by (simp add: d q_def c0_def)
  have 7: "wq_step n EvInternal (q Closed Closed Looking False False) stopped_conf"
    using wq_step.consumer [OF consumer_step.stop, of "q Closed Closed Looking False False" n] by (simp add: d q_def c0_def)
  show ?thesis using wq_trace.extend [OF wq_trace.extend [OF wq_trace.extend [OF wq_trace.extend [OF wq_trace.extend [OF wq_trace.extend
      [OF wq_trace_one [OF 1] 2] 3] 4] 5] 6] 7] by blast
qed

theorem shutdown_drains_lanes_witness: "q_Len (qc_queue stopped_conf) = 0 \<and> q_pending (qc_queue stopped_conf) = {}"
proof -
  obtain evs where evs: "wq_trace 1 (new_conf 0) evs stopped_conf" using stopped_conf_trace by blast
  have "q_Get (qc_queue stopped_conf) = (Shutdown, qc_queue stopped_conf)"
    by (simp add: stopped_conf_def q_Get_def tq_Get_def tq_ShutDown_def NewTyped_def)
  from shutdown_drains_lanes [OF evs this] show ?thesis
    by (simp add: stopped_conf_def new_conf_def newTwoLaneWorkQueue_def q_ShutDown_def)
qed

text \<open>Failures back off: the delay of the n-th retry in a row.\<close>

lemma maxOf_loop_max [simp]: "maxOf_loop r xs = fold max xs r"
proof (induction r xs rule: maxOf_loop.induct)
  case (2 ret cur cs)
  have "(if cur > ret then cur else ret) = max cur ret" by (simp add: max_def)
  then show ?case using 2 by simp
qed simp

lemma failures_of_update [simp]:
  "failures_of (AList.update k m fs) j = (if j = k then m else failures_of fs j)"
  by (simp add: failures_of_def update_conv')

lemma failures_of_delete [simp]: "failures_of (AList.delete k fs) j = (if j = k then 0 else failures_of fs j)"
  by (simp add: failures_of_def delete_conv')

fun retries :: "int list \<Rightarrow> 'k \<Rightarrow> ('k \<times> nat) list \<Rightarrow> int list \<times> ('k \<times> nat) list" where
  "retries [] k fs = ([], fs)"
| "retries (b # bs) k fs = (case default_When b k fs of (d, fs') \<Rightarrow> case retries bs k fs' of (ds, fs'') \<Rightarrow> (d # ds, fs''))"

definition backoff_spec :: "int \<Rightarrow> nat \<Rightarrow> int" where
  "backoff_spec bucket m = max (min (5000000 * 2 ^ m) 1000000000000) (max bucket 0)"

lemma default_When_spec:
  "default_When b k fs = (backoff_spec b (failures_of fs k), AList.update k (failures_of fs k + 1) fs)"
proof -
  have "(if 5000000 * 2 ^ m > (2 :: int) ^ 63 then 1000000000000
      else if 5000000 * 2 ^ m > (1000000000000 :: int) then 1000000000000 else 5000000 * 2 ^ m) = min (5000000 * 2 ^ m) (1000000000000 :: int)" for m :: nat
    by (auto simp: min_def)
  then show ?thesis
    by (simp add: default_When_def item_When_def Let_def backoff_spec_def max.commute max.left_commute)
qed

lemma retries_spec:
  "retries bs k fs = (map (\<lambda>i. backoff_spec (bs ! i) (failures_of fs k + i)) [0..<length bs], snd (retries bs k fs)) \<and>
   (\<forall>j. failures_of (snd (retries bs k fs)) j = (if j = k then failures_of fs k + length bs else failures_of fs j))"
proof (induction bs arbitrary: fs)
  case (Cons b bs)
  let ?fs = "AList.update k (failures_of fs k + 1) fs"
  have r: "retries (b # bs) k fs = (backoff_spec b (failures_of fs k) # fst (retries bs k ?fs), snd (retries bs k ?fs))"
    by (simp add: default_When_spec split_beta)
  have "fst (retries bs k ?fs) = map (\<lambda>i. backoff_spec (bs ! i) (failures_of fs k + 1 + i)) [0..<length bs]"
    using Cons.IH [of ?fs] by (metis failures_of_update fst_conv)
  then show ?case using Cons.IH [of ?fs] unfolding r by (simp add: map_upt_Suc add.commute del: upt_Suc)
qed simp

text \<open>Claim C33. The i-th of consecutive failures of a key waits five milliseconds times two to the i, at most a
  thousand seconds, or what the token bucket asks when that is longer, and never less than the one before
  when the bucket is the same; the retries of one key leave the others' counts alone, and \<open>Forget\<close> starts over.\<close>

theorem retries_back_off:
  "fst (retries bs k (item_Forget k fs)) = map (\<lambda>i. max (min (5000000 * 2 ^ i) 1000000000000) (max (bs ! i) 0)) [0..<length bs] \<and>
   failures_of (snd (retries bs k fs)) j = (if j = k then failures_of fs k + length bs else failures_of fs j)"
proof
  show "fst (retries bs k (item_Forget k fs)) = map (\<lambda>i. max (min (5000000 * 2 ^ i) 1000000000000) (max (bs ! i) 0)) [0..<length bs]"
    using retries_spec [of bs k "item_Forget k fs"] by (metis (no_types, lifting) add_0 backoff_spec_def failures_of_delete fst_conv item_Forget_def map_cong)
  show "failures_of (snd (retries bs k fs)) j = (if j = k then failures_of fs k + length bs else failures_of fs j)"
    using retries_spec [of bs k fs] by blast
qed

end
