(* ===== verification/Informer_Factory.thy ===== *)
theory Informer_Factory
  imports Go_Prelude
begin

text \<open>
  The generated informers of \<^verbatim>\<open>pkg/client/informers/externalversions\<close> (factory.go, generic.go and the
  operator group) and the injection code that builds factories
  (\<^verbatim>\<open>pkg/client/injection/informers\<close>). A factory keeps one informer per type, starts each of them in
  one goroutine and can be shut down. The calls hold the factory's mutex, so they interleave as atomic
  steps (\<open>fac_step\<close>) with the ends of the goroutines and the waiting of \<^verbatim>\<open>Shutdown\<close>. Theorems: no
  informer runs twice and the wait group never goes negative; once a shutdown returned nothing runs
  and nothing starts; every way to ask for the EventMesh informer gives the same one.
\<close>

section \<open>Informers\<close>

text \<open>
  A shared informer: the object (\<open>inf_id\<close>), the client it lists and watches with, the namespace and
  list options it is restricted to. \<open>'c\<close> are clients, \<open>'o\<close> list options; \<open>inf_transform\<close> names a
  transform function.
\<close>

record ('c, 'o) informer =
  inf_id :: nat
  inf_client :: 'c
  inf_namespace :: string
  inf_tweak :: "('o \<Rightarrow> 'o) option"
  inf_resync :: int
  inf_indexers :: "string list"
  inf_transform :: "nat option"

definition tweaked :: "('o \<Rightarrow> 'o) option \<Rightarrow> 'o \<Rightarrow> 'o" where
  "tweaked tweakListOptions options = (case tweakListOptions of None \<Rightarrow> options | Some f \<Rightarrow> f options)"

text \<open>The four functions of the informer's \<^verbatim>\<open>ListWatch\<close> over the client's operations.\<close>

definition ListFunc :: "('c \<Rightarrow> string \<Rightarrow> 'o \<Rightarrow> 'r) \<Rightarrow> ('c, 'o) informer \<Rightarrow> 'o \<Rightarrow> 'r" where
  "ListFunc list_op sii options = list_op (inf_client sii) (inf_namespace sii) (tweaked (inf_tweak sii) options)"

definition WatchFunc :: "('c \<Rightarrow> string \<Rightarrow> 'o \<Rightarrow> 'r) \<Rightarrow> ('c, 'o) informer \<Rightarrow> 'o \<Rightarrow> 'r" where
  "WatchFunc watch_op sii options = watch_op (inf_client sii) (inf_namespace sii) (tweaked (inf_tweak sii) options)"

type_synonym ('c, 'o) new_informer_func = "'c \<Rightarrow> int \<Rightarrow> nat \<Rightarrow> ('c, 'o) informer"

definition NewFilteredEventMeshInformer ::
    "'c \<Rightarrow> string \<Rightarrow> int \<Rightarrow> string list \<Rightarrow> ('o \<Rightarrow> 'o) option \<Rightarrow> nat \<Rightarrow> ('c, 'o) informer" where
  "NewFilteredEventMeshInformer client namespace resyncPeriod indexers tweakListOptions obj =
     \<lparr>inf_id = obj, inf_client = client, inf_namespace = namespace, inf_tweak = tweakListOptions,
      inf_resync = resyncPeriod, inf_indexers = indexers, inf_transform = None\<rparr>"

definition NewEventMeshInformer :: "'c \<Rightarrow> string \<Rightarrow> int \<Rightarrow> string list \<Rightarrow> nat \<Rightarrow> ('c, 'o) informer" where
  "NewEventMeshInformer client namespace resyncPeriod indexers obj =
     NewFilteredEventMeshInformer client namespace resyncPeriod indexers None obj"

section \<open>The factory\<close>

text \<open>
  Maps are association lists in the order in which a \<^verbatim>\<open>range\<close> loop visits them; \<open>f_objects\<close> counts the
  informer objects created.
\<close>

record ('c, 'o) factory =
  f_client :: 'c
  f_namespace :: string
  f_tweak :: "('o \<Rightarrow> 'o) option"
  f_defaultResync :: int
  f_customResync :: "(string \<times> int) list"
  f_transform :: "nat option"
  f_informers :: "(string \<times> ('c, 'o) informer) list"
  f_started :: "(string \<times> bool) list"
  f_wg :: nat
  f_shuttingDown :: bool
  f_objects :: nat

definition WithCustomResyncConfig :: "(string \<times> int) list \<Rightarrow> ('c, 'o) factory \<Rightarrow> ('c, 'o) factory" where
  "WithCustomResyncConfig resyncConfig f = f\<lparr>f_customResync := fold (\<lambda>(k, v). AList.update k v) resyncConfig (f_customResync f)\<rparr>"

definition WithTweakListOptions :: "('o \<Rightarrow> 'o) option \<Rightarrow> ('c, 'o) factory \<Rightarrow> ('c, 'o) factory" where
  "WithTweakListOptions tweakListOptions f = f\<lparr>f_tweak := tweakListOptions\<rparr>"

definition WithNamespace :: "string \<Rightarrow> ('c, 'o) factory \<Rightarrow> ('c, 'o) factory" where
  "WithNamespace namespace f = f\<lparr>f_namespace := namespace\<rparr>"

definition WithTransform :: "nat option \<Rightarrow> ('c, 'o) factory \<Rightarrow> ('c, 'o) factory" where
  "WithTransform transform f = f\<lparr>f_transform := transform\<rparr>"

definition NewSharedInformerFactoryWithOptions ::
    "'c \<Rightarrow> int \<Rightarrow> (('c, 'o) factory \<Rightarrow> ('c, 'o) factory) list \<Rightarrow> ('c, 'o) factory" where
  "NewSharedInformerFactoryWithOptions client defaultResync options = fold (\<lambda>opt f. opt f) options
     \<lparr>f_client = client, f_namespace = '''', f_tweak = None, f_defaultResync = defaultResync, f_customResync = [],
      f_transform = None, f_informers = [], f_started = [], f_wg = 0, f_shuttingDown = False, f_objects = 0\<rparr>"

definition NewSharedInformerFactory :: "'c \<Rightarrow> int \<Rightarrow> ('c, 'o) factory" where
  "NewSharedInformerFactory client defaultResync = NewSharedInformerFactoryWithOptions client defaultResync []"

definition NewFilteredSharedInformerFactory :: "'c \<Rightarrow> int \<Rightarrow> string \<Rightarrow> ('o \<Rightarrow> 'o) option \<Rightarrow> ('c, 'o) factory" where
  "NewFilteredSharedInformerFactory client defaultResync namespace tweakListOptions =
     NewSharedInformerFactoryWithOptions client defaultResync [WithNamespace namespace, WithTweakListOptions tweakListOptions]"

text \<open>\<^verbatim>\<open>f.startedInformers[informerType]\<close>, false when absent.\<close>

definition is_started :: "('c, 'o) factory \<Rightarrow> string \<Rightarrow> bool" where
  "is_started f ty = (map_of (f_started f) ty = Some True)"

fun start_loop :: "(string \<times> ('c, 'o) informer) list \<Rightarrow> ('c, 'o) factory \<Rightarrow> (string \<times> ('c, 'o) informer) list \<times> ('c, 'o) factory" where
  "start_loop [] f = ([], f)"
| "start_loop ((ty, sii) # infs) f =
     (if \<not> is_started f ty then
        (let f1 = f\<lparr>f_wg := Suc (f_wg f), f_started := AList.update ty True (f_started f)\<rparr>;
             (spawned, f2) = start_loop infs f1
         in ((ty, sii) # spawned, f2))
      else start_loop infs f)"

text \<open>\<^verbatim>\<open>Start\<close> returns the informers it starts a goroutine for.\<close>

definition Start :: "('c, 'o) factory \<Rightarrow> (string \<times> ('c, 'o) informer) list \<times> ('c, 'o) factory" where
  "Start f = (if f_shuttingDown f then ([], f) else start_loop (f_informers f) f)"

text \<open>The deferred \<^verbatim>\<open>f.wg.Done()\<close> of a goroutine.\<close>

definition wg_Done :: "('c, 'o) factory \<Rightarrow> ('c, 'o) factory res" where
  "wg_Done f = (if f_wg f = 0 then Panic ''sync: negative WaitGroup counter'' else Ok (f\<lparr>f_wg := f_wg f - 1\<rparr>))"

text \<open>\<^verbatim>\<open>Shutdown\<close> up to its wait, and whether the wait is over.\<close>

definition Shutdown_begin :: "('c, 'o) factory \<Rightarrow> ('c, 'o) factory" where
  "Shutdown_begin f = f\<lparr>f_shuttingDown := True\<rparr>"

definition wg_Wait_over :: "('c, 'o) factory \<Rightarrow> bool" where
  "wg_Wait_over f \<longleftrightarrow> f_wg f = 0"

text \<open>\<open>synced\<close> is \<^verbatim>\<open>cache.WaitForCacheSync\<close> for the stop channel given.\<close>

definition WaitForCacheSync :: "(('c, 'o) informer \<Rightarrow> bool) \<Rightarrow> ('c, 'o) factory \<Rightarrow> (string \<times> bool) list" where
  "WaitForCacheSync synced f =
     map (\<lambda>(ty, sii). (ty, synced sii)) (filter (\<lambda>(ty, sii). is_started f ty) (f_informers f))"

definition InformerFor ::
    "string \<Rightarrow> ('c, 'o) new_informer_func \<Rightarrow> ('c, 'o) factory \<Rightarrow> ('c, 'o) informer \<times> ('c, 'o) factory" where
  "InformerFor informerType newFunc f = (case map_of (f_informers f) informerType of
       Some sii \<Rightarrow> (sii, f)
     | None \<Rightarrow>
         (let resyncPeriod = (case map_of (f_customResync f) informerType of Some d \<Rightarrow> d | None \<Rightarrow> f_defaultResync f);
              sii = (newFunc (f_client f) resyncPeriod (f_objects f))\<lparr>inf_transform := f_transform f\<rparr>
          in (sii, f\<lparr>f_informers := f_informers f @ [(informerType, sii)], f_objects := Suc (f_objects f)\<rparr>)))"

section \<open>Groups, versions and resources\<close>

text \<open>\<^verbatim>\<open>group\<close>, \<^verbatim>\<open>version\<close> and \<^verbatim>\<open>eventMeshInformer\<close> carry the same three values; the factory is the state.\<close>

record 'o scope =
  sc_namespace :: string
  sc_tweak :: "('o \<Rightarrow> 'o) option"

definition New_group :: "string \<Rightarrow> ('o \<Rightarrow> 'o) option \<Rightarrow> 'o scope" where
  "New_group namespace tweakListOptions = \<lparr>sc_namespace = namespace, sc_tweak = tweakListOptions\<rparr>"

definition New_version :: "string \<Rightarrow> ('o \<Rightarrow> 'o) option \<Rightarrow> 'o scope" where
  "New_version namespace tweakListOptions = \<lparr>sc_namespace = namespace, sc_tweak = tweakListOptions\<rparr>"

definition Operator_group :: "('c, 'o) factory \<Rightarrow> 'o scope" where
  "Operator_group f = New_group (f_namespace f) (f_tweak f)"

definition V1alpha1 :: "'o scope \<Rightarrow> 'o scope" where
  "V1alpha1 g = New_version (sc_namespace g) (sc_tweak g)"

definition EventMeshes :: "'o scope \<Rightarrow> 'o scope" where
  "EventMeshes v = \<lparr>sc_namespace = sc_namespace v, sc_tweak = sc_tweak v\<rparr>"

definition EventMesh_go_type :: string where
  "EventMesh_go_type = ''*v1alpha1.EventMesh''"

definition defaultInformer :: "'o scope \<Rightarrow> ('c, 'o) new_informer_func" where
  "defaultInformer s client resyncPeriod obj =
     NewFilteredEventMeshInformer client (sc_namespace s) resyncPeriod [''namespace''] (sc_tweak s) obj"

definition Informer :: "'o scope \<Rightarrow> ('c, 'o) factory \<Rightarrow> ('c, 'o) informer \<times> ('c, 'o) factory" where
  "Informer s f = InformerFor EventMesh_go_type (defaultInformer s) f"

text \<open>The lister reads the informer's indexer: it is represented by the informer it reads.\<close>

definition Lister :: "'o scope \<Rightarrow> ('c, 'o) factory \<Rightarrow> ('c, 'o) informer \<times> ('c, 'o) factory" where
  "Lister s f = Informer s f"

record gvr =
  gvr_Group :: string
  gvr_Version :: string
  gvr_Resource :: string

definition gvr_String :: "gvr \<Rightarrow> string" where
  "gvr_String r = gvr_Group r @ ''/'' @ gvr_Version r @ '', Resource='' @ gvr_Resource r"

record ('c, 'o) generic_informer =
  gi_resource :: "string \<times> string"
  gi_informer :: "('c, 'o) informer"

definition ForResource :: "gvr \<Rightarrow> ('c, 'o) factory \<Rightarrow> ('c, 'o) generic_informer res \<times> ('c, 'o) factory" where
  "ForResource resource f =
     (if resource = \<lparr>gvr_Group = ''operator.knative.dev'', gvr_Version = ''v1alpha1'', gvr_Resource = ''eventmeshes''\<rparr> then
        (case Informer (EventMeshes (V1alpha1 (Operator_group f))) f of
           (sii, f') \<Rightarrow> (Ok \<lparr>gi_resource = (gvr_Group resource, gvr_Resource resource), gi_informer = sii\<rparr>, f'))
      else (Err (ErrMsg (''no informer found for '' @ gvr_String resource)), f))"

section \<open>Injection\<close>

text \<open>
  A context with the values the injection packages put into it: the client, whether there is a REST
  configuration, the namespace scope, the selectors, the factories and the typed informers (plain and by
  selector).
\<close>

record ('c, 'o) inj_context =
  ic_client :: "'c option"
  ic_config :: bool
  ic_resync :: int
  ic_scope :: "string option"
  ic_selectors :: "string list option"
  ic_factory :: "('c, 'o) factory option"
  ic_filtered :: "(string \<times> ('c, 'o) factory) list"
  ic_informer :: "'o scope option"
  ic_filtered_informers :: "(string \<times> 'o scope) list"

definition client_Get :: "('c, 'o) inj_context \<Rightarrow> 'c res" where
  "client_Get ctx = (case ic_client ctx of
       None \<Rightarrow> if \<not> ic_config ctx
         then Panic ''Unable to fetch versioned.Interface from context. This context is not the application context (which is typically given to constructors via sharedmain).''
         else Panic ''Unable to fetch versioned.Interface from context.''
     | Some c \<Rightarrow> Ok c)"

text \<open>\<^verbatim>\<open>withClientFromConfig\<close>, given the outcome of \<^verbatim>\<open>NewForConfigOrDie\<close>.\<close>

definition withClientFromConfig :: "'c res \<Rightarrow> ('c, 'o) inj_context \<Rightarrow> ('c, 'o) inj_context res" where
  "withClientFromConfig created ctx = bind_res created (\<lambda>c. Ok (ctx\<lparr>ic_client := Some c\<rparr>))"

definition scope_options :: "('c, 'o) inj_context \<Rightarrow> (('c, 'o) factory \<Rightarrow> ('c, 'o) factory) list" where
  "scope_options ctx = (case ic_scope ctx of None \<Rightarrow> [] | Some ns \<Rightarrow> [WithNamespace ns])"

definition withInformerFactory :: "('c, 'o) inj_context \<Rightarrow> ('c, 'o) inj_context res" where
  "withInformerFactory ctx = bind_res (client_Get ctx) (\<lambda>c.
     Ok (ctx\<lparr>ic_factory := Some (NewSharedInformerFactoryWithOptions c (ic_resync ctx) (scope_options ctx))\<rparr>))"

definition factory_Get :: "('c, 'o) inj_context \<Rightarrow> ('c, 'o) factory res" where
  "factory_Get ctx = (case ic_factory ctx of
       None \<Rightarrow> Panic ''Unable to fetch SharedInformerFactory from context.''
     | Some f \<Rightarrow> Ok f)"

definition WithSelectors :: "string list \<Rightarrow> ('c, 'o) inj_context \<Rightarrow> ('c, 'o) inj_context" where
  "WithSelectors selectors ctx = ctx\<lparr>ic_selectors := Some selectors\<rparr>"

text \<open>\<open>set_selector s\<close> sets the label selector of list options.\<close>

fun filtered_loop :: "(string \<Rightarrow> 'o \<Rightarrow> 'o) \<Rightarrow> 'c \<Rightarrow> string list \<Rightarrow> ('c, 'o) inj_context \<Rightarrow> ('c, 'o) inj_context" where
  "filtered_loop set_selector c [] ctx = ctx"
| "filtered_loop set_selector c (selector # selectors) ctx =
     filtered_loop set_selector c selectors
       (ctx\<lparr>ic_filtered := AList.update selector
          (NewSharedInformerFactoryWithOptions c (ic_resync ctx)
             (scope_options ctx @ [WithTweakListOptions (Some (set_selector selector))])) (ic_filtered ctx)\<rparr>)"

definition withFilteredInformerFactory :: "(string \<Rightarrow> 'o \<Rightarrow> 'o) \<Rightarrow> ('c, 'o) inj_context \<Rightarrow> ('c, 'o) inj_context res" where
  "withFilteredInformerFactory set_selector ctx = bind_res (client_Get ctx) (\<lambda>c. (case ic_selectors ctx of
       None \<Rightarrow> Panic ''Unable to fetch labelkey from context.''
     | Some selectors \<Rightarrow> Ok (filtered_loop set_selector c selectors ctx)))"

definition filtered_Get :: "string \<Rightarrow> ('c, 'o) inj_context \<Rightarrow> ('c, 'o) factory res" where
  "filtered_Get selector ctx = (case map_of (ic_filtered ctx) selector of
       None \<Rightarrow> Panic (''Unable to fetch SharedInformerFactory with selector '' @ selector @ '' from context.'')
     | Some f \<Rightarrow> Ok f)"

text \<open>The typed informer registers itself with its factory when it is put into the context.\<close>

definition withInformer :: "('c, 'o) inj_context \<Rightarrow> (('c, 'o) informer \<times> ('c, 'o) inj_context) res" where
  "withInformer ctx = bind_res (factory_Get ctx) (\<lambda>f.
     (let emi = EventMeshes (V1alpha1 (Operator_group f)) in
      case Informer emi f of (i, f') \<Rightarrow> Ok (i, ctx\<lparr>ic_informer := Some emi, ic_factory := Some f'\<rparr>)))"

definition informer_Get :: "('c, 'o) inj_context \<Rightarrow> 'o scope res" where
  "informer_Get ctx = (case ic_informer ctx of
       None \<Rightarrow> Panic ''Unable to fetch EventMeshInformer from context.''
     | Some emi \<Rightarrow> Ok emi)"

fun filtered_informer_loop :: "string list \<Rightarrow> ('c, 'o) inj_context \<Rightarrow> (('c, 'o) informer list \<times> ('c, 'o) inj_context) res" where
  "filtered_informer_loop [] ctx = Ok ([], ctx)"
| "filtered_informer_loop (selector # selectors) ctx = bind_res (filtered_Get selector ctx) (\<lambda>f.
     (let emi = EventMeshes (V1alpha1 (Operator_group f)) in
      case Informer emi f of (i, f') \<Rightarrow>
        bind_res (filtered_informer_loop selectors
            (ctx\<lparr>ic_filtered_informers := AList.update selector emi (ic_filtered_informers ctx),
                 ic_filtered := AList.update selector f' (ic_filtered ctx)\<rparr>))
          (\<lambda>(infs, ctx'). Ok (i # infs, ctx'))))"

definition withFilteredInformer :: "('c, 'o) inj_context \<Rightarrow> (('c, 'o) informer list \<times> ('c, 'o) inj_context) res" where
  "withFilteredInformer ctx = (case ic_selectors ctx of
       None \<Rightarrow> Panic ''Unable to fetch labelkey from context.''
     | Some selectors \<Rightarrow> filtered_informer_loop selectors ctx)"

definition filtered_informer_Get :: "string \<Rightarrow> ('c, 'o) inj_context \<Rightarrow> 'o scope res" where
  "filtered_informer_Get selector ctx = (case map_of (ic_filtered_informers ctx) selector of
       None \<Rightarrow> Panic (''Unable to fetch EventMeshInformer with selector '' @ selector @ '' from context.'')
     | Some emi \<Rightarrow> Ok emi)"


section \<open>Interleaved use\<close>

text \<open>
  A factory in use: the goroutines that run an informer, the informers that were ever run, how many
  calls of \<^verbatim>\<open>Shutdown\<close> wait, and whether one has returned.
\<close>

record ('c, 'o) fac_conf =
  fc_factory :: "('c, 'o) factory"
  fc_running :: "string list"
  fc_ran :: "string list"
  fc_waiting :: nat
  fc_returned :: bool

inductive fac_step :: "('c, 'o) fac_conf \<Rightarrow> ('c, 'o) fac_conf \<Rightarrow> bool" where
  informer_for: "InformerFor ty newFunc (fc_factory c) = (sii, f) \<Longrightarrow> fac_step c (c\<lparr>fc_factory := f\<rparr>)"
| start: "Start (fc_factory c) = (spawned, f) \<Longrightarrow>
    fac_step c (c\<lparr>fc_factory := f, fc_running := fc_running c @ map fst spawned, fc_ran := fc_ran c @ map fst spawned\<rparr>)"
| run_ends: "ty \<in> set (fc_running c) \<Longrightarrow> wg_Done (fc_factory c) = Ok f \<Longrightarrow>
    fac_step c (c\<lparr>fc_factory := f, fc_running := remove1 ty (fc_running c)\<rparr>)"
| shutdown: "fac_step c (c\<lparr>fc_factory := Shutdown_begin (fc_factory c), fc_waiting := Suc (fc_waiting c)\<rparr>)"
| shutdown_returns: "0 < fc_waiting c \<Longrightarrow> wg_Wait_over (fc_factory c) \<Longrightarrow>
    fac_step c (c\<lparr>fc_waiting := fc_waiting c - 1, fc_returned := True\<rparr>)"

inductive_cases fac_stepE: "fac_step c c'"

definition fac_init :: "('c, 'o) factory \<Rightarrow> ('c, 'o) fac_conf" where
  "fac_init f = \<lparr>fc_factory = f, fc_running = [], fc_ran = [], fc_waiting = 0, fc_returned = False\<rparr>"

text \<open>
  What holds of a factory in use: one informer per type, all with different objects; the started ones
  are those that ran; the wait group counts the running goroutines; a waiting or returned shutdown
  has marked the factory, and after one returned nothing runs.
\<close>

definition fac_inv :: "('c, 'o) fac_conf \<Rightarrow> bool" where
  "fac_inv c \<longleftrightarrow> distinct (map fst (f_informers (fc_factory c))) \<and>
     distinct (fc_ran c) \<and> (\<forall>ty. is_started (fc_factory c) ty \<longleftrightarrow> ty \<in> set (fc_ran c)) \<and>
     set (fc_ran c) \<subseteq> set (map fst (f_informers (fc_factory c))) \<and>
     distinct (fc_running c) \<and> set (fc_running c) \<subseteq> set (fc_ran c) \<and>
     f_wg (fc_factory c) = length (fc_running c) \<and>
     (0 < fc_waiting c \<or> fc_returned c \<longrightarrow> f_shuttingDown (fc_factory c)) \<and>
     (fc_returned c \<longrightarrow> fc_running c = [])"

lemma is_started_update [simp]:
  "is_started (f\<lparr>f_wg := n, f_started := AList.update ty True (f_started f)\<rparr>) ty' \<longleftrightarrow> ty' = ty \<or> is_started f ty'"
  by (simp add: is_started_def map_of_update)

lemma start_loop_effect:
  "distinct (map fst sis) \<Longrightarrow> start_loop sis f = (spawned, f') \<Longrightarrow>
     spawned = filter (\<lambda>(ty, sii). \<not> is_started f ty) sis \<and>
     f_wg f' = f_wg f + length spawned \<and> f_informers f' = f_informers f \<and> f_shuttingDown f' = f_shuttingDown f \<and>
     (\<forall>ty. is_started f' ty \<longleftrightarrow> is_started f ty \<or> ty \<in> set (map fst sis))"
proof (induction sis arbitrary: f spawned f')
  case (Cons x sis)
  obtain ty sii where x: "x = (ty, sii)" by fastforce
  show ?case
  proof (cases "is_started f ty")
    case True
    with Cons x show ?thesis by fastforce
  next
    case False
    let ?f1 = "f\<lparr>f_wg := Suc (f_wg f), f_started := AList.update ty True (f_started f)\<rparr>"
    obtain sp where sp: "start_loop sis ?f1 = (sp, f')" "spawned = (ty, sii) # sp"
      using Cons.prems(2) False x by (auto split: prod.splits)
    have "filter (\<lambda>(ty', sii). \<not> is_started ?f1 ty') sis = filter (\<lambda>(ty', sii). \<not> is_started f ty') sis"
      using Cons.prems(1) x by (intro filter_cong) (force split: prod.splits)+
    with Cons.IH [OF _ sp(1)] Cons.prems(1) False x sp(2) show ?thesis by auto
  qed
qed simp

lemma fac_step_inv:
  assumes "fac_step c c'" "fac_inv c"
  shows "fac_inv c'"
  using assms
proof (induction rule: fac_step.induct)
  case (informer_for ty newFunc c sii f)
  then show ?case
    by (auto simp: fac_inv_def InformerFor_def Let_def is_started_def map_of_eq_None_iff split: option.splits)
next
  case (start c spawned f)
  show ?case
  proof (cases "f_shuttingDown (fc_factory c)")
    case False
    let ?f = "fc_factory c"
    have s: "start_loop (f_informers ?f) ?f = (spawned, f)" and d: "distinct (map fst (f_informers ?f))"
      using start False by (simp_all add: Start_def fac_inv_def)
    note e = start_loop_effect [OF d s]
    have m: "set (map fst spawned) = {ty \<in> set (map fst (f_informers ?f)). \<not> is_started ?f ty}"
      using e by force
    have "distinct (map fst spawned)"
      using d e by (auto simp: distinct_map filter_map intro: inj_on_subset)
    with start(2) e m False show ?thesis by (auto simp: fac_inv_def)
  qed (use start in \<open>auto simp: Start_def fac_inv_def\<close>)
next
  case (run_ends ty c f)
  then show ?case
    by (auto simp: fac_inv_def wg_Done_def is_started_def length_remove1 notin_set_remove1 split: if_splits
        dest: set_remove1_subset [THEN subsetD])
next
  case (shutdown c)
  then show ?case by (auto simp: fac_inv_def Shutdown_begin_def is_started_def)
next
  case (shutdown_returns c)
  then show ?case by (auto simp: fac_inv_def wg_Wait_over_def)
qed


lemma fac_reachable_inv:
  assumes "fac_step\<^sup>*\<^sup>* c c'" "fac_inv c"
  shows "fac_inv c'"
  using assms by (induction rule: rtranclp_induct) (auto intro: fac_step_inv)

text \<open>The options of a factory only configure it.\<close>

definition factory_options :: "(('c, 'o) factory \<Rightarrow> ('c, 'o) factory) set" where
  "factory_options = range WithCustomResyncConfig \<union> range WithTweakListOptions \<union> range WithNamespace \<union> range WithTransform"

definition fresh_factory :: "('c, 'o) factory \<Rightarrow> bool" where
  "fresh_factory f \<longleftrightarrow> f_informers f = [] \<and> f_started f = [] \<and> f_wg f = 0 \<and> \<not> f_shuttingDown f"

lemma fold_options_fresh: "set opts \<subseteq> factory_options \<Longrightarrow> fresh_factory f \<Longrightarrow> fresh_factory (fold (\<lambda>opt f. opt f) opts f)"
  by (induction opts arbitrary: f)
    (auto simp: factory_options_def fresh_factory_def WithCustomResyncConfig_def WithTweakListOptions_def
      WithNamespace_def WithTransform_def)

lemma New_factory_fresh: "set opts \<subseteq> factory_options \<Longrightarrow> fresh_factory (NewSharedInformerFactoryWithOptions client d opts)"
  unfolding NewSharedInformerFactoryWithOptions_def by (rule fold_options_fresh) (simp_all add: fresh_factory_def)

lemma fac_init_inv: "fresh_factory f \<Longrightarrow> fac_inv (fac_init f)"
  by (simp add: fac_inv_def fac_init_def fresh_factory_def is_started_def)

lemmas used_factory_inv = fac_reachable_inv [OF _ fac_init_inv [OF New_factory_fresh]]

text \<open>
  Claim C14. However calls and goroutines interleave, a factory runs no informer twice, its wait group counts
  exactly the goroutines that run, and so the \<^verbatim>\<open>Done\<close> of a goroutine never takes the counter below
  zero, which would panic.
\<close>

theorem factory_runs_once:
  assumes opts: "set opts \<subseteq> factory_options"
    and steps: "fac_step\<^sup>*\<^sup>* (fac_init (NewSharedInformerFactoryWithOptions client d opts)) c"
  shows "distinct (fc_ran c) \<and> f_wg (fc_factory c) = length (fc_running c) \<and> distinct (fc_running c) \<and>
    (fc_running c = [] \<or> (\<exists>f. wg_Done (fc_factory c) = Ok f))"
  using used_factory_inv [OF steps opts] by (auto simp: fac_inv_def wg_Done_def)

lemma returned_step: "fac_step c c' \<Longrightarrow> fc_returned c \<Longrightarrow> fc_returned c'"
  by (auto elim: fac_stepE)

text \<open>
  Claim C22. A shutdown is final: once a call of \<^verbatim>\<open>Shutdown\<close> has returned, no goroutine runs and no later \<^verbatim>\<open>Start\<close>
  starts one, whatever is called in between.
\<close>

theorem shutdown_final:
  assumes opts: "set opts \<subseteq> factory_options"
    and steps: "fac_step\<^sup>*\<^sup>* (fac_init (NewSharedInformerFactoryWithOptions client d opts)) c"
    and "fc_returned c" and later: "fac_step\<^sup>*\<^sup>* c c'"
  shows "fc_running c' = [] \<and> fst (Start (fc_factory c')) = []"
proof -
  have "fc_returned c'"
    using later assms(3) by (induction rule: rtranclp_induct) (auto intro: returned_step)
  moreover have "fac_inv c'" by (rule fac_reachable_inv [OF later used_factory_inv [OF steps opts]])
  ultimately show ?thesis by (auto simp: fac_inv_def Start_def)
qed

lemma shutdown_progress_run:
  "fac_inv c \<Longrightarrow> 0 < fc_waiting c \<Longrightarrow>
     \<exists>c'. fac_step\<^sup>*\<^sup>* c c' \<and> fc_waiting c' = fc_waiting c - 1 \<and> fc_returned c'"
proof (induction "length (fc_running c)" arbitrary: c)
  case 0
  then have "fac_step c (c\<lparr>fc_waiting := fc_waiting c - 1, fc_returned := True\<rparr>)"
    by (intro fac_step.shutdown_returns) (simp_all add: wg_Wait_over_def fac_inv_def)
  then show ?case by (intro exI [of _ "c\<lparr>fc_waiting := fc_waiting c - 1, fc_returned := True\<rparr>"]) auto
next
  case (Suc n)
  obtain ty rest where ty: "fc_running c = ty # rest" using Suc.hyps(2) by (cases "fc_running c") auto
  define c1 where "c1 = c\<lparr>fc_factory := (fc_factory c)\<lparr>f_wg := f_wg (fc_factory c) - 1\<rparr>, fc_running := remove1 ty (fc_running c)\<rparr>"
  have st: "fac_step c c1" unfolding c1_def
    by (rule fac_step.run_ends) (use ty Suc.prems(1) in \<open>auto simp: wg_Done_def fac_inv_def\<close>)
  have "n = length (fc_running c1)" using ty Suc.hyps(2) by (simp add: c1_def)
  from Suc.hyps(1) [OF this fac_step_inv [OF st Suc.prems(1)]] Suc.prems(2) obtain c' where
    "fac_step\<^sup>*\<^sup>* c1 c'" "fc_waiting c' = fc_waiting c - 1" "fc_returned c'" by (auto simp: c1_def)
  with st show ?case by (blast intro: converse_rtranclp_into_rtranclp)
qed

text \<open>
  A shutdown can return: from every state in which a call of \<^verbatim>\<open>Shutdown\<close> waits, the ends of the
  goroutines that still run lead to a state in which it returns.
\<close>

theorem shutdown_can_return:
  assumes opts: "set opts \<subseteq> factory_options"
    and steps: "fac_step\<^sup>*\<^sup>* (fac_init (NewSharedInformerFactoryWithOptions client d opts)) c"
    and "0 < fc_waiting c"
  shows "\<exists>c'. fac_step\<^sup>*\<^sup>* c c' \<and> fc_waiting c' = fc_waiting c - 1 \<and> fc_returned c'"
  by (rule shutdown_progress_run [OF used_factory_inv [OF steps opts] assms(3)])

section \<open>Sharing\<close>

text \<open>
  The interface the generated informers use of a factory: an informer, once handed out for a type, is
  handed out for it again, whatever other informers were asked for.
\<close>

locale informer_provider =
  fixes informer_for :: "string \<Rightarrow> 'n \<Rightarrow> 's \<Rightarrow> 'i \<times> 's" and known :: "'s \<Rightarrow> string \<Rightarrow> 'i option"
  assumes handed_out: "informer_for ty n s = (i, s') \<Longrightarrow> known s' ty = Some i"
    and kept: "known s ty = Some i \<Longrightarrow> informer_for ty' n s = (j, s') \<Longrightarrow> known s' ty = Some i"
    and again: "known s ty = Some i \<Longrightarrow> informer_for ty n s = (i, s)"
begin

lemma known_calls:
  "known s ty = Some i \<Longrightarrow> known (fold (\<lambda>(ty', n) s. snd (informer_for ty' n s)) calls s) ty = Some i"
proof (induction calls arbitrary: s)
  case (Cons x calls)
  obtain ty' n where x: "x = (ty', n)" by fastforce
  obtain j s' where "informer_for ty' n s = (j, s')" by fastforce
  with Cons x kept [OF Cons.prems] show ?case by simp
qed simp

lemma same_informer:
  assumes "informer_for ty n s = (i, s')"
  shows "fst (informer_for ty n' (fold (\<lambda>(ty', n) s. snd (informer_for ty' n s)) calls s')) = i"
  using again [OF known_calls [OF handed_out [OF assms]]] by simp

end

interpretation shared: informer_provider InformerFor "\<lambda>f. map_of (f_informers f)"
  by unfold_locales (auto simp: InformerFor_def Let_def map_add_def split: option.splits if_splits)

lemma fac_step_known:
  assumes "fac_step c c'" "map_of (f_informers (fc_factory c)) ty = Some i" "fac_inv c"
  shows "map_of (f_informers (fc_factory c')) ty = Some i"
  using assms
proof (induction rule: fac_step.induct)
  case (informer_for ty' newFunc c sii f)
  then show ?case using shared.kept by fastforce
next
  case (start c spawned f)
  then show ?case
    using start_loop_effect [of "f_informers (fc_factory c)" "fc_factory c" spawned f]
    by (auto simp: Start_def fac_inv_def split: if_splits)
qed (auto simp: wg_Done_def Shutdown_begin_def split: if_splits)


definition eventmeshes_gvr :: gvr where
  "eventmeshes_gvr = \<lparr>gvr_Group = ''operator.knative.dev'', gvr_Version = ''v1alpha1'', gvr_Resource = ''eventmeshes''\<rparr>"

text \<open>
  Claim C29. All ways to the EventMesh informer lead to one object: once the typed accessor of a factory has
  handed it out, every later request, typed or by resource name, after any further use of the
  factory, returns that informer and changes nothing.
\<close>

theorem EventMesh_informer_shared:
  assumes opts: "set opts \<subseteq> factory_options"
    and steps: "fac_step\<^sup>*\<^sup>* (fac_init (NewSharedInformerFactoryWithOptions client d opts)) c"
    and first: "Informer (EventMeshes (V1alpha1 (Operator_group (fc_factory c)))) (fc_factory c) = (i, f1)"
    and later: "fac_step\<^sup>*\<^sup>* (c\<lparr>fc_factory := f1\<rparr>) c'"
  shows "Informer s (fc_factory c') = (i, fc_factory c') \<and>
    ForResource eventmeshes_gvr (fc_factory c') =
      (Ok \<lparr>gi_resource = (''operator.knative.dev'', ''eventmeshes''), gi_informer = i\<rparr>, fc_factory c')"
proof -
  have one: "fac_step c (c\<lparr>fc_factory := f1\<rparr>)"
    using first by (auto simp: Informer_def intro: fac_step.informer_for)
  have inv: "fac_inv (c\<lparr>fc_factory := f1\<rparr>)" by (rule fac_step_inv [OF one used_factory_inv [OF steps opts]])
  have "map_of (f_informers f1) EventMesh_go_type = Some i"
    using shared.handed_out first by (simp add: Informer_def)
  then have "map_of (f_informers (fc_factory (c\<lparr>fc_factory := f1\<rparr>))) EventMesh_go_type = Some i" by simp
  with later have "map_of (f_informers (fc_factory c')) EventMesh_go_type = Some i"
  proof (induction rule: rtranclp_induct)
    case (step y z)
    then show ?case using fac_step_known fac_reachable_inv [OF step.hyps(1) inv] by blast
  qed
  from shared.again [OF this] have i: "Informer s (fc_factory c') = (i, fc_factory c')" for s
    by (simp add: Informer_def)
  then show ?thesis by (simp add: ForResource_def eventmeshes_gvr_def)
qed

section \<open>A factory at work\<close>

definition sample_factory :: "(unit, string) factory" where
  "sample_factory = NewSharedInformerFactoryWithOptions () 36000 [WithNamespace ''knative-eventing'']"

definition sample_running :: "(unit, string) fac_conf" where
  "sample_running = (case Start (snd (Informer \<lparr>sc_namespace = ''knative-eventing'', sc_tweak = None\<rparr> sample_factory)) of (sp, f) \<Rightarrow>
     \<lparr>fc_factory = f, fc_running = map fst sp, fc_ran = map fst sp, fc_waiting = 0, fc_returned = False\<rparr>)"

lemma sample_options: "set [WithNamespace ''knative-eventing''] \<subseteq> factory_options"
  by (simp add: factory_options_def)

lemma sample_running_steps: "fac_step\<^sup>*\<^sup>* (fac_init sample_factory) sample_running"
proof -
  let ?s = "\<lparr>sc_namespace = ''knative-eventing'', sc_tweak = None\<rparr>"
  let ?c1 = "(fac_init sample_factory)\<lparr>fc_factory := snd (Informer ?s sample_factory)\<rparr>"
  have "fac_step (fac_init sample_factory) ?c1"
    by (rule fac_step.informer_for [of EventMesh_go_type "defaultInformer ?s" _ "fst (Informer ?s sample_factory)"])
      (simp add: fac_init_def Informer_def)
  moreover have "fac_step ?c1 sample_running"
    using fac_step.start [of ?c1 "fst (Start (fc_factory ?c1))" "snd (Start (fc_factory ?c1))"]
    by (auto simp: sample_running_def fac_init_def split: prod.splits)
  ultimately show ?thesis by auto
qed

lemma sample_running_sel:
  "fc_ran sample_running = [EventMesh_go_type]" "fc_running sample_running = [EventMesh_go_type]" "f_wg (fc_factory sample_running) = 1"
  by code_simp+

theorem factory_runs_once_witness:
  "distinct (fc_ran sample_running) \<and> f_wg (fc_factory sample_running) = length (fc_running sample_running) \<and>
   fc_running sample_running = [EventMesh_go_type]"
  using factory_runs_once [OF sample_options sample_running_steps [unfolded sample_factory_def]] sample_running_sel by blast

definition sample_waiting :: "(unit, string) fac_conf" where
  "sample_waiting = sample_running\<lparr>fc_factory := Shutdown_begin (fc_factory sample_running), fc_waiting := 1\<rparr>"

lemma sample_waiting_steps: "fac_step\<^sup>*\<^sup>* (fac_init sample_factory) sample_waiting"
proof -
  have "fc_waiting sample_running = 0" by code_simp
  then have "fac_step sample_running sample_waiting"
    using fac_step.shutdown [of sample_running] by (simp add: sample_waiting_def)
  with sample_running_steps show ?thesis by (rule rtranclp.rtrancl_into_rtrancl)
qed

theorem shutdown_can_return_witness:
  "\<exists>c'. fac_step\<^sup>*\<^sup>* sample_waiting c' \<and> fc_waiting c' = 0 \<and> fc_returned c'"
  using shutdown_can_return [OF sample_options sample_waiting_steps [unfolded sample_factory_def]]
  by (simp add: sample_waiting_def)

theorem shutdown_final_witness:
  "\<exists>c. fac_step\<^sup>*\<^sup>* (fac_init sample_factory) c \<and> fc_returned c \<and> fc_running c = [] \<and> fst (Start (fc_factory c)) = []"
proof -
  obtain c where c: "fac_step\<^sup>*\<^sup>* sample_waiting c" "fc_returned c"
    using shutdown_progress_run [OF used_factory_inv [OF sample_waiting_steps [unfolded sample_factory_def] sample_options]]
    by (auto simp: sample_waiting_def)
  have "fac_step\<^sup>*\<^sup>* (fac_init sample_factory) c" by (rule rtranclp_trans [OF sample_waiting_steps c(1)])
  with shutdown_final [OF sample_options this [unfolded sample_factory_def] c(2) rtranclp.rtrancl_refl] c(2) show ?thesis by blast
qed

theorem EventMesh_informer_shared_witness:
  "\<exists>i f1. Informer (EventMeshes (V1alpha1 (Operator_group (fc_factory sample_running)))) (fc_factory sample_running) = (i, f1) \<and>
     inf_namespace i = ''knative-eventing'' \<and>
     ForResource eventmeshes_gvr f1 = (Ok \<lparr>gi_resource = (''operator.knative.dev'', ''eventmeshes''), gi_informer = i\<rparr>, f1)"
proof -
  let ?r = "Informer (EventMeshes (V1alpha1 (Operator_group (fc_factory sample_running)))) (fc_factory sample_running)"
  have n: "inf_namespace (fst ?r) = ''knative-eventing''" by code_simp
  have r: "?r = (fst ?r, snd ?r)" by simp
  from EventMesh_informer_shared [OF sample_options sample_running_steps [unfolded sample_factory_def] r rtranclp.rtrancl_refl] n r
  show ?thesis by (intro exI [of _ "fst ?r"] exI [of _ "snd ?r"]) simp
qed

section \<open>Filtered informers\<close>

text \<open>
  What holds of a selector while the filtered informers are set up: its factory restricts to the
  selector and the namespace scope, and so does the EventMesh informer, if it was created.
\<close>

definition restricted :: "(string \<Rightarrow> 'o \<Rightarrow> 'o) \<Rightarrow> 'c \<Rightarrow> string \<Rightarrow> ('c, 'o) inj_context \<Rightarrow> string \<Rightarrow> bool" where
  "restricted set_selector c ns ctx s \<longleftrightarrow> (\<exists>f. map_of (ic_filtered ctx) s = Some f \<and> f_client f = c \<and>
     f_namespace f = ns \<and> f_tweak f = Some (set_selector s) \<and>
     (\<forall>i. map_of (f_informers f) EventMesh_go_type = Some i \<longrightarrow>
        inf_client i = c \<and> inf_namespace i = ns \<and> inf_tweak i = Some (set_selector s)))"

definition scope_namespace :: "('c, 'o) inj_context \<Rightarrow> string" where
  "scope_namespace ctx = (case ic_scope ctx of None \<Rightarrow> '''' | Some ns \<Rightarrow> ns)"

lemma filtered_loop_restricted:
  "s \<in> set ss \<or> restricted set_selector c (scope_namespace ctx) ctx s \<Longrightarrow>
     restricted set_selector c (scope_namespace ctx) (filtered_loop set_selector c ss ctx) s"
proof (induction ss arbitrary: ctx)
  case (Cons s' ss)
  let ?ctx = "ctx\<lparr>ic_filtered := AList.update s' (NewSharedInformerFactoryWithOptions c (ic_resync ctx)
    (scope_options ctx @ [WithTweakListOptions (Some (set_selector s'))])) (ic_filtered ctx)\<rparr>"
  have ns: "scope_namespace ?ctx = scope_namespace ctx" by (simp add: scope_namespace_def)
  have "restricted set_selector c (scope_namespace ctx) ?ctx s'"
    by (simp add: restricted_def update_conv' NewSharedInformerFactoryWithOptions_def scope_options_def
        scope_namespace_def WithNamespace_def WithTweakListOptions_def split: option.split)
  moreover have "restricted set_selector c (scope_namespace ctx) ?ctx s"
    if "restricted set_selector c (scope_namespace ctx) ctx s" "s \<noteq> s'"
    using that by (simp add: restricted_def update_conv')
  ultimately have "s \<in> set ss \<or> restricted set_selector c (scope_namespace ?ctx) ?ctx s"
    using Cons.prems by (cases "s = s'") (auto simp: ns)
  from Cons.IH [OF this] show ?case by (simp add: ns)
qed simp

lemma filtered_loop_selectors [simp]: "ic_selectors (filtered_loop set_selector c ss ctx) = ic_selectors ctx"
  by (induction ss arbitrary: ctx) simp_all

lemma filtered_informer_loop_restricted:
  assumes "\<forall>s\<in>S. restricted set_selector c ns ctx s" "set ss \<subseteq> S"
    and "\<forall>s\<in>S - set ss. \<exists>sc. filtered_informer_Get s ctx = Ok sc \<and> sc_tweak sc = Some (set_selector s)"
  shows "\<exists>infs ctx'. filtered_informer_loop ss ctx = Ok (infs, ctx') \<and>
    list_all2 (\<lambda>s i. inf_client i = c \<and> inf_namespace i = ns \<and> inf_tweak i = Some (set_selector s)) ss infs \<and>
    (\<forall>s\<in>S. \<exists>sc. filtered_informer_Get s ctx' = Ok sc \<and> sc_tweak sc = Some (set_selector s))"
  using assms
proof (induction ss arbitrary: ctx)
  case (Cons s ss)
  then obtain f where f: "map_of (ic_filtered ctx) s = Some f" "f_client f = c" "f_namespace f = ns"
    "f_tweak f = Some (set_selector s)" "\<And>i. map_of (f_informers f) EventMesh_go_type = Some i \<Longrightarrow>
        inf_client i = c \<and> inf_namespace i = ns \<and> inf_tweak i = Some (set_selector s)"
    by (auto simp: restricted_def)
  define emi where "emi = EventMeshes (V1alpha1 (Operator_group f))"
  obtain i f' where i: "Informer emi f = (i, f')" by (cases "Informer emi f")
  have sc: "sc_namespace emi = ns" "sc_tweak emi = Some (set_selector s)"
    using f by (simp_all add: emi_def EventMeshes_def V1alpha1_def New_version_def Operator_group_def New_group_def)
  have new: "inf_client i = c \<and> inf_namespace i = ns \<and> inf_tweak i = Some (set_selector s) \<and>
      map_of (f_informers f') EventMesh_go_type = Some i \<and> f_client f' = c \<and> f_namespace f' = ns \<and> f_tweak f' = Some (set_selector s)"
    using i f sc by (auto simp: Informer_def InformerFor_def Let_def defaultInformer_def NewFilteredEventMeshInformer_def
        map_add_def split: option.splits)
  define ctx1 where "ctx1 = ctx\<lparr>ic_filtered_informers := AList.update s emi (ic_filtered_informers ctx),
    ic_filtered := AList.update s f' (ic_filtered ctx)\<rparr>"
  have r: "\<forall>s\<in>S. restricted set_selector c ns ctx1 s"
    using Cons.prems(1) new by (auto simp: restricted_def ctx1_def update_conv')
  have g: "\<forall>s\<in>S - set ss. \<exists>sc. filtered_informer_Get s ctx1 = Ok sc \<and> sc_tweak sc = Some (set_selector s)"
    using Cons.prems(3) sc by (auto simp: filtered_informer_Get_def ctx1_def update_conv')
  from Cons.IH [OF r _ g] Cons.prems(2) obtain infs ctx' where "filtered_informer_loop ss ctx1 = Ok (infs, ctx')"
    "list_all2 (\<lambda>s i. inf_client i = c \<and> inf_namespace i = ns \<and> inf_tweak i = Some (set_selector s)) ss infs"
    "\<forall>s\<in>S. \<exists>sc. filtered_informer_Get s ctx' = Ok sc \<and> sc_tweak sc = Some (set_selector s)" by auto
  with f(1) i new show ?case by (auto simp: filtered_Get_def Let_def emi_def ctx1_def)
qed simp

text \<open>
  The filtered informers list what they are asked for: for every selector of the context there is a
  factory and an informer, in the order of the selectors, that list with the context's client, in its
  namespace scope and with that selector; nothing panics when the client is there.
\<close>

theorem filtered_informers_restricted:
  assumes "ic_client ctx = Some c"
  shows "\<exists>ctx1 infs ctx2. withFilteredInformerFactory set_selector (WithSelectors ss ctx) = Ok ctx1 \<and>
    withFilteredInformer ctx1 = Ok (infs, ctx2) \<and>
    list_all2 (\<lambda>s i. \<forall>options. ListFunc list_op i options = list_op c (scope_namespace ctx) (set_selector s options) \<and>
      WatchFunc list_op i options = list_op c (scope_namespace ctx) (set_selector s options)) ss infs \<and>
    (\<forall>s\<in>set ss. \<exists>sc. filtered_informer_Get s ctx2 = Ok sc \<and> sc_tweak sc = Some (set_selector s))"
proof -
  let ?ctx = "WithSelectors ss ctx"
  have ns: "scope_namespace ?ctx = scope_namespace ctx" by (simp add: WithSelectors_def scope_namespace_def)
  define ctx1 where "ctx1 = filtered_loop set_selector c ss ?ctx"
  have f: "withFilteredInformerFactory set_selector ?ctx = Ok ctx1"
    using assms by (simp add: withFilteredInformerFactory_def client_Get_def WithSelectors_def ctx1_def)
  have "\<forall>s\<in>set ss. restricted set_selector c (scope_namespace ctx) ctx1 s"
    using filtered_loop_restricted [of _ ss set_selector c ?ctx] by (simp add: ns ctx1_def)
  from filtered_informer_loop_restricted [OF this, of ss] obtain infs ctx2 where
    i: "filtered_informer_loop ss ctx1 = Ok (infs, ctx2)"
    "list_all2 (\<lambda>s i. inf_client i = c \<and> inf_namespace i = scope_namespace ctx \<and> inf_tweak i = Some (set_selector s)) ss infs"
    "\<forall>s\<in>set ss. \<exists>sc. filtered_informer_Get s ctx2 = Ok sc \<and> sc_tweak sc = Some (set_selector s)" by auto
  have "withFilteredInformer ctx1 = Ok (infs, ctx2)"
    using i(1) by (simp add: withFilteredInformer_def ctx1_def) (simp add: WithSelectors_def)
  with f i show ?thesis
    by (intro exI [of _ ctx1] exI [of _ infs] exI [of _ ctx2])
      (auto simp: ListFunc_def WatchFunc_def tweaked_def elim!: list_all2_mono)
qed

end
