(* ===== verification/Client_Set.thy ===== *)
theory Client_Set
  imports Go_Prelude
begin

text \<open>
  The construction of the typed clients (\<^verbatim>\<open>pkg/client/clientset/versioned/clientset.go\<close> and
  \<^verbatim>\<open>typed/operator/v1alpha1/operator_client.go\<close>): defaults of the configuration, the rate limiter that
  all clients of a set share, and the errors. Building an HTTP client, a REST client and a discovery
  client from a configuration is \<^verbatim>\<open>client-go\<close>'s: parameters of the model.
\<close>

section \<open>Configurations\<close>

text \<open>A rate limiter is one the caller gave, by its number, or a new token bucket; \<open>'q\<close> are rates.\<close>

datatype 'q limiter = GivenLimiter nat | NewTokenBucketRateLimiter 'q int

text \<open>\<open>cfg_serializer\<close>: the generated codec factory is set.\<close>

record 'q rest_config =
  cfg_UserAgent :: string
  cfg_RateLimiter :: "'q limiter option"
  cfg_QPS :: 'q
  cfg_Burst :: int
  cfg_GroupVersion :: "(string \<times> string) option"
  cfg_APIPath :: string
  cfg_serializer :: bool

record ('q, 'h, 'r, 'd) rest_lib =
  DefaultKubernetesUserAgent :: string
  HTTPClientFor :: "'q rest_config \<Rightarrow> 'h res"
  RESTClientForConfigAndClient :: "'q rest_config \<Rightarrow> 'h \<Rightarrow> 'r res"
  NewDiscoveryClientForConfigAndClient :: "'q rest_config \<Rightarrow> 'h \<Rightarrow> 'd res"

section \<open>The client of the operator's group\<close>

definition setConfigDefaults :: "('q, 'h, 'r, 'd) rest_lib \<Rightarrow> 'q rest_config \<Rightarrow> 'q rest_config" where
  "setConfigDefaults lib config =
     (let c1 = config\<lparr>cfg_GroupVersion := Some (''operator.knative.dev'', ''v1alpha1''), cfg_APIPath := ''/apis'', cfg_serializer := True\<rparr>
      in if cfg_UserAgent c1 = '''' then c1\<lparr>cfg_UserAgent := DefaultKubernetesUserAgent lib\<rparr> else c1)"

definition operator_NewForConfigAndClient :: "('q, 'h, 'r, 'd) rest_lib \<Rightarrow> 'q rest_config \<Rightarrow> 'h \<Rightarrow> 'r res" where
  "operator_NewForConfigAndClient lib c h = RESTClientForConfigAndClient lib (setConfigDefaults lib c) h"

definition operator_NewForConfig :: "('q, 'h, 'r, 'd) rest_lib \<Rightarrow> 'q rest_config \<Rightarrow> 'r res" where
  "operator_NewForConfig lib c =
     (let config = setConfigDefaults lib c in
      bind_res (HTTPClientFor lib config) (\<lambda>httpClient. operator_NewForConfigAndClient lib config httpClient))"

text \<open>\<^verbatim>\<open>panic(err)\<close> on an error.\<close>

definition or_die :: "'a res \<Rightarrow> 'a res" where
  "or_die r = (case r of Err e \<Rightarrow> Panic ''panic(err)'' | _ \<Rightarrow> r)"

definition operator_NewForConfigOrDie :: "('q, 'h, 'r, 'd) rest_lib \<Rightarrow> 'q rest_config \<Rightarrow> 'r res" where
  "operator_NewForConfigOrDie lib c = or_die (operator_NewForConfig lib c)"

text \<open>A nil client has no REST client.\<close>

definition RESTClient :: "'r option \<Rightarrow> 'r option" where
  "RESTClient c = (case c of None \<Rightarrow> None | Some restClient \<Rightarrow> Some restClient)"

section \<open>The client set\<close>

record ('r, 'd) clientset =
  cs_DiscoveryClient :: 'd
  cs_operatorV1alpha1 :: 'r

definition NewForConfigAndClient ::
    "('q :: {zero, ord}, 'h, 'r, 'd) rest_lib \<Rightarrow> 'q rest_config \<Rightarrow> 'h \<Rightarrow> ('r, 'd) clientset res" where
  "NewForConfigAndClient lib c httpClient =
     (let build = (\<lambda>config.
        bind_res (operator_NewForConfigAndClient lib config httpClient) (\<lambda>op.
        bind_res (NewDiscoveryClientForConfigAndClient lib config httpClient) (\<lambda>disc.
        Ok \<lparr>cs_DiscoveryClient = disc, cs_operatorV1alpha1 = op\<rparr>)))
      in if cfg_RateLimiter c = None \<and> cfg_QPS c > 0 then
           if cfg_Burst c \<le> 0 then
             Err (ErrMsg ''burst is required to be greater than 0 when RateLimiter is not set and QPS is set to greater than 0'')
           else build (c\<lparr>cfg_RateLimiter := Some (NewTokenBucketRateLimiter (cfg_QPS c) (cfg_Burst c))\<rparr>)
         else build c)"

definition NewForConfig :: "('q :: {zero, ord}, 'h, 'r, 'd) rest_lib \<Rightarrow> 'q rest_config \<Rightarrow> ('r, 'd) clientset res" where
  "NewForConfig lib c =
     (let config = (if cfg_UserAgent c = '''' then c\<lparr>cfg_UserAgent := DefaultKubernetesUserAgent lib\<rparr> else c) in
      bind_res (HTTPClientFor lib config) (\<lambda>httpClient. NewForConfigAndClient lib config httpClient))"

definition NewForConfigOrDie :: "('q :: {zero, ord}, 'h, 'r, 'd) rest_lib \<Rightarrow> 'q rest_config \<Rightarrow> ('r, 'd) clientset res" where
  "NewForConfigOrDie lib c = or_die (NewForConfig lib c)"

text \<open>\<^verbatim>\<open>New\<close> from a REST client; the client of the group is its REST client.\<close>

definition operator_New :: "'r \<Rightarrow> 'r" where
  "operator_New c = c"

definition clientset_New :: "('r \<Rightarrow> 'd) \<Rightarrow> 'r \<Rightarrow> ('r, 'd) clientset" where
  "clientset_New NewDiscoveryClient c = \<lparr>cs_DiscoveryClient = NewDiscoveryClient c, cs_operatorV1alpha1 = operator_New c\<rparr>"

definition Discovery :: "('r, 'd) clientset option \<Rightarrow> 'd option" where
  "Discovery c = map_option cs_DiscoveryClient c"

definition OperatorV1alpha1 :: "('r, 'd) clientset \<Rightarrow> 'r" where
  "OperatorV1alpha1 c = cs_operatorV1alpha1 c"

section \<open>One rate limiter for all clients\<close>

text \<open>
  The clients of a set share their transport and their rate limiter: when the construction succeeds,
  both were built from one HTTP client and from configurations with the same user agent and limiter,
  where the limiter is the caller's, or, for a positive rate, one new token bucket whose burst is
  positive, or none. A positive rate without a positive burst and without a limiter never succeeds.
\<close>

theorem clients_share_limiter:
  fixes c :: "'q :: {zero, ord} rest_config"
  assumes "NewForConfig lib c = Ok cs"
  shows "\<exists>config h. HTTPClientFor lib (config\<lparr>cfg_RateLimiter := cfg_RateLimiter c\<rparr>) = Ok h \<and>
    RESTClientForConfigAndClient lib (setConfigDefaults lib config) h = Ok (OperatorV1alpha1 cs) \<and>
    Some (NewDiscoveryClientForConfigAndClient lib config h) = map_option Ok (Discovery (Some cs)) \<and>
    cfg_RateLimiter (setConfigDefaults lib config) = cfg_RateLimiter config \<and>
    (case cfg_RateLimiter config of
       Some (NewTokenBucketRateLimiter q b) \<Rightarrow> cfg_RateLimiter c = cfg_RateLimiter config \<or> (q = cfg_QPS c \<and> q > 0 \<and> b > 0)
     | l \<Rightarrow> cfg_RateLimiter c = l)"
proof -
  define c1 where "c1 = (if cfg_UserAgent c = '''' then c\<lparr>cfg_UserAgent := DefaultKubernetesUserAgent lib\<rparr> else c)"
  have sel: "cfg_RateLimiter c1 = cfg_RateLimiter c" "cfg_QPS c1 = cfg_QPS c" by (simp_all add: c1_def)
  from assms obtain h where h: "HTTPClientFor lib c1 = Ok h" "NewForConfigAndClient lib c1 h = Ok cs"
    by (auto simp: NewForConfig_def Let_def bind_res_eq_Ok c1_def)
  define config where "config = (if cfg_RateLimiter c1 = None \<and> cfg_QPS c1 > 0
    then c1\<lparr>cfg_RateLimiter := Some (NewTokenBucketRateLimiter (cfg_QPS c1) (cfg_Burst c1))\<rparr> else c1)"
  have b: "RESTClientForConfigAndClient lib (setConfigDefaults lib config) h = Ok (cs_operatorV1alpha1 cs)"
    "NewDiscoveryClientForConfigAndClient lib config h = Ok (cs_DiscoveryClient cs)"
    "cfg_RateLimiter c1 = None \<and> cfg_QPS c1 > 0 \<Longrightarrow> cfg_Burst c1 > 0"
    using h(2) by (auto simp: NewForConfigAndClient_def operator_NewForConfigAndClient_def Let_def bind_res_eq_Ok config_def split: if_splits)
  have "config\<lparr>cfg_RateLimiter := cfg_RateLimiter c1\<rparr> = c1" by (simp add: config_def)
  with h(1) have http: "HTTPClientFor lib (config\<lparr>cfg_RateLimiter := cfg_RateLimiter c\<rparr>) = Ok h" by (simp add: sel)
  have dflt: "cfg_RateLimiter (setConfigDefaults lib config) = cfg_RateLimiter config"
    by (simp add: setConfigDefaults_def Let_def)
  have "case cfg_RateLimiter config of
       Some (NewTokenBucketRateLimiter q b) \<Rightarrow> cfg_RateLimiter c = cfg_RateLimiter config \<or> (q = cfg_QPS c \<and> q > 0 \<and> b > 0)
     | l \<Rightarrow> cfg_RateLimiter c = l"
    using b(3) sel by (simp add: config_def split: option.split limiter.split)
  with http dflt b(1,2) show ?thesis
    by (intro exI [of _ config] exI [of _ h]) (simp add: Discovery_def OperatorV1alpha1_def)
qed

definition sample_lib :: "(int, unit, int rest_config, int rest_config) rest_lib" where
  "sample_lib = \<lparr>DefaultKubernetesUserAgent = ''operator/v1'', HTTPClientFor = (\<lambda>c. Ok ()),
     RESTClientForConfigAndClient = (\<lambda>c h. Ok c), NewDiscoveryClientForConfigAndClient = (\<lambda>c h. Ok c)\<rparr>"

definition sample_config :: "int rest_config" where
  "sample_config = \<lparr>cfg_UserAgent = '''', cfg_RateLimiter = None, cfg_QPS = 5, cfg_Burst = 10, cfg_GroupVersion = None,
     cfg_APIPath = '''', cfg_serializer = False\<rparr>"

theorem clients_share_limiter_witness:
  "\<exists>cs. NewForConfig sample_lib sample_config = Ok cs \<and>
     cfg_RateLimiter (OperatorV1alpha1 cs) = cfg_RateLimiter (cs_DiscoveryClient cs)"
proof -
  obtain cs where cs: "NewForConfig sample_lib sample_config = Ok cs"
    by (simp add: NewForConfig_def NewForConfigAndClient_def operator_NewForConfigAndClient_def sample_lib_def sample_config_def Let_def)
  from clients_share_limiter [OF cs] cs show ?thesis
    by (auto simp: sample_lib_def setConfigDefaults_def Let_def Discovery_def)
qed

end
