(* ===== verification/Deep_Copy.thy ===== *)
theory Deep_Copy
  imports Go_Prelude
begin

text \<open>
  The generated deep copies of the API types (\<^verbatim>\<open>pkg/apis/operator/v1alpha1/zz_generated.deepcopy.go\<close>)
  with those of the Kubernetes and Knative types they contain, over an explicit memory: a pointer, a
  slice or a map is an address, and copying allocates. Everywhere else in the development a deep copy
  is the identity on values; this theory shows why that is sound. Each copier meets one contract
  (locale \<open>deep_copier\<close>): the copy reads as the same value and shares no address with anything that
  existed before, so writes through one never show in the other. The reconciler relies on it when it
  edits a copy of the informer's cached object.
\<close>

section \<open>Memory, types and values\<close>

datatype scalar = SStr string | SInt int | SBool bool

text \<open>
  A struct value carries its fields; \<open>HRef\<close> is a non-nil pointer, slice or map. Immutable library
  values (times, decimal numbers) are scalars.
\<close>

datatype hval =
    HScalar scalar
  | HStruct "(string \<times> hval) list"
  | HNil
  | HRef nat

text \<open>
  What an address holds: a pointee, the array behind a slice, or a map, whose entries stand in the
  order in which a \<^verbatim>\<open>range\<close> loop visits them.
\<close>

datatype cell = CVal hval | CArr "hval list" | CMap "(string \<times> hval) list"

record memory =
  m_cells :: "nat \<Rightarrow> cell option"
  m_next :: nat

definition alloc :: "cell \<Rightarrow> memory \<Rightarrow> nat \<times> memory" where
  "alloc c m = (m_next m, \<lparr>m_cells = (m_cells m)(m_next m \<mapsto> c), m_next = Suc (m_next m)\<rparr>)"

definition store :: "nat \<Rightarrow> cell \<Rightarrow> memory \<Rightarrow> memory" where
  "store a c m = m\<lparr>m_cells := (m_cells m)(a \<mapsto> c)\<rparr>"

definition wf_mem :: "memory \<Rightarrow> bool" where
  "wf_mem m \<longleftrightarrow> (\<forall>a. m_cells m a \<noteq> None \<longrightarrow> a < m_next m)"

datatype hty =
    PScalar
  | PStruct "(string \<times> hty) list"
  | PPtr hty
  | PSlice hty
  | PMap hty

text \<open>
  The value a Go value stands for, with the addresses it reaches; \<open>None\<close> when it does not have the
  type.
\<close>

datatype htree =
    LScalar scalar
  | LStruct "(string \<times> htree) list"
  | LNil
  | LPtr htree
  | LSlice "htree list"
  | LMap "(string \<times> htree) list"

fun view :: "memory \<Rightarrow> hty \<Rightarrow> hval \<Rightarrow> (htree \<times> nat list) option"
  and view_fields :: "memory \<Rightarrow> (string \<times> hty) list \<Rightarrow> (string \<times> hval) list \<Rightarrow> ((string \<times> htree) list \<times> nat list) option" where
  "view m PScalar v = (case v of HScalar s \<Rightarrow> Some (LScalar s, []) | _ \<Rightarrow> None)"
| "view m (PStruct fs) v = (case v of HStruct vs \<Rightarrow> map_option (map_prod LStruct id) (view_fields m fs vs) | _ \<Rightarrow> None)"
| "view m (PPtr t) v = (case v of
       HNil \<Rightarrow> Some (LNil, [])
     | HRef a \<Rightarrow> (case m_cells m a of Some (CVal w) \<Rightarrow> map_option (map_prod LPtr (Cons a)) (view m t w) | _ \<Rightarrow> None)
     | _ \<Rightarrow> None)"
| "view m (PSlice t) v = (case v of
       HNil \<Rightarrow> Some (LNil, [])
     | HRef a \<Rightarrow> (case m_cells m a of
         Some (CArr ws) \<Rightarrow> map_option (\<lambda>rs. (LSlice (map fst rs), a # concat (map snd rs))) (those (map (\<lambda>w. view m t w) ws))
       | _ \<Rightarrow> None)
     | _ \<Rightarrow> None)"
| "view m (PMap t) v = (case v of
       HNil \<Rightarrow> Some (LNil, [])
     | HRef a \<Rightarrow> (case m_cells m a of
         Some (CMap kws) \<Rightarrow> map_option (\<lambda>rs. (LMap (zip (map fst kws) (map fst rs)), a # concat (map snd rs)))
           (those (map (\<lambda>kw. view m t (snd kw)) kws))
       | _ \<Rightarrow> None)
     | _ \<Rightarrow> None)"
| "view_fields m [] vs = (if vs = [] then Some ([], []) else None)"
| "view_fields m ((f, t) # fs) vs = (case vs of
       [] \<Rightarrow> None
     | (g, v) # vs' \<Rightarrow>
         if f = g then (case (view m t v, view_fields m fs vs') of
             (Some (tr, as), Some (trs, bs)) \<Rightarrow> Some ((f, tr) # trs, as @ bs)
           | _ \<Rightarrow> None)
         else None)"

text \<open>The zero_value value of a type.\<close>

fun zero_value :: "hty \<Rightarrow> hval" where
  "zero_value PScalar = HScalar (SInt 0)"
| "zero_value (PStruct fs) = HStruct (map (\<lambda>ft. (fst ft, zero_value (snd ft))) fs)"
| "zero_value _ = HNil"

section \<open>Copying\<close>

type_synonym copier = "hval \<Rightarrow> memory \<Rightarrow> hval \<times> memory"

text \<open>A plain assignment.\<close>

definition assign :: copier where
  "assign v m = (v, m)"

text \<open>\<^verbatim>\<open>*out = new(T)\<close>, then the pointee is copied into it.\<close>

definition copy_ptr :: "copier \<Rightarrow> copier" where
  "copy_ptr c v m = (case v of
       HRef a \<Rightarrow> (case m_cells m a of
         Some (CVal w) \<Rightarrow>
           (let (b, m1) = alloc (CVal w) m; (w', m2) = c w m1 in (HRef b, store b (CVal w') m2))
       | _ \<Rightarrow> (v, m))
     | _ \<Rightarrow> (v, m))"

fun copy_elems :: "copier \<Rightarrow> hval list \<Rightarrow> memory \<Rightarrow> hval list \<times> memory" where
  "copy_elems c [] m = ([], m)"
| "copy_elems c (w # ws) m = (let (w', m1) = c w m; (ws', m2) = copy_elems c ws m1 in (w' # ws', m2))"

text \<open>\<^verbatim>\<open>*out = make([]T, len(*in))\<close>, then the elements one by one.\<close>

definition copy_slice :: "copier \<Rightarrow> copier" where
  "copy_slice c v m = (case v of
       HRef a \<Rightarrow> (case m_cells m a of
         Some (CArr ws) \<Rightarrow>
           (let (b, m1) = alloc (CArr ws) m; (ws', m2) = copy_elems c ws m1 in (HRef b, store b (CArr ws') m2))
       | _ \<Rightarrow> (v, m))
     | _ \<Rightarrow> (v, m))"

text \<open>\<^verbatim>\<open>*out = make(map[K]V, len(*in))\<close>, then \<^verbatim>\<open>(*out)[key] = copy of val\<close> for every entry.\<close>

definition copy_map :: "copier \<Rightarrow> copier" where
  "copy_map c v m = (case v of
       HRef a \<Rightarrow> (case m_cells m a of
         Some (CMap kws) \<Rightarrow>
           (let (b, m1) = alloc (CMap []) m; (ws', m2) = copy_elems c (map snd kws) m1
            in (HRef b, store b (CMap (zip (map fst kws) ws')) m2))
       | _ \<Rightarrow> (v, m))
     | _ \<Rightarrow> (v, m))"

text \<open>
  \<^verbatim>\<open>*out = *in\<close>, then the statements of a \<^verbatim>\<open>DeepCopyInto\<close>, one for each field listed, in the order of
  the struct.
\<close>

fun copy_fields :: "(string \<times> copier) list \<Rightarrow> (string \<times> hval) list \<Rightarrow> memory \<Rightarrow> (string \<times> hval) list \<times> memory" where
  "copy_fields steps [] m = ([], m)"
| "copy_fields steps ((f, v) # vs) m =
     (let (v', m1) = (case map_of steps f of Some c \<Rightarrow> c v m | None \<Rightarrow> (v, m));
          (vs', m2) = copy_fields steps vs m1
      in ((f, v') # vs', m2))"

definition struct_copy :: "(string \<times> copier) list \<Rightarrow> copier" where
  "struct_copy steps v m = (case v of
       HStruct vs \<Rightarrow> (let (vs', m1) = copy_fields steps vs m in (HStruct vs', m1))
     | _ \<Rightarrow> (v, m))"

section \<open>The contract of a deep copy\<close>

definition extends :: "memory \<Rightarrow> memory \<Rightarrow> bool" where
  "extends m m' \<longleftrightarrow> m_next m \<le> m_next m' \<and> (\<forall>a<m_next m. m_cells m' a = m_cells m a)"

definition copied :: "memory \<Rightarrow> hty \<Rightarrow> htree \<Rightarrow> hval \<times> memory \<Rightarrow> bool" where
  "copied m t tr r \<longleftrightarrow> wf_mem (snd r) \<and> extends m (snd r) \<and>
     (\<exists>as. view (snd r) t (fst r) = Some (tr, as) \<and> set as \<subseteq> {m_next m..<m_next (snd r)})"

definition copies :: "copier \<Rightarrow> hty \<Rightarrow> bool" where
  "copies c t \<longleftrightarrow> (\<forall>m v tr as. wf_mem m \<longrightarrow> view m t v = Some (tr, as) \<longrightarrow> copied m t tr (c v m))"

lemma those_map_frame:
  assumes "those (map f xs) = Some rs" "\<And>x r. x \<in> set xs \<Longrightarrow> f x = Some r \<Longrightarrow> r \<in> set rs \<Longrightarrow> g x = Some r"
  shows "those (map g xs) = Some rs"
  using assms
proof (induction xs arbitrary: rs)
  case (Cons x xs)
  then obtain r rs' where r: "f x = Some r" "those (map f xs) = Some rs'" "rs = r # rs'"
    by (auto split: option.splits)
  have "those (map g xs) = Some rs'" by (rule Cons.IH [OF r(2)]) (use Cons.prems(2) r(3) in auto)
  moreover have "g x = Some r" using Cons.prems(2) r by simp
  ultimately show ?case using r(3) by simp
qed simp

text \<open>A value reads the same in every memory that agrees on the addresses it reaches.\<close>

lemma view_frame:
  "view m t v = Some (tr, as) \<Longrightarrow> \<forall>a\<in>set as. m_cells m' a = m_cells m a \<Longrightarrow> view m' t v = Some (tr, as)"
  "view_fields m fs vs = Some (trs, as) \<Longrightarrow> \<forall>a\<in>set as. m_cells m' a = m_cells m a \<Longrightarrow> view_fields m' fs vs = Some (trs, as)"
proof (induction m t v and m fs vs arbitrary: tr as and trs as rule: view_view_fields.induct)
  case (3 m t v)
  then show ?case by (fastforce split: hval.splits option.splits cell.splits)
next
  case (4 m t v)
  show ?case
  proof (cases v)
    case (HRef a)
    with 4(2) obtain ws rs where a: "m_cells m a = Some (CArr ws)" "those (map (\<lambda>w. view m t w) ws) = Some rs"
      "tr = LSlice (map fst rs)" "as = a # concat (map snd rs)"
      by (auto split: option.splits cell.splits)
    have "those (map (\<lambda>w. view m' t w) ws) = Some rs"
    proof (rule those_map_frame [OF a(2)])
      show "view m' t w = Some r" if "w \<in> set ws" "view m t w = Some r" "r \<in> set rs" for w r
        using 4(1) [OF HRef a(1) refl that(1), of "fst r" "snd r"] that a(4) 4(3) by auto
    qed
    with HRef a 4(3) show ?thesis by simp
  qed (use 4(2) in auto)
next
  case (5 m t v)
  show ?case
  proof (cases v)
    case (HRef a)
    with 5(2) obtain kws rs where a: "m_cells m a = Some (CMap kws)" "those (map (\<lambda>kw. view m t (snd kw)) kws) = Some rs"
      "tr = LMap (zip (map fst kws) (map fst rs))" "as = a # concat (map snd rs)"
      by (auto split: option.splits cell.splits)
    have "those (map (\<lambda>kw. view m' t (snd kw)) kws) = Some rs"
    proof (rule those_map_frame [OF a(2)])
      show "view m' t (snd kw) = Some r" if "kw \<in> set kws" "view m t (snd kw) = Some r" "r \<in> set rs" for kw r
        using 5(1) [OF HRef a(1) refl that(1), of "fst r" "snd r"] that a(4) 5(3) by auto
    qed
    with HRef a 5(3) show ?thesis by simp
  qed (use 5(2) in auto)
qed (fastforce split: hval.splits option.splits list.splits if_splits prod.splits)+


lemma those_map_elem: "those (map f xs) = Some rs \<Longrightarrow> r \<in> set rs \<Longrightarrow> \<exists>x\<in>set xs. f x = Some r"
  by (induction xs arbitrary: rs) (auto split: option.splits)

lemma view_allocated:
  "view m t v = Some (tr, as) \<Longrightarrow> a \<in> set as \<Longrightarrow> m_cells m a \<noteq> None"
  "view_fields m fs vs = Some (trs, as) \<Longrightarrow> a \<in> set as \<Longrightarrow> m_cells m a \<noteq> None"
proof (induction m t v and m fs vs arbitrary: tr as and trs as rule: view_view_fields.induct)
  case (4 m t v)
  show ?case
  proof (cases v)
    case (HRef b)
    with 4(2) obtain ws rs where b: "m_cells m b = Some (CArr ws)" "those (map (\<lambda>w. view m t w) ws) = Some rs"
      "as = b # concat (map snd rs)"
      by (auto split: option.splits cell.splits)
    show ?thesis
    proof (cases "a = b")
      case False
      with 4(3) b(3) obtain r where r: "r \<in> set rs" "a \<in> set (snd r)" by auto
      from those_map_elem [OF b(2) r(1)] obtain w where "w \<in> set ws" "view m t w = Some (fst r, snd r)" by auto
      from 4(1) [OF HRef b(1) refl this r(2)] show ?thesis .
    qed (simp add: b(1))
  qed (use 4 in auto)
next
  case (5 m t v)
  show ?case
  proof (cases v)
    case (HRef b)
    with 5(2) obtain kws rs where b: "m_cells m b = Some (CMap kws)" "those (map (\<lambda>kw. view m t (snd kw)) kws) = Some rs"
      "as = b # concat (map snd rs)"
      by (auto split: option.splits cell.splits)
    show ?thesis
    proof (cases "a = b")
      case False
      with 5(3) b(3) obtain r where r: "r \<in> set rs" "a \<in> set (snd r)" by auto
      from those_map_elem [OF b(2) r(1)] obtain kw where "kw \<in> set kws" "view m t (snd kw) = Some (fst r, snd r)" by auto
      from 5(1) [OF HRef b(1) refl this r(2)] show ?thesis .
    qed (simp add: b(1))
  qed (use 5 in auto)
qed (fastforce split: hval.splits option.splits cell.splits list.splits if_splits prod.splits)+

lemma view_bound:
  "wf_mem m \<Longrightarrow> view m t v = Some (tr, as) \<Longrightarrow> set as \<subseteq> {..<m_next m}"
  using view_allocated(1) by (fastforce simp: wf_mem_def)

lemma extends_refl [simp]: "extends m m"
  by (simp add: extends_def)

lemma extends_trans: "extends m m' \<Longrightarrow> extends m' m'' \<Longrightarrow> extends m m''"
  by (auto simp: extends_def)

lemma extends_alloc: "extends m (snd (alloc c m))"
  by (auto simp: extends_def alloc_def)

lemma wf_alloc: "wf_mem m \<Longrightarrow> wf_mem (snd (alloc c m))"
  by (auto simp: wf_mem_def alloc_def less_SucI split: if_splits)

lemma alloc_sel [simp]:
  "fst (alloc c m) = m_next m" "m_next (snd (alloc c m)) = Suc (m_next m)"
  "m_cells (snd (alloc c m)) = (m_cells m)(m_next m \<mapsto> c)"
  by (simp_all add: alloc_def)

lemma store_sel [simp]: "m_next (store a c m) = m_next m" "m_cells (store a c m) = (m_cells m)(a \<mapsto> c)"
  by (simp_all add: store_def)

text \<open>A value without a pointer, slice or map in it.\<close>

fun flat :: "hty \<Rightarrow> bool" where
  "flat PScalar = True"
| "flat (PStruct fs) = list_all (\<lambda>ft. flat (snd ft)) fs"
| "flat _ = False"

lemma view_flat:
  "flat t \<Longrightarrow> view m t v = Some (tr, as) \<Longrightarrow> as = []"
  "list_all (\<lambda>ft. flat (snd ft)) fs \<Longrightarrow> view_fields m fs vs = Some (trs, as) \<Longrightarrow> as = []"
  by (induction m t v and m fs vs arbitrary: tr as and trs as rule: view_view_fields.induct)
    (fastforce split: hval.splits option.splits list.splits if_splits prod.splits)+


named_theorems copy_rules

lemma copies_assign [copy_rules]: "flat t \<Longrightarrow> copies assign t"
  unfolding copies_def copied_def assign_def using view_flat(1) by fastforce

text \<open>A copy that was placed into freshly allocated memory.\<close>

lemma copied_extend:
  assumes "copied m t tr r" "extends (snd r) m'" "wf_mem m'"
  shows "copied m t tr (fst r, m')"
proof -
  from assms(1) obtain as where as: "view (snd r) t (fst r) = Some (tr, as)" "set as \<subseteq> {m_next m..<m_next (snd r)}"
    by (auto simp: copied_def)
  have "view m' t (fst r) = Some (tr, as)"
    by (rule view_frame(1) [OF as(1)]) (use as(2) assms(2) in \<open>auto simp: extends_def\<close>)
  with as(2) assms show ?thesis by (auto simp: copied_def extends_def)
qed

lemma copied_later:
  assumes "copied m' t tr r" "extends m m'"
  shows "copied m t tr r"
  using assms extends_trans [OF assms(2)] by (fastforce simp: copied_def extends_def)

lemma extends_store: "extends m m' \<Longrightarrow> m_next m \<le> a \<Longrightarrow> extends m (store a c m')"
  by (auto simp: extends_def)

lemma wf_store: "wf_mem m \<Longrightarrow> a < m_next m \<Longrightarrow> wf_mem (store a c m)"
  by (auto simp: wf_mem_def)

lemma view_extends: "wf_mem m \<Longrightarrow> view m t v = Some (tr, as) \<Longrightarrow> extends m m' \<Longrightarrow> view m' t v = Some (tr, as)"
  using view_frame(1) [of m t v tr as m'] view_bound [of m t v tr as] by (auto simp: extends_def)

text \<open>
  Copying into a fresh cell: the parts are copied into memory that follows the cell, then the cell
  is filled.
\<close>

lemma fresh_cell:
  assumes wf: "wf_mem m" and m1: "m1 = snd (alloc c0 m)" and m2: "wf_mem m2" "extends m1 m2"
    and m3_def: "m3 = store (m_next m) c m2"
  shows "wf_mem m3" "extends m m3" "m_cells m3 (m_next m) = Some c" "m_next m < m_next m3"
    "\<And>t v tr as. view m2 t v = Some (tr, as) \<Longrightarrow> set as \<subseteq> {Suc (m_next m)..<m_next m2} \<Longrightarrow> view m3 t v = Some (tr, as)"
proof -
  have n: "m_next m < m_next m2" using m2(2) m1 by (simp add: extends_def)
  show "wf_mem m3" unfolding m3_def by (rule wf_store [OF m2(1) n])
  show "extends m m3"
    unfolding m3_def using m2(2) m1 by (blast intro: extends_store extends_trans extends_alloc order_refl)
  show "m_cells m3 (m_next m) = Some c" "m_next m < m_next m3" using n by (simp_all add: m3_def)
  show "view m3 t v = Some (tr, as)" if "view m2 t v = Some (tr, as)" "set as \<subseteq> {Suc (m_next m)..<m_next m2}" for t v tr as
    by (rule view_frame(1) [OF that(1)]) (use that(2) in \<open>auto simp: m3_def\<close>)
qed


lemma copies_ptr [copy_rules]:
  assumes c: "copies c t"
  shows "copies (copy_ptr c) (PPtr t)"
  unfolding copies_def
proof (intro allI impI)
  fix m v tr as assume wf: "wf_mem m" and v: "view m (PPtr t) v = Some (tr, as)"
  show "copied m (PPtr t) tr (copy_ptr c v m)"
  proof (cases v)
    case (HRef a)
    with v obtain w tr' as' where a: "m_cells m a = Some (CVal w)" "view m t w = Some (tr', as')" "tr = LPtr tr'"
      by (auto split: option.splits cell.splits)
    define m1 where "m1 = snd (alloc (CVal w) m)"
    have wf1: "wf_mem m1" unfolding m1_def by (rule wf_alloc [OF wf])
    obtain w' m2 where r: "c w m1 = (w', m2)" by fastforce
    have "view m1 t w = Some (tr', as')"
      using view_extends [OF wf a(2)] extends_alloc by (simp add: m1_def)
    with c wf1 r have cp: "copied m1 t tr' (w', m2)" by (metis copies_def)
    then obtain bs where b: "view m2 t w' = Some (tr', bs)" "set bs \<subseteq> {m_next m1..<m_next m2}" "wf_mem m2" "extends m1 m2"
      by (auto simp: copied_def)
    note f = fresh_cell [OF wf m1_def b(3,4) refl, where c = "CVal w'"]
    have "view (store (m_next m) (CVal w') m2) t w' = Some (tr', bs)"
      by (rule f(5) [OF b(1)]) (use b(2) in \<open>simp add: m1_def\<close>)
    moreover have "copy_ptr c v m = (HRef (m_next m), store (m_next m) (CVal w') m2)"
      using HRef a(1) r by (simp add: copy_ptr_def alloc_def m1_def)
    ultimately show ?thesis
      using f(1-4) b(2) a(3) by (auto simp: copied_def m1_def)
  qed (use v wf in \<open>auto simp: copied_def copy_ptr_def\<close>)
qed

lemma copy_elems_copied:
  assumes c: "copies c t"
  shows "wf_mem m \<Longrightarrow> those (map (\<lambda>w. view m t w) ws) = Some rs \<Longrightarrow> copy_elems c ws m = (ws', m') \<Longrightarrow>
    wf_mem m' \<and> extends m m' \<and> length ws' = length ws \<and>
    (\<exists>rs'. those (map (\<lambda>w. view m' t w) ws') = Some rs' \<and> map fst rs' = map fst rs \<and>
       set (concat (map snd rs')) \<subseteq> {m_next m..<m_next m'})"
proof (induction ws arbitrary: m rs ws' m')
  case (Cons w ws)
  from Cons.prems(2) obtain tr as rs0 where v: "view m t w = Some (tr, as)" "those (map (\<lambda>w. view m t w) ws) = Some rs0"
    "rs = (tr, as) # rs0"
    by (auto split: option.splits)
  obtain w' m1 ws1 where r: "c w m = (w', m1)" "copy_elems c ws m1 = (ws1, m')" "ws' = w' # ws1"
    using Cons.prems(3) by (auto split: prod.splits)
  have "copied m t tr (w', m1)" using c Cons.prems(1) v(1) r(1) by (metis copies_def)
  then obtain bs where b: "view m1 t w' = Some (tr, bs)" "set bs \<subseteq> {m_next m..<m_next m1}" "wf_mem m1" "extends m m1"
    by (auto simp: copied_def)
  have "those (map (\<lambda>w. view m1 t w) ws) = Some rs0"
    by (rule those_map_frame [OF v(2)]) (use view_extends [OF Cons.prems(1) _ b(4)] in auto)
  from Cons.IH [OF b(3) this r(2)] obtain rs' where i: "wf_mem m'" "extends m1 m'" "length ws1 = length ws"
    "those (map (\<lambda>w. view m' t w) ws1) = Some rs'" "map fst rs' = map fst rs0"
    "set (concat (map snd rs')) \<subseteq> {m_next m1..<m_next m'}" by blast
  have "view m' t w' = Some (tr, bs)" by (rule view_extends [OF b(3,1) i(2)])
  moreover have "m_next m \<le> m_next m1" "m_next m1 \<le> m_next m'" using b(4) i(2) by (simp_all add: extends_def)
  ultimately show ?case
    using i b(2) extends_trans [OF b(4) i(2)] v(3) r(3) by fastforce
qed simp

lemma copies_slice [copy_rules]:
  assumes c: "copies c t"
  shows "copies (copy_slice c) (PSlice t)"
  unfolding copies_def
proof (intro allI impI)
  fix m v tr as assume wf: "wf_mem m" and v: "view m (PSlice t) v = Some (tr, as)"
  show "copied m (PSlice t) tr (copy_slice c v m)"
  proof (cases v)
    case (HRef a)
    with v obtain ws rs where a: "m_cells m a = Some (CArr ws)" "those (map (\<lambda>w. view m t w) ws) = Some rs"
      "tr = LSlice (map fst rs)"
      by (auto split: option.splits cell.splits)
    define m1 where "m1 = snd (alloc (CArr ws) m)"
    have wf1: "wf_mem m1" unfolding m1_def by (rule wf_alloc [OF wf])
    obtain ws' m2 where r: "copy_elems c ws m1 = (ws', m2)" by fastforce
    have "those (map (\<lambda>w. view m1 t w) ws) = Some rs"
      by (rule those_map_frame [OF a(2)]) (use view_extends [OF wf _ extends_alloc] in \<open>auto simp: m1_def\<close>)
    from copy_elems_copied [OF c wf1 this r] obtain rs' where b: "wf_mem m2" "extends m1 m2"
      "those (map (\<lambda>w. view m2 t w) ws') = Some rs'" "map fst rs' = map fst rs"
      "set (concat (map snd rs')) \<subseteq> {m_next m1..<m_next m2}" by blast
    note f = fresh_cell [OF wf m1_def b(1,2) refl, where c = "CArr ws'"]
    have "those (map (\<lambda>w. view (store (m_next m) (CArr ws') m2) t w) ws') = Some rs'"
    proof (rule those_map_frame [OF b(3)])
      show "view (store (m_next m) (CArr ws') m2) t w = Some x" if "view m2 t w = Some x" "x \<in> set rs'" for w x
        using f(5) [of t w "fst x" "snd x"] that b(5) by (auto simp: m1_def)
    qed
    moreover have "copy_slice c v m = (HRef (m_next m), store (m_next m) (CArr ws') m2)"
      using HRef a(1) r by (simp add: copy_slice_def alloc_def m1_def)
    ultimately show ?thesis
      using f(1-4) b(4,5) a(3) by (fastforce simp: copied_def m1_def)
  qed (use v wf in \<open>auto simp: copied_def copy_slice_def\<close>)
qed


lemma view_map_cell:
  "m_cells m a = Some (CMap kws) \<Longrightarrow> view m (PMap t) (HRef a) =
     map_option (\<lambda>rs. (LMap (zip (map fst kws) (map fst rs)), a # concat (map snd rs)))
       (those (map (\<lambda>w. view m t w) (map snd kws)))"
  by (simp add: comp_def)

lemma copies_map [copy_rules]:
  assumes c: "copies c t"
  shows "copies (copy_map c) (PMap t)"
  unfolding copies_def
proof (intro allI impI)
  fix m v tr as assume wf: "wf_mem m" and v: "view m (PMap t) v = Some (tr, as)"
  show "copied m (PMap t) tr (copy_map c v m)"
  proof (cases v)
    case (HRef a)
    with v obtain kws rs where a: "m_cells m a = Some (CMap kws)" "those (map (\<lambda>w. view m t w) (map snd kws)) = Some rs"
      "tr = LMap (zip (map fst kws) (map fst rs))"
      by (auto simp: comp_def split: option.splits cell.splits)
    define m1 where "m1 = snd (alloc (CMap []) m)"
    have wf1: "wf_mem m1" unfolding m1_def by (rule wf_alloc [OF wf])
    obtain ws' m2 where r: "copy_elems c (map snd kws) m1 = (ws', m2)" by fastforce
    have "those (map (\<lambda>w. view m1 t w) (map snd kws)) = Some rs"
      by (rule those_map_frame [OF a(2)]) (use view_extends [OF wf _ extends_alloc] in \<open>auto simp: m1_def\<close>)
    from copy_elems_copied [OF c wf1 this r] obtain rs' where b: "wf_mem m2" "extends m1 m2"
      "length ws' = length (map snd kws)" "those (map (\<lambda>w. view m2 t w) ws') = Some rs'" "map fst rs' = map fst rs"
      "set (concat (map snd rs')) \<subseteq> {m_next m1..<m_next m2}" by blast
    define kws' where "kws' = zip (map fst kws) ws'"
    have k: "map fst kws' = map fst kws" "map snd kws' = ws'" using b(3) by (simp_all add: kws'_def)
    note f = fresh_cell [OF wf m1_def b(1,2) refl, where c = "CMap kws'"]
    have "those (map (\<lambda>w. view (store (m_next m) (CMap kws') m2) t w) (map snd kws')) = Some rs'"
      unfolding k
    proof (rule those_map_frame [OF b(4)])
      show "view (store (m_next m) (CMap kws') m2) t w = Some x" if "view m2 t w = Some x" "x \<in> set rs'" for w x
        using f(5) [of t w "fst x" "snd x"] that b(6) by (auto simp: m1_def)
    qed
    with view_map_cell [OF f(3)] k(1) have "view (store (m_next m) (CMap kws') m2) (PMap t) (HRef (m_next m)) =
      Some (tr, m_next m # concat (map snd rs'))" using b(5) a(3) by simp
    moreover have "copy_map c v m = (HRef (m_next m), store (m_next m) (CMap kws') m2)"
      using HRef a(1) r by (simp add: copy_map_def alloc_def m1_def kws'_def)
    ultimately show ?thesis
      using f(1,2,4) b(6) by (fastforce simp: copied_def m1_def)
  qed (use v wf in \<open>auto simp: copied_def copy_map_def\<close>)
qed

text \<open>Every field that is not flat needs a statement that copies it.\<close>

definition steps_for :: "(string \<times> copier) list \<Rightarrow> (string \<times> hty) list \<Rightarrow> bool" where
  "steps_for steps fs \<longleftrightarrow> (\<forall>(f, t)\<in>set fs. case map_of steps f of Some c \<Rightarrow> copies c t | None \<Rightarrow> flat t)"

lemma copy_fields_copied:
  "steps_for steps fs \<Longrightarrow> wf_mem m \<Longrightarrow> view_fields m fs vs = Some (trs, as) \<Longrightarrow> copy_fields steps vs m = (vs', m') \<Longrightarrow>
    wf_mem m' \<and> extends m m' \<and>
    (\<exists>bs. view_fields m' fs vs' = Some (trs, bs) \<and> set bs \<subseteq> {m_next m..<m_next m'})"
proof (induction fs arbitrary: m vs trs as vs' m')
  case (Cons ft fs)
  obtain f t where ft: "ft = (f, t)" by fastforce
  from Cons.prems(3) ft obtain v vs0 tr as0 trs0 bs0 where v: "vs = (f, v) # vs0" "view m t v = Some (tr, as0)"
    "view_fields m fs vs0 = Some (trs0, bs0)" "trs = (f, tr) # trs0"
    by (auto split: list.splits if_splits option.splits prod.splits)
  define step where "step = (case map_of steps f of Some c \<Rightarrow> c | None \<Rightarrow> assign)"
  have "copies step t"
    using Cons.prems(1) ft by (auto simp: steps_for_def step_def copies_assign split: option.splits)
  moreover obtain v' m1 where s: "step v m = (v', m1)" by fastforce
  ultimately have "copied m t tr (v', m1)" using Cons.prems(2) v(2) by (metis copies_def)
  then obtain cs where c: "view m1 t v' = Some (tr, cs)" "set cs \<subseteq> {m_next m..<m_next m1}" "wf_mem m1" "extends m m1"
    by (auto simp: copied_def)
  obtain vs1 where r: "copy_fields steps vs0 m1 = (vs1, m')" "vs' = (f, v') # vs1"
    using Cons.prems(4) s v(1) by (auto simp: step_def assign_def split: prod.splits option.splits)
  have "view_fields m1 fs vs0 = Some (trs0, bs0)"
    by (rule view_frame(2) [OF v(3)])
      (use view_allocated(2) [OF v(3)] Cons.prems(2) c(4) in \<open>fastforce simp: wf_mem_def extends_def\<close>)
  with Cons.IH [OF _ c(3) this r(1)] Cons.prems(1) obtain ds where d: "wf_mem m'" "extends m1 m'"
    "view_fields m' fs vs1 = Some (trs0, ds)" "set ds \<subseteq> {m_next m1..<m_next m'}"
    by (auto simp: steps_for_def)
  have "view m' t v' = Some (tr, cs)" by (rule view_extends [OF c(3,1) d(2)])
  moreover have "m_next m \<le> m_next m1" "m_next m1 \<le> m_next m'" using c(4) d(2) by (simp_all add: extends_def)
  ultimately show ?case
    using c(2) d extends_trans [OF c(4) d(2)] ft r(2) v(4) by fastforce
qed (auto split: if_splits)

lemma copies_struct [copy_rules]:
  assumes "steps_for steps fs"
  shows "copies (struct_copy steps) (PStruct fs)"
  unfolding copies_def
proof (intro allI impI)
  fix m v tr as assume wf: "wf_mem m" and v: "view m (PStruct fs) v = Some (tr, as)"
  then obtain vs trs where s: "v = HStruct vs" "view_fields m fs vs = Some (trs, as)" "tr = LStruct trs"
    by (auto split: hval.splits)
  obtain vs' m' where r: "copy_fields steps vs m = (vs', m')" by fastforce
  from copy_fields_copied [OF assms wf s(2) r] show "copied m (PStruct fs) tr (struct_copy steps v m)"
    using s r by (auto simp: struct_copy_def copied_def)
qed

lemma steps_for_Nil [copy_rules]: "steps_for steps []"
  by (simp add: steps_for_def)

lemma steps_for_Cons [copy_rules]:
  "(case map_of steps f of Some c \<Rightarrow> copies c t | None \<Rightarrow> flat t) \<Longrightarrow> steps_for steps fs \<Longrightarrow> steps_for steps ((f, t) # fs)"
  by (simp add: steps_for_def)

section \<open>What the contract gives a client\<close>

text \<open>
  A client of a deep copy may write to everything the copy reaches, and the original still reads the
  same; and whoever writes to what existed before leaves the copy as it is.
\<close>

locale deep_copier =
  fixes copy :: copier and ty :: hty
  assumes copy_copies: "copies copy ty"
begin

lemma same_value:
  assumes "wf_mem m" "view m ty v = Some (tr, as)" "copy v m = (v', m')"
  shows "\<exists>bs. view m' ty v' = Some (tr, bs) \<and> set bs \<inter> set as = {} \<and> wf_mem m' \<and> extends m m'"
proof -
  have "copied m ty tr (v', m')" using copy_copies assms by (metis copies_def)
  then obtain bs where "view m' ty v' = Some (tr, bs)" "set bs \<subseteq> {m_next m..<m_next m'}" "wf_mem m'" "extends m m'"
    by (auto simp: copied_def)
  moreover have "set as \<subseteq> {..<m_next m}" by (rule view_bound [OF assms(1,2)])
  ultimately show ?thesis by fastforce
qed

lemma isolated:
  assumes "wf_mem m" "view m ty v = Some (tr, as)" "copy v m = (v', m')"
    and "view m' ty v' = Some (tr', bs)" "\<forall>a. a \<notin> set bs \<longrightarrow> m_cells m'' a = m_cells m' a"
  shows "view m'' ty v = Some (tr, as)"
proof -
  obtain cs where c: "view m' ty v' = Some (tr, cs)" "set cs \<inter> set as = {}" "extends m m'"
    using same_value [OF assms(1-3)] by blast
  have "view m' ty v = Some (tr, as)" by (rule view_extends [OF assms(1,2) c(3)])
  then show ?thesis by (rule view_frame(1)) (use assms(4,5) c in auto)
qed

lemma unaffected:
  assumes "wf_mem m" "view m ty v = Some (tr, as)" "copy v m = (v', m')"
    and "view m' ty v' = Some (tr', bs)" "\<forall>a\<ge>m_next m. m_cells m'' a = m_cells m' a"
  shows "view m'' ty v' = Some (tr', bs)"
proof -
  have "copied m ty tr (v', m')" using copy_copies assms(1-3) by (metis copies_def)
  with assms(4) have "set bs \<subseteq> {m_next m..<m_next m'}" by (auto simp: copied_def)
  with assms(5) show ?thesis by (intro view_frame(1) [OF assms(4)]) auto
qed

end


section \<open>The Kubernetes and Knative types\<close>

text \<open>For each struct its fields and its \<^verbatim>\<open>DeepCopyInto\<close>; a type without one is copied by assignment.\<close>

definition TypeMeta_layout :: hty where
  "TypeMeta_layout = PStruct [
     (''Kind'', PScalar), (''APIVersion'', PScalar)]"

definition OwnerReference_layout :: hty where
  "OwnerReference_layout = PStruct [
     (''APIVersion'', PScalar), (''Kind'', PScalar), (''Name'', PScalar), (''UID'', PScalar),
     (''Controller'', PPtr PScalar), (''BlockOwnerDeletion'', PPtr PScalar)]"

definition OwnerReference_DeepCopyInto :: copier where
  "OwnerReference_DeepCopyInto = struct_copy [
     (''Controller'', copy_ptr assign), (''BlockOwnerDeletion'', copy_ptr assign)]"

definition FieldsV1_layout :: hty where
  "FieldsV1_layout = PStruct [
     (''Raw'', PSlice PScalar)]"

definition FieldsV1_DeepCopyInto :: copier where
  "FieldsV1_DeepCopyInto = struct_copy [
     (''Raw'', copy_slice assign)]"

definition ManagedFieldsEntry_layout :: hty where
  "ManagedFieldsEntry_layout = PStruct [
     (''Manager'', PScalar), (''Operation'', PScalar), (''APIVersion'', PScalar), (''Time'', PPtr PScalar),
     (''FieldsType'', PScalar), (''FieldsV1'', PPtr FieldsV1_layout), (''Subresource'', PScalar)]"

definition ManagedFieldsEntry_DeepCopyInto :: copier where
  "ManagedFieldsEntry_DeepCopyInto = struct_copy [
     (''Time'', copy_ptr assign), (''FieldsV1'', copy_ptr FieldsV1_DeepCopyInto)]"

definition ObjectMeta_layout :: hty where
  "ObjectMeta_layout = PStruct [
     (''Name'', PScalar), (''GenerateName'', PScalar), (''Namespace'', PScalar), (''SelfLink'', PScalar),
     (''UID'', PScalar), (''ResourceVersion'', PScalar), (''Generation'', PScalar), (''CreationTimestamp'', PScalar),
     (''DeletionTimestamp'', PPtr PScalar), (''DeletionGracePeriodSeconds'', PPtr PScalar),
     (''Labels'', PMap PScalar), (''Annotations'', PMap PScalar),
     (''OwnerReferences'', PSlice OwnerReference_layout), (''Finalizers'', PSlice PScalar),
     (''ManagedFields'', PSlice ManagedFieldsEntry_layout)]"

definition ObjectMeta_DeepCopyInto :: copier where
  "ObjectMeta_DeepCopyInto = struct_copy [
     (''DeletionTimestamp'', copy_ptr assign), (''DeletionGracePeriodSeconds'', copy_ptr assign),
     (''Labels'', copy_map assign), (''Annotations'', copy_map assign),
     (''OwnerReferences'', copy_slice OwnerReference_DeepCopyInto), (''Finalizers'', copy_slice assign),
     (''ManagedFields'', copy_slice ManagedFieldsEntry_DeepCopyInto)]"

definition ListMeta_layout :: hty where
  "ListMeta_layout = PStruct [
     (''SelfLink'', PScalar), (''ResourceVersion'', PScalar), (''Continue'', PScalar),
     (''RemainingItemCount'', PPtr PScalar)]"

definition ListMeta_DeepCopyInto :: copier where
  "ListMeta_DeepCopyInto = struct_copy [
     (''RemainingItemCount'', copy_ptr assign)]"

definition LabelSelectorRequirement_layout :: hty where
  "LabelSelectorRequirement_layout = PStruct [
     (''Key'', PScalar), (''Operator'', PScalar), (''Values'', PSlice PScalar)]"

definition LabelSelectorRequirement_DeepCopyInto :: copier where
  "LabelSelectorRequirement_DeepCopyInto = struct_copy [
     (''Values'', copy_slice assign)]"

definition LabelSelector_layout :: hty where
  "LabelSelector_layout = PStruct [
     (''MatchLabels'', PMap PScalar), (''MatchExpressions'', PSlice LabelSelectorRequirement_layout)]"

definition LabelSelector_DeepCopyInto :: copier where
  "LabelSelector_DeepCopyInto = struct_copy [
     (''MatchLabels'', copy_map assign), (''MatchExpressions'', copy_slice LabelSelectorRequirement_DeepCopyInto)]"

definition infDecAmount_layout :: hty where
  "infDecAmount_layout = PStruct [
     (''Dec'', PPtr PScalar)]"

definition infDecAmount_DeepCopyInto :: copier where
  "infDecAmount_DeepCopyInto = struct_copy [
     (''Dec'', copy_ptr assign)]"

definition Quantity_layout :: hty where
  "Quantity_layout = PStruct [
     (''i'', (PStruct [(''value'', PScalar), (''scale'', PScalar)])), (''d'', infDecAmount_layout), (''s'', PScalar),
     (''Format'', PScalar)]"

definition Quantity_DeepCopyInto :: copier where
  "Quantity_DeepCopyInto = struct_copy [
     (''d'', infDecAmount_DeepCopyInto)]"

definition ResourceClaim_layout :: hty where
  "ResourceClaim_layout = PStruct [
     (''Name'', PScalar), (''Request'', PScalar)]"

definition ResourceRequirements_layout :: hty where
  "ResourceRequirements_layout = PStruct [
     (''Limits'', PMap Quantity_layout), (''Requests'', PMap Quantity_layout),
     (''Claims'', PSlice ResourceClaim_layout)]"

definition ResourceRequirements_DeepCopyInto :: copier where
  "ResourceRequirements_DeepCopyInto = struct_copy [
     (''Limits'', copy_map Quantity_DeepCopyInto), (''Requests'', copy_map Quantity_DeepCopyInto),
     (''Claims'', copy_slice assign)]"

definition LocalObjectReference_layout :: hty where
  "LocalObjectReference_layout = PStruct [
     (''Name'', PScalar)]"

definition ObjectFieldSelector_layout :: hty where
  "ObjectFieldSelector_layout = PStruct [
     (''APIVersion'', PScalar), (''FieldPath'', PScalar)]"

definition ResourceFieldSelector_layout :: hty where
  "ResourceFieldSelector_layout = PStruct [
     (''ContainerName'', PScalar), (''Resource'', PScalar), (''Divisor'', Quantity_layout)]"

definition ResourceFieldSelector_DeepCopyInto :: copier where
  "ResourceFieldSelector_DeepCopyInto = struct_copy [
     (''Divisor'', Quantity_DeepCopyInto)]"

definition ConfigMapKeySelector_layout :: hty where
  "ConfigMapKeySelector_layout = PStruct [
     (''LocalObjectReference'', LocalObjectReference_layout), (''Key'', PScalar), (''Optional'', PPtr PScalar)]"

definition ConfigMapKeySelector_DeepCopyInto :: copier where
  "ConfigMapKeySelector_DeepCopyInto = struct_copy [
     (''Optional'', copy_ptr assign)]"

definition SecretKeySelector_layout :: hty where
  "SecretKeySelector_layout = PStruct [
     (''LocalObjectReference'', LocalObjectReference_layout), (''Key'', PScalar), (''Optional'', PPtr PScalar)]"

definition SecretKeySelector_DeepCopyInto :: copier where
  "SecretKeySelector_DeepCopyInto = struct_copy [
     (''Optional'', copy_ptr assign)]"

definition EnvVarSource_layout :: hty where
  "EnvVarSource_layout = PStruct [
     (''FieldRef'', PPtr ObjectFieldSelector_layout), (''ResourceFieldRef'', PPtr ResourceFieldSelector_layout),
     (''ConfigMapKeyRef'', PPtr ConfigMapKeySelector_layout), (''SecretKeyRef'', PPtr SecretKeySelector_layout)]"

definition EnvVarSource_DeepCopyInto :: copier where
  "EnvVarSource_DeepCopyInto = struct_copy [
     (''FieldRef'', copy_ptr assign), (''ResourceFieldRef'', copy_ptr ResourceFieldSelector_DeepCopyInto),
     (''ConfigMapKeyRef'', copy_ptr ConfigMapKeySelector_DeepCopyInto),
     (''SecretKeyRef'', copy_ptr SecretKeySelector_DeepCopyInto)]"

definition EnvVar_layout :: hty where
  "EnvVar_layout = PStruct [
     (''Name'', PScalar), (''Value'', PScalar), (''ValueFrom'', PPtr EnvVarSource_layout)]"

definition EnvVar_DeepCopyInto :: copier where
  "EnvVar_DeepCopyInto = struct_copy [
     (''ValueFrom'', copy_ptr EnvVarSource_DeepCopyInto)]"

definition Toleration_layout :: hty where
  "Toleration_layout = PStruct [
     (''Key'', PScalar), (''Operator'', PScalar), (''Value'', PScalar), (''Effect'', PScalar),
     (''TolerationSeconds'', PPtr PScalar)]"

definition Toleration_DeepCopyInto :: copier where
  "Toleration_DeepCopyInto = struct_copy [
     (''TolerationSeconds'', copy_ptr assign)]"

definition TopologySpreadConstraint_layout :: hty where
  "TopologySpreadConstraint_layout = PStruct [
     (''MaxSkew'', PScalar), (''TopologyKey'', PScalar), (''WhenUnsatisfiable'', PScalar),
     (''LabelSelector'', PPtr LabelSelector_layout), (''MinDomains'', PPtr PScalar),
     (''NodeAffinityPolicy'', PPtr PScalar), (''NodeTaintsPolicy'', PPtr PScalar),
     (''MatchLabelKeys'', PSlice PScalar)]"

definition TopologySpreadConstraint_DeepCopyInto :: copier where
  "TopologySpreadConstraint_DeepCopyInto = struct_copy [
     (''LabelSelector'', copy_ptr LabelSelector_DeepCopyInto), (''MinDomains'', copy_ptr assign),
     (''NodeAffinityPolicy'', copy_ptr assign), (''NodeTaintsPolicy'', copy_ptr assign),
     (''MatchLabelKeys'', copy_slice assign)]"

definition NodeSelectorRequirement_layout :: hty where
  "NodeSelectorRequirement_layout = PStruct [
     (''Key'', PScalar), (''Operator'', PScalar), (''Values'', PSlice PScalar)]"

definition NodeSelectorRequirement_DeepCopyInto :: copier where
  "NodeSelectorRequirement_DeepCopyInto = struct_copy [
     (''Values'', copy_slice assign)]"

definition NodeSelectorTerm_layout :: hty where
  "NodeSelectorTerm_layout = PStruct [
     (''MatchExpressions'', PSlice NodeSelectorRequirement_layout),
     (''MatchFields'', PSlice NodeSelectorRequirement_layout)]"

definition NodeSelectorTerm_DeepCopyInto :: copier where
  "NodeSelectorTerm_DeepCopyInto = struct_copy [
     (''MatchExpressions'', copy_slice NodeSelectorRequirement_DeepCopyInto),
     (''MatchFields'', copy_slice NodeSelectorRequirement_DeepCopyInto)]"

definition NodeSelector_layout :: hty where
  "NodeSelector_layout = PStruct [
     (''NodeSelectorTerms'', PSlice NodeSelectorTerm_layout)]"

definition NodeSelector_DeepCopyInto :: copier where
  "NodeSelector_DeepCopyInto = struct_copy [
     (''NodeSelectorTerms'', copy_slice NodeSelectorTerm_DeepCopyInto)]"

definition PreferredSchedulingTerm_layout :: hty where
  "PreferredSchedulingTerm_layout = PStruct [
     (''Weight'', PScalar), (''Preference'', NodeSelectorTerm_layout)]"

definition PreferredSchedulingTerm_DeepCopyInto :: copier where
  "PreferredSchedulingTerm_DeepCopyInto = struct_copy [
     (''Preference'', NodeSelectorTerm_DeepCopyInto)]"

definition NodeAffinity_layout :: hty where
  "NodeAffinity_layout = PStruct [
     (''RequiredDuringSchedulingIgnoredDuringExecution'', PPtr NodeSelector_layout),
     (''PreferredDuringSchedulingIgnoredDuringExecution'', PSlice PreferredSchedulingTerm_layout)]"

definition NodeAffinity_DeepCopyInto :: copier where
  "NodeAffinity_DeepCopyInto = struct_copy [
     (''RequiredDuringSchedulingIgnoredDuringExecution'', copy_ptr NodeSelector_DeepCopyInto),
     (''PreferredDuringSchedulingIgnoredDuringExecution'', copy_slice PreferredSchedulingTerm_DeepCopyInto)]"

definition PodAffinityTerm_layout :: hty where
  "PodAffinityTerm_layout = PStruct [
     (''LabelSelector'', PPtr LabelSelector_layout), (''Namespaces'', PSlice PScalar), (''TopologyKey'', PScalar),
     (''NamespaceSelector'', PPtr LabelSelector_layout), (''MatchLabelKeys'', PSlice PScalar),
     (''MismatchLabelKeys'', PSlice PScalar)]"

definition PodAffinityTerm_DeepCopyInto :: copier where
  "PodAffinityTerm_DeepCopyInto = struct_copy [
     (''LabelSelector'', copy_ptr LabelSelector_DeepCopyInto), (''Namespaces'', copy_slice assign),
     (''NamespaceSelector'', copy_ptr LabelSelector_DeepCopyInto), (''MatchLabelKeys'', copy_slice assign),
     (''MismatchLabelKeys'', copy_slice assign)]"

definition WeightedPodAffinityTerm_layout :: hty where
  "WeightedPodAffinityTerm_layout = PStruct [
     (''Weight'', PScalar), (''PodAffinityTerm'', PodAffinityTerm_layout)]"

definition WeightedPodAffinityTerm_DeepCopyInto :: copier where
  "WeightedPodAffinityTerm_DeepCopyInto = struct_copy [
     (''PodAffinityTerm'', PodAffinityTerm_DeepCopyInto)]"

definition PodAffinity_layout :: hty where
  "PodAffinity_layout = PStruct [
     (''RequiredDuringSchedulingIgnoredDuringExecution'', PSlice PodAffinityTerm_layout),
     (''PreferredDuringSchedulingIgnoredDuringExecution'', PSlice WeightedPodAffinityTerm_layout)]"

definition PodAffinity_DeepCopyInto :: copier where
  "PodAffinity_DeepCopyInto = struct_copy [
     (''RequiredDuringSchedulingIgnoredDuringExecution'', copy_slice PodAffinityTerm_DeepCopyInto),
     (''PreferredDuringSchedulingIgnoredDuringExecution'', copy_slice WeightedPodAffinityTerm_DeepCopyInto)]"

definition PodAntiAffinity_layout :: hty where
  "PodAntiAffinity_layout = PStruct [
     (''RequiredDuringSchedulingIgnoredDuringExecution'', PSlice PodAffinityTerm_layout),
     (''PreferredDuringSchedulingIgnoredDuringExecution'', PSlice WeightedPodAffinityTerm_layout)]"

definition PodAntiAffinity_DeepCopyInto :: copier where
  "PodAntiAffinity_DeepCopyInto = struct_copy [
     (''RequiredDuringSchedulingIgnoredDuringExecution'', copy_slice PodAffinityTerm_DeepCopyInto),
     (''PreferredDuringSchedulingIgnoredDuringExecution'', copy_slice WeightedPodAffinityTerm_DeepCopyInto)]"

definition Affinity_layout :: hty where
  "Affinity_layout = PStruct [
     (''NodeAffinity'', PPtr NodeAffinity_layout), (''PodAffinity'', PPtr PodAffinity_layout),
     (''PodAntiAffinity'', PPtr PodAntiAffinity_layout)]"

definition Affinity_DeepCopyInto :: copier where
  "Affinity_DeepCopyInto = struct_copy [
     (''NodeAffinity'', copy_ptr NodeAffinity_DeepCopyInto), (''PodAffinity'', copy_ptr PodAffinity_DeepCopyInto),
     (''PodAntiAffinity'', copy_ptr PodAntiAffinity_DeepCopyInto)]"

definition Condition_layout :: hty where
  "Condition_layout = PStruct [
     (''Type'', PScalar), (''Status'', PScalar), (''Severity'', PScalar), (''LastTransitionTime'', PScalar),
     (''Reason'', PScalar), (''Message'', PScalar)]"

definition duck_Status_layout :: hty where
  "duck_Status_layout = PStruct [
     (''ObservedGeneration'', PScalar), (''Conditions'', PSlice Condition_layout), (''Annotations'', PMap PScalar)]"

definition duck_Status_DeepCopyInto :: copier where
  "duck_Status_DeepCopyInto = struct_copy [
     (''Conditions'', copy_slice assign), (''Annotations'', copy_map assign)]"

section \<open>The types of the EventMesh\<close>

definition EnvRequirementsOverride_layout :: hty where
  "EnvRequirementsOverride_layout = PStruct [
     (''Container'', PScalar), (''EnvVars'', PSlice EnvVar_layout)]"

definition EnvRequirementsOverride_DeepCopyInto :: copier where
  "EnvRequirementsOverride_DeepCopyInto = struct_copy [
     (''EnvVars'', copy_slice EnvVar_DeepCopyInto)]"

definition ProbesRequirementsOverride_layout :: hty where
  "ProbesRequirementsOverride_layout = PStruct [
     (''Container'', PScalar), (''InitialDelaySeconds'', PScalar), (''TimeoutSeconds'', PScalar),
     (''PeriodSeconds'', PScalar), (''SuccessThreshold'', PScalar), (''FailureThreshold'', PScalar),
     (''TerminationGracePeriodSeconds'', PPtr PScalar)]"

definition ProbesRequirementsOverride_DeepCopyInto :: copier where
  "ProbesRequirementsOverride_DeepCopyInto = struct_copy [
     (''TerminationGracePeriodSeconds'', copy_ptr assign)]"

definition ResourceRequirementsOverride_layout :: hty where
  "ResourceRequirementsOverride_layout = PStruct [
     (''Container'', PScalar), (''ResourceRequirements'', ResourceRequirements_layout)]"

definition ResourceRequirementsOverride_DeepCopyInto :: copier where
  "ResourceRequirementsOverride_DeepCopyInto = struct_copy [
     (''ResourceRequirements'', ResourceRequirements_DeepCopyInto)]"

definition WorkloadOverride_layout :: hty where
  "WorkloadOverride_layout = PStruct [
     (''Name'', PScalar), (''Labels'', PMap PScalar), (''Annotations'', PMap PScalar), (''Replicas'', PPtr PScalar),
     (''NodeSelector'', PMap PScalar), (''TopologySpreadConstraints'', PSlice TopologySpreadConstraint_layout),
     (''Tolerations'', PSlice Toleration_layout), (''Affinity'', PPtr Affinity_layout),
     (''Resources'', PSlice ResourceRequirementsOverride_layout), (''Env'', PSlice EnvRequirementsOverride_layout),
     (''ReadinessProbes'', PSlice ProbesRequirementsOverride_layout),
     (''LivenessProbes'', PSlice ProbesRequirementsOverride_layout), (''HostNetwork'', PPtr PScalar)]"

definition WorkloadOverride_DeepCopyInto :: copier where
  "WorkloadOverride_DeepCopyInto = struct_copy [
     (''Labels'', copy_map assign), (''Annotations'', copy_map assign), (''Replicas'', copy_ptr assign),
     (''NodeSelector'', copy_map assign),
     (''TopologySpreadConstraints'', copy_slice TopologySpreadConstraint_DeepCopyInto),
     (''Tolerations'', copy_slice Toleration_DeepCopyInto), (''Affinity'', copy_ptr Affinity_DeepCopyInto),
     (''Resources'', copy_slice ResourceRequirementsOverride_DeepCopyInto),
     (''Env'', copy_slice EnvRequirementsOverride_DeepCopyInto),
     (''ReadinessProbes'', copy_slice ProbesRequirementsOverride_DeepCopyInto),
     (''LivenessProbes'', copy_slice ProbesRequirementsOverride_DeepCopyInto), (''HostNetwork'', copy_ptr assign)]"

definition EventMeshSpecOverrides_layout :: hty where
  "EventMeshSpecOverrides_layout = PStruct [
     (''Config'', PMap (PMap PScalar)), (''Workloads'', PSlice WorkloadOverride_layout)]"

definition EventMeshSpecOverrides_DeepCopyInto :: copier where
  "EventMeshSpecOverrides_DeepCopyInto = struct_copy [
     (''Config'', copy_map (copy_map assign)), (''Workloads'', copy_slice WorkloadOverride_DeepCopyInto)]"

definition EventMeshSpecFeatures_layout :: hty where
  "EventMeshSpecFeatures_layout = PStruct [
     (''Eventing'', PMap PScalar), (''EventingKafkaBroker'', PMap PScalar)]"

definition EventMeshSpecFeatures_DeepCopyInto :: copier where
  "EventMeshSpecFeatures_DeepCopyInto = struct_copy [
     (''Eventing'', copy_map assign), (''EventingKafkaBroker'', copy_map assign)]"

definition EventMeshSpecKafka_layout :: hty where
  "EventMeshSpecKafka_layout = PStruct [
     (''BootstrapServers'', PSlice PScalar), (''AuthSecretRef'', PPtr LocalObjectReference_layout),
     (''NumPartitions'', PScalar), (''ReplicationFactor'', PScalar), (''TopicConfigOptions'', PMap PScalar)]"

definition EventMeshSpecKafka_DeepCopyInto :: copier where
  "EventMeshSpecKafka_DeepCopyInto = struct_copy [
     (''BootstrapServers'', copy_slice assign), (''AuthSecretRef'', copy_ptr assign),
     (''TopicConfigOptions'', copy_map assign)]"

definition EventMeshSpec_layout :: hty where
  "EventMeshSpec_layout = PStruct [
     (''Kafka'', EventMeshSpecKafka_layout), (''LogLevel'', PScalar), (''DefaultBroker'', PScalar),
     (''DefaultChannel'', PScalar), (''Features'', PPtr EventMeshSpecFeatures_layout),
     (''Overrides'', PPtr EventMeshSpecOverrides_layout)]"

definition EventMeshSpec_DeepCopyInto :: copier where
  "EventMeshSpec_DeepCopyInto = struct_copy [
     (''Kafka'', EventMeshSpecKafka_DeepCopyInto), (''Features'', copy_ptr EventMeshSpecFeatures_DeepCopyInto),
     (''Overrides'', copy_ptr EventMeshSpecOverrides_DeepCopyInto)]"

definition EventMeshStatus_layout :: hty where
  "EventMeshStatus_layout = PStruct [
     (''Status'', duck_Status_layout)]"

definition EventMeshStatus_DeepCopyInto :: copier where
  "EventMeshStatus_DeepCopyInto = struct_copy [
     (''Status'', duck_Status_DeepCopyInto)]"

definition EventMesh_layout :: hty where
  "EventMesh_layout = PStruct [
     (''TypeMeta'', TypeMeta_layout), (''ObjectMeta'', ObjectMeta_layout), (''Spec'', EventMeshSpec_layout),
     (''Status'', EventMeshStatus_layout)]"

definition EventMesh_DeepCopyInto :: copier where
  "EventMesh_DeepCopyInto = struct_copy [
     (''ObjectMeta'', ObjectMeta_DeepCopyInto), (''Spec'', EventMeshSpec_DeepCopyInto),
     (''Status'', EventMeshStatus_DeepCopyInto)]"

definition EventMeshList_layout :: hty where
  "EventMeshList_layout = PStruct [
     (''TypeMeta'', TypeMeta_layout), (''ListMeta'', ListMeta_layout), (''Items'', PSlice EventMesh_layout)]"

definition EventMeshList_DeepCopyInto :: copier where
  "EventMeshList_DeepCopyInto = struct_copy [
     (''ListMeta'', ListMeta_DeepCopyInto), (''Items'', copy_slice EventMesh_DeepCopyInto)]"

section \<open>Every copy meets the contract\<close>

lemmas kube_defs =
  TypeMeta_layout_def ResourceClaim_layout_def LocalObjectReference_layout_def ObjectFieldSelector_layout_def
  Condition_layout_def OwnerReference_layout_def FieldsV1_layout_def ManagedFieldsEntry_layout_def
  ObjectMeta_layout_def ListMeta_layout_def LabelSelectorRequirement_layout_def LabelSelector_layout_def
  infDecAmount_layout_def Quantity_layout_def ResourceRequirements_layout_def ResourceFieldSelector_layout_def
  ConfigMapKeySelector_layout_def SecretKeySelector_layout_def EnvVarSource_layout_def EnvVar_layout_def
  Toleration_layout_def TopologySpreadConstraint_layout_def NodeSelectorRequirement_layout_def
  NodeSelectorTerm_layout_def NodeSelector_layout_def PreferredSchedulingTerm_layout_def NodeAffinity_layout_def
  PodAffinityTerm_layout_def WeightedPodAffinityTerm_layout_def PodAffinity_layout_def PodAntiAffinity_layout_def
  Affinity_layout_def duck_Status_layout_def OwnerReference_DeepCopyInto_def FieldsV1_DeepCopyInto_def
  ManagedFieldsEntry_DeepCopyInto_def ObjectMeta_DeepCopyInto_def ListMeta_DeepCopyInto_def
  LabelSelectorRequirement_DeepCopyInto_def LabelSelector_DeepCopyInto_def infDecAmount_DeepCopyInto_def
  Quantity_DeepCopyInto_def ResourceRequirements_DeepCopyInto_def ResourceFieldSelector_DeepCopyInto_def
  ConfigMapKeySelector_DeepCopyInto_def SecretKeySelector_DeepCopyInto_def EnvVarSource_DeepCopyInto_def
  EnvVar_DeepCopyInto_def Toleration_DeepCopyInto_def TopologySpreadConstraint_DeepCopyInto_def
  NodeSelectorRequirement_DeepCopyInto_def NodeSelectorTerm_DeepCopyInto_def NodeSelector_DeepCopyInto_def
  PreferredSchedulingTerm_DeepCopyInto_def NodeAffinity_DeepCopyInto_def PodAffinityTerm_DeepCopyInto_def
  WeightedPodAffinityTerm_DeepCopyInto_def PodAffinity_DeepCopyInto_def PodAntiAffinity_DeepCopyInto_def
  Affinity_DeepCopyInto_def duck_Status_DeepCopyInto_def

lemma flat_layouts [copy_rules]:
  "flat TypeMeta_layout"
  "flat ResourceClaim_layout"
  "flat LocalObjectReference_layout"
  "flat ObjectFieldSelector_layout"
  "flat Condition_layout"
  by (simp_all add: kube_defs)

lemma kube_copies [copy_rules]:
  "copies OwnerReference_DeepCopyInto OwnerReference_layout"
  "copies FieldsV1_DeepCopyInto FieldsV1_layout"
  "copies ManagedFieldsEntry_DeepCopyInto ManagedFieldsEntry_layout"
  "copies ObjectMeta_DeepCopyInto ObjectMeta_layout"
  "copies ListMeta_DeepCopyInto ListMeta_layout"
  "copies LabelSelectorRequirement_DeepCopyInto LabelSelectorRequirement_layout"
  "copies LabelSelector_DeepCopyInto LabelSelector_layout"
  "copies infDecAmount_DeepCopyInto infDecAmount_layout"
  "copies Quantity_DeepCopyInto Quantity_layout"
  "copies ResourceRequirements_DeepCopyInto ResourceRequirements_layout"
  "copies ResourceFieldSelector_DeepCopyInto ResourceFieldSelector_layout"
  "copies ConfigMapKeySelector_DeepCopyInto ConfigMapKeySelector_layout"
  "copies SecretKeySelector_DeepCopyInto SecretKeySelector_layout"
  "copies EnvVarSource_DeepCopyInto EnvVarSource_layout"
  "copies EnvVar_DeepCopyInto EnvVar_layout"
  "copies Toleration_DeepCopyInto Toleration_layout"
  "copies TopologySpreadConstraint_DeepCopyInto TopologySpreadConstraint_layout"
  "copies NodeSelectorRequirement_DeepCopyInto NodeSelectorRequirement_layout"
  "copies NodeSelectorTerm_DeepCopyInto NodeSelectorTerm_layout"
  "copies NodeSelector_DeepCopyInto NodeSelector_layout"
  "copies PreferredSchedulingTerm_DeepCopyInto PreferredSchedulingTerm_layout"
  "copies NodeAffinity_DeepCopyInto NodeAffinity_layout"
  "copies PodAffinityTerm_DeepCopyInto PodAffinityTerm_layout"
  "copies WeightedPodAffinityTerm_DeepCopyInto WeightedPodAffinityTerm_layout"
  "copies PodAffinity_DeepCopyInto PodAffinity_layout"
  "copies PodAntiAffinity_DeepCopyInto PodAntiAffinity_layout"
  "copies Affinity_DeepCopyInto Affinity_layout"
  "copies duck_Status_DeepCopyInto duck_Status_layout"
  by (simp_all add: kube_defs copy_rules)

lemma workload_copies [copy_rules]:
  "copies EnvRequirementsOverride_DeepCopyInto EnvRequirementsOverride_layout"
  "copies ProbesRequirementsOverride_DeepCopyInto ProbesRequirementsOverride_layout"
  "copies ResourceRequirementsOverride_DeepCopyInto ResourceRequirementsOverride_layout"
  "copies WorkloadOverride_DeepCopyInto WorkloadOverride_layout"
  by (simp_all add: copy_rules EnvRequirementsOverride_DeepCopyInto_def EnvRequirementsOverride_layout_def
    ProbesRequirementsOverride_DeepCopyInto_def ProbesRequirementsOverride_layout_def
    ResourceRequirementsOverride_DeepCopyInto_def ResourceRequirementsOverride_layout_def
    WorkloadOverride_DeepCopyInto_def WorkloadOverride_layout_def)

lemma spec_copies [copy_rules]:
  "copies EventMeshSpecOverrides_DeepCopyInto EventMeshSpecOverrides_layout"
  "copies EventMeshSpecFeatures_DeepCopyInto EventMeshSpecFeatures_layout"
  "copies EventMeshSpecKafka_DeepCopyInto EventMeshSpecKafka_layout"
  "copies EventMeshSpec_DeepCopyInto EventMeshSpec_layout"
  "copies EventMeshStatus_DeepCopyInto EventMeshStatus_layout"
  by (simp_all add: copy_rules EventMeshSpecOverrides_DeepCopyInto_def EventMeshSpecOverrides_layout_def
    EventMeshSpecFeatures_DeepCopyInto_def EventMeshSpecFeatures_layout_def
    EventMeshSpecKafka_DeepCopyInto_def EventMeshSpecKafka_layout_def
    EventMeshSpec_DeepCopyInto_def EventMeshSpec_layout_def
    EventMeshStatus_DeepCopyInto_def EventMeshStatus_layout_def)

lemma mesh_copies [copy_rules]:
  "copies EventMesh_DeepCopyInto EventMesh_layout"
  "copies EventMeshList_DeepCopyInto EventMeshList_layout"
  by (simp_all add: copy_rules EventMesh_DeepCopyInto_def EventMesh_layout_def EventMeshList_DeepCopyInto_def EventMeshList_layout_def)


section \<open>The pointer forms\<close>

text \<open>
  \<^verbatim>\<open>DeepCopy\<close>: nil for nil, else a new object with the copy in it. \<^verbatim>\<open>DeepCopyObject\<close> hands out the same
  pointer as a \<^verbatim>\<open>runtime.Object\<close>.
\<close>

definition EnvRequirementsOverride_DeepCopy :: copier where
  "EnvRequirementsOverride_DeepCopy = copy_ptr EnvRequirementsOverride_DeepCopyInto"

definition ProbesRequirementsOverride_DeepCopy :: copier where
  "ProbesRequirementsOverride_DeepCopy = copy_ptr ProbesRequirementsOverride_DeepCopyInto"

definition ResourceRequirementsOverride_DeepCopy :: copier where
  "ResourceRequirementsOverride_DeepCopy = copy_ptr ResourceRequirementsOverride_DeepCopyInto"

definition WorkloadOverride_DeepCopy :: copier where
  "WorkloadOverride_DeepCopy = copy_ptr WorkloadOverride_DeepCopyInto"

definition EventMeshSpecOverrides_DeepCopy :: copier where
  "EventMeshSpecOverrides_DeepCopy = copy_ptr EventMeshSpecOverrides_DeepCopyInto"

definition EventMeshSpecFeatures_DeepCopy :: copier where
  "EventMeshSpecFeatures_DeepCopy = copy_ptr EventMeshSpecFeatures_DeepCopyInto"

definition EventMeshSpecKafka_DeepCopy :: copier where
  "EventMeshSpecKafka_DeepCopy = copy_ptr EventMeshSpecKafka_DeepCopyInto"

definition EventMeshSpec_DeepCopy :: copier where
  "EventMeshSpec_DeepCopy = copy_ptr EventMeshSpec_DeepCopyInto"

definition EventMeshStatus_DeepCopy :: copier where
  "EventMeshStatus_DeepCopy = copy_ptr EventMeshStatus_DeepCopyInto"

definition EventMesh_DeepCopy :: copier where
  "EventMesh_DeepCopy = copy_ptr EventMesh_DeepCopyInto"

definition EventMesh_DeepCopyObject :: copier where
  "EventMesh_DeepCopyObject v m = (case EventMesh_DeepCopy v m of (c, m') \<Rightarrow> if c \<noteq> HNil then (c, m') else (HNil, m'))"

definition EventMeshList_DeepCopy :: copier where
  "EventMeshList_DeepCopy = copy_ptr EventMeshList_DeepCopyInto"

definition EventMeshList_DeepCopyObject :: copier where
  "EventMeshList_DeepCopyObject v m = (case EventMeshList_DeepCopy v m of (c, m') \<Rightarrow> if c \<noteq> HNil then (c, m') else (HNil, m'))"

text \<open>
  On a slice type \<^verbatim>\<open>DeepCopyInto\<close> does not look for nil, so it makes an empty slice of a nil one;
  \<^verbatim>\<open>DeepCopy\<close> does.
\<close>

definition WorkloadOverrides_DeepCopyInto :: copier where
  "WorkloadOverrides_DeepCopyInto v m =
     (if v = HNil then (case alloc (CArr []) m of (a, m') \<Rightarrow> (HRef a, m'))
      else copy_slice WorkloadOverride_DeepCopyInto v m)"

definition WorkloadOverrides_DeepCopy :: copier where
  "WorkloadOverrides_DeepCopy v m = (if v = HNil then (HNil, m) else WorkloadOverrides_DeepCopyInto v m)"

lemma DeepCopyObject_eq:
  "EventMesh_DeepCopyObject = EventMesh_DeepCopy" "EventMeshList_DeepCopyObject = EventMeshList_DeepCopy"
  by (auto simp: fun_eq_iff EventMesh_DeepCopyObject_def EventMeshList_DeepCopyObject_def split: prod.split)

lemma WorkloadOverrides_DeepCopy_eq: "WorkloadOverrides_DeepCopy = copy_slice WorkloadOverride_DeepCopyInto"
  by (auto simp: fun_eq_iff WorkloadOverrides_DeepCopy_def WorkloadOverrides_DeepCopyInto_def copy_slice_def)

lemmas pointer_form_defs = EnvRequirementsOverride_DeepCopy_def ProbesRequirementsOverride_DeepCopy_def
  ResourceRequirementsOverride_DeepCopy_def WorkloadOverride_DeepCopy_def EventMeshSpecOverrides_DeepCopy_def
  EventMeshSpecFeatures_DeepCopy_def EventMeshSpecKafka_DeepCopy_def EventMeshSpec_DeepCopy_def
  EventMeshStatus_DeepCopy_def EventMesh_DeepCopy_def EventMeshList_DeepCopy_def WorkloadOverrides_DeepCopy_eq
  DeepCopyObject_eq

interpretation mesh_copy: deep_copier EventMesh_DeepCopy "PPtr EventMesh_layout"
  by unfold_locales (simp add: pointer_form_defs copy_rules)

interpretation list_copy: deep_copier EventMeshList_DeepCopyObject "PPtr EventMeshList_layout"
  by unfold_locales (simp add: pointer_form_defs copy_rules)

interpretation workloads_copy: deep_copier WorkloadOverrides_DeepCopy "PSlice WorkloadOverride_layout"
  by unfold_locales (simp add: pointer_form_defs copy_rules)

text \<open>
  Claim C11. The deep copy of an EventMesh is isolated from the original: it reads as the same EventMesh;
  whatever is then written to the objects, slices and maps the copy reaches, the original reads as
  before, and whatever is written to memory that existed before the copy was made, the copy reads as
  before. So a reconciler that edits its copy never changes the object in the informer's cache, nor
  does an update of the cache reach the copy.
\<close>

theorem EventMesh_DeepCopy_isolated:
  assumes "wf_mem m" "view m (PPtr EventMesh_layout) p = Some (tr, as)" "EventMesh_DeepCopy p m = (q, m')"
  shows "\<exists>bs. view m' (PPtr EventMesh_layout) q = Some (tr, bs) \<and>
    (\<forall>m''. (\<forall>a. a \<notin> set bs \<longrightarrow> m_cells m'' a = m_cells m' a) \<longrightarrow> view m'' (PPtr EventMesh_layout) p = Some (tr, as)) \<and>
    (\<forall>m''. (\<forall>a\<ge>m_next m. m_cells m'' a = m_cells m' a) \<longrightarrow> view m'' (PPtr EventMesh_layout) q = Some (tr, bs))"
  using mesh_copy.same_value [OF assms] mesh_copy.isolated [OF assms] mesh_copy.unaffected [OF assms] by blast

text \<open>An EventMesh at address 1 whose bootstrap servers are the array at address 0.\<close>

definition sample_mesh_value :: hval where
  "sample_mesh_value = (case zero_value EventMesh_layout of HStruct [tm, om, (s, HStruct ((k, HStruct ((b, _) # ks)) # ss)), st] \<Rightarrow>
     HStruct [tm, om, (s, HStruct ((k, HStruct ((b, HRef 0) # ks)) # ss)), st] | v \<Rightarrow> v)"

definition sample_memory :: memory where
  "sample_memory = \<lparr>m_cells = [0 \<mapsto> CArr [HScalar (SStr ''b0:9092'')], 1 \<mapsto> CVal sample_mesh_value], m_next = 2\<rparr>"

theorem EventMesh_DeepCopy_isolated_witness:
  "\<exists>q m' tr bs. EventMesh_DeepCopy (HRef 1) sample_memory = (q, m') \<and>
     view m' (PPtr EventMesh_layout) q = Some (tr, bs) \<and> view (store 3 (CArr []) m') (PPtr EventMesh_layout) (HRef 1) = Some (tr, [1, 0])"
proof -
  have wf: "wf_mem sample_memory" by (simp add: wf_mem_def sample_memory_def)
  obtain tr where tr: "view sample_memory (PPtr EventMesh_layout) (HRef 1) = Some (tr, [1, 0])"
  proof -
    have "map_option snd (view sample_memory (PPtr EventMesh_layout) (HRef 1)) = Some [1, 0]" by code_simp
    then show thesis using that by auto
  qed
  define r where "r = EventMesh_DeepCopy (HRef 1) sample_memory"
  have b: "map_option snd (view (snd r) (PPtr EventMesh_layout) (fst r)) = Some [2, 3]" unfolding r_def by code_simp
  have "EventMesh_DeepCopy (HRef 1) sample_memory = (fst r, snd r)" by (simp add: r_def)
  from EventMesh_DeepCopy_isolated [OF wf tr this] obtain bs where v: "view (snd r) (PPtr EventMesh_layout) (fst r) = Some (tr, bs)"
    and w: "\<And>m''. (\<And>a. a \<notin> set bs \<Longrightarrow> m_cells m'' a = m_cells (snd r) a) \<Longrightarrow>
      view m'' (PPtr EventMesh_layout) (HRef 1) = Some (tr, [1, 0])"
    by blast
  have "bs = [2, 3]" using b v by simp
  then have "view (store 3 (CArr []) (snd r)) (PPtr EventMesh_layout) (HRef 1) = Some (tr, [1, 0])"
    by (intro w) auto
  with v show ?thesis using r_def by (intro exI [of _ "fst r"] exI [of _ "snd r"]) auto
qed

end
