(* ===== verification/Webhook.thy ===== *)
theory Webhook
  imports Event_Mesh_API
begin

text \<open>
  The admission webhook (\<^verbatim>\<open>cmd/webhook/main.go\<close>) with the two admission controllers it configures, the
  defaulting one and the validating one of \<^verbatim>\<open>knative.dev/pkg/webhook/resourcesemantics\<close>. Decoding JSON,
  comparing documents to patches and applying patches are parameters. Theorem: what the two
  controllers together let through is exactly a defaulted EventMesh that satisfies the constraints.
\<close>

section \<open>Requests and responses\<close>

datatype operation = Create | Update | Delete | Connect

text \<open>An EventMesh with its annotations, which only the webhook touches; \<open>None\<close> is a nil map.\<close>

record adm_object =
  ao_Annotations :: "string gomap option"
  ao_mesh :: event_mesh

text \<open>\<open>'b\<close> are documents; an object that is not part of the request is \<open>None\<close>.\<close>

record 'b admission_request =
  rq_Operation :: operation
  rq_Kind :: gvk
  rq_Object :: "'b option"
  rq_OldObject :: "'b option"
  rq_SubResource :: string
  rq_ResourceGroup :: string
  rq_Username :: string

text \<open>\<open>'m\<close> are marshalled patches.\<close>

datatype 'm admission_response =
    Allowed "'m option" "field_error list"
  | DeniedError string go_error
  | DeniedInvalid string field_error

record ('b, 'p, 'm) json_lib =
  Decode :: "bool \<Rightarrow> 'b \<Rightarrow> adm_object res"
  Encode :: "adm_object \<Rightarrow> 'b"
  RoundTrip :: "'b \<Rightarrow> adm_object \<Rightarrow> 'p list res"
  CreatePatch :: "adm_object \<Rightarrow> adm_object \<Rightarrow> 'p list res"
  MarshalPatch :: "'p list \<Rightarrow> 'm res"
  ReadPatch :: "'m \<Rightarrow> 'p list"
  ApplyPatch :: "'p list \<Rightarrow> 'b \<Rightarrow> 'b res"
  SemanticDeepEqual :: "event_mesh_spec \<Rightarrow> event_mesh_spec \<Rightarrow> bool"
  UnicodeLower :: "string \<Rightarrow> string"

section \<open>The controllers of the webhook\<close>

definition ourTypes :: "gvk list" where
  "ourTypes = [SchemeGroupVersion_WithKind ''EventMesh'']"

text \<open>
  What the two constructors hand to the library; the context function is the identity, and neither
  controller has callbacks.
\<close>

record admission_controller =
  ac_name :: string
  ac_path :: string
  ac_handlers :: "gvk list"
  ac_disallowUnknownFields :: bool

definition NewDefaultingAdmissionController :: admission_controller where
  "NewDefaultingAdmissionController = \<lparr>ac_name = ''webhook.eventmesh.knative.dev'', ac_path = ''/defaulting'',
     ac_handlers = ourTypes, ac_disallowUnknownFields = True\<rparr>"

definition NewValidationAdmissionController :: admission_controller where
  "NewValidationAdmissionController = \<lparr>ac_name = ''validation.webhook.eventmesh.knative.dev'', ac_path = ''/resource-validation'',
     ac_handlers = ourTypes, ac_disallowUnknownFields = True\<rparr>"

lemmas controller_defs = NewDefaultingAdmissionController_def NewValidationAdmissionController_def ourTypes_def

section \<open>Decoding\<close>

definition decode_new :: "admission_controller \<Rightarrow> ('b, 'p, 'm) json_lib \<Rightarrow> 'b admission_request \<Rightarrow> adm_object option res" where
  "decode_new ac lib req = (case rq_Object req of
       None \<Rightarrow> Ok None
     | Some b \<Rightarrow> wrap_err ''cannot decode incoming new object'' (bind_res (Decode lib (ac_disallowUnknownFields ac) b) (\<lambda>x. Ok (Some x))))"

definition decode_old :: "admission_controller \<Rightarrow> ('b, 'p, 'm) json_lib \<Rightarrow> 'b admission_request \<Rightarrow> adm_object option res" where
  "decode_old ac lib req = (case rq_OldObject req of
       None \<Rightarrow> Ok None
     | Some b \<Rightarrow> wrap_err ''cannot decode incoming old object'' (bind_res (Decode lib (ac_disallowUnknownFields ac) b) (\<lambda>x. Ok (Some x))))"

definition unhandled_kind :: "gvk \<Rightarrow> go_error" where
  "unhandled_kind g = ErrMsg (''unhandled kind: '' @ Group g @ ''/'' @ Version g @ '', Kind='' @ Kind g)"

section \<open>Defaulting\<close>

datatype within = WithinCreate | WithinUpdate adm_object | WithinSubResourceUpdate adm_object string | WithinDelete

fun GetBaseline :: "within \<Rightarrow> adm_object option" where
  "GetBaseline (WithinUpdate base) = Some base"
| "GetBaseline (WithinSubResourceUpdate base sr) = Some base"
| "GetBaseline _ = None"

definition object_SetDefaults :: "('b, 'p, 'm) json_lib \<Rightarrow> adm_object \<Rightarrow> adm_object" where
  "object_SetDefaults lib x = x\<lparr>ao_mesh := SetDefaults (UnicodeLower lib) (ao_mesh x)\<rparr>"

definition updaterAnnotation :: "string \<Rightarrow> string" where
  "updaterAnnotation groupName = (if groupName \<noteq> '''' then groupName @ ''/lastModifier'' else ''lastModifier'')"

definition creatorAnnotation :: "string \<Rightarrow> string" where
  "creatorAnnotation groupName = (if groupName \<noteq> '''' then groupName @ ''/creator'' else ''creator'')"

definition setUserInfoAnnotations ::
    "('b, 'p, 'm) json_lib \<Rightarrow> within \<Rightarrow> string option \<Rightarrow> string \<Rightarrow> adm_object \<Rightarrow> adm_object" where
  "setUserInfoAnnotations lib ctx ui groupName resource = (case ui of
       None \<Rightarrow> resource
     | Some username \<Rightarrow>
         (let annotations = (case ao_Annotations resource of None \<Rightarrow> [] | Some a \<Rightarrow> a);
              updated = AList.update (updaterAnnotation groupName) username in
          case GetBaseline ctx of
            Some old \<Rightarrow>
              if SemanticDeepEqual lib (em_Spec (ao_mesh old)) (em_Spec (ao_mesh resource))
              then resource\<lparr>ao_Annotations := Some annotations\<rparr>
              else resource\<lparr>ao_Annotations := Some (updated annotations)\<rparr>
          | None \<Rightarrow> resource\<lparr>ao_Annotations :=
              Some (updated (AList.update (creatorAnnotation groupName) username annotations))\<rparr>))"

text \<open>\<^verbatim>\<open>setDefaults\<close> copies its argument first: without a new object that is a call on a nil interface.\<close>

definition setDefaults_patch ::
    "('b, 'p, 'm) json_lib \<Rightarrow> 'p list \<Rightarrow> adm_object option \<Rightarrow> ('p list \<times> adm_object) res" where
  "setDefaults_patch lib patches crd = (case crd of
       None \<Rightarrow> Panic ''invalid memory address or nil pointer dereference''
     | Some before \<Rightarrow>
         (let after = object_SetDefaults lib before in
          bind_res (CreatePatch lib before after) (\<lambda>patch. Ok (patches @ patch, after))))"

definition annotate_patch ::
    "('b, 'p, 'm) json_lib \<Rightarrow> within \<Rightarrow> string \<Rightarrow> string \<Rightarrow> 'p list \<Rightarrow> adm_object \<Rightarrow> ('p list \<times> adm_object) res" where
  "annotate_patch lib ctx username groupName patches before =
     (let after = setUserInfoAnnotations lib ctx (Some username) groupName before in
      bind_res (CreatePatch lib before after) (\<lambda>patch. Ok (patches @ patch, after)))"

text \<open>The old object is defaulted too; the user is not in the context yet when it is annotated.\<close>

definition update_context :: "('b, 'p, 'm) json_lib \<Rightarrow> 'b admission_request \<Rightarrow> adm_object option \<Rightarrow> within" where
  "update_context lib req oldObj = (case oldObj of
       None \<Rightarrow> WithinCreate
     | Some old \<Rightarrow>
         (let base = setUserInfoAnnotations lib WithinCreate None (rq_ResourceGroup req) (object_SetDefaults lib old)
          in if rq_SubResource req = '''' then WithinUpdate base
             else WithinSubResourceUpdate base (rq_SubResource req)))"

definition mutate :: "admission_controller \<Rightarrow> ('b, 'p, 'm) json_lib \<Rightarrow> 'b admission_request \<Rightarrow> 'm res" where
  "mutate ac lib req =
     (if \<not> List.member (ac_handlers ac) (rq_Kind req) then Err (unhandled_kind (rq_Kind req))
      else bind_res (decode_new ac lib req) (\<lambda>newObj.
           bind_res (decode_old ac lib req) (\<lambda>oldObj.
           bind_res (case newObj of None \<Rightarrow> Ok []
                     | Some x \<Rightarrow> wrap_err ''cannot create patch for round tripped newBytes'' (RoundTrip lib (the (rq_Object req)) x)) (\<lambda>rtp.
           bind_res (setDefaults_patch lib rtp newObj) (\<lambda>(patches, obj).
           bind_res (annotate_patch lib (update_context lib req oldObj) (rq_Username req) (rq_ResourceGroup req) patches obj)
             (\<lambda>(patches', obj'). MarshalPatch lib patches'))))))"

definition defaulting_Admit :: "admission_controller \<Rightarrow> ('b, 'p, 'm) json_lib \<Rightarrow> 'b admission_request \<Rightarrow> 'm admission_response res" where
  "defaulting_Admit ac lib req =
     (if rq_Operation req = Create \<or> rq_Operation req = Update then
        (case mutate ac lib req of
           Ok patchBytes \<Rightarrow> Ok (Allowed (Some patchBytes) [])
         | Err e \<Rightarrow> Ok (DeniedError ''mutation failed'' e)
         | Panic p \<Rightarrow> Panic p)
      else Ok (Allowed None []))"

section \<open>Validation\<close>

definition ErrorLevel :: nat where
  "ErrorLevel = 0"

definition WarningLevel :: nat where
  "WarningLevel = 1"

fun Filter_err :: "nat \<Rightarrow> field_error \<Rightarrow> field_error option" where
  "Filter_err l (FieldError m ps lv d es) =
     (let newErr = foldl Also (if l = lv then Some (FieldError m ps lv d []) else None) (map (Filter_err l) es)
      in if fe_isEmpty newErr then None else newErr)"

definition Filter_level :: "nat \<Rightarrow> field_error option \<Rightarrow> field_error option" where
  "Filter_level l fe = Option.bind fe (Filter_err l)"

definition decodeRequest :: "admission_controller \<Rightarrow> ('b, 'p, 'm) json_lib \<Rightarrow> 'b admission_request \<Rightarrow> adm_object option res" where
  "decodeRequest ac lib req =
     (if \<not> List.member (ac_handlers ac) (rq_Kind req) then Err (unhandled_kind (rq_Kind req))
      else bind_res (decode_new ac lib req) (\<lambda>newObj.
           bind_res (decode_old ac lib req) (\<lambda>oldObj.
           Ok (if rq_Operation req = Delete then oldObj else newObj))))"

text \<open>\<open>Inl\<close> is \<^verbatim>\<open>errMissingNewObject\<close>; else the error-level part and the warnings. \<open>merged\<close> is \<^verbatim>\<open>WrappedErrors\<close>.\<close>

definition validate_object :: "(field_error \<Rightarrow> field_error list) \<Rightarrow> 'b admission_request \<Rightarrow> adm_object option \<Rightarrow>
    go_error + field_error option \<times> field_error list" where
  "validate_object merged req resource =
     (if rq_Operation req = Create \<or> rq_Operation req = Update then
        (case resource of
           None \<Rightarrow> Inl (ErrMsg ''the new object may not be nil'')
         | Some x \<Rightarrow>
             (let result = Validate (ao_mesh x)
              in Inr (Filter_level ErrorLevel result,
                      case Filter_level WarningLevel result of None \<Rightarrow> [] | Some w \<Rightarrow> merged w)))
      else Inr (None, []))"

definition validation_Admit ::
    "admission_controller \<Rightarrow> (field_error \<Rightarrow> field_error list) \<Rightarrow> ('b, 'p, 'm) json_lib \<Rightarrow> 'b admission_request \<Rightarrow> 'm admission_response res" where
  "validation_Admit ac merged lib req = (case decodeRequest ac lib req of
       Err e \<Rightarrow> Ok (DeniedError ''decoding request failed'' e)
     | Panic p \<Rightarrow> Panic p
     | Ok resource \<Rightarrow> Ok (case validate_object merged req resource of
           Inl e \<Rightarrow> DeniedError ''validation failed'' e
         | Inr (Some err, warnings) \<Rightarrow> DeniedInvalid ''validation failed'' err
         | Inr (None, warnings) \<Rightarrow> Allowed None warnings))"

section \<open>Levels\<close>

fun all_level :: "nat \<Rightarrow> field_error \<Rightarrow> bool" where
  "all_level l (FieldError m ps lv d es) \<longleftrightarrow> lv = l \<and> list_all (all_level l) es"

lemma diagnostics_foldl_options:
  "diagnostics (foldl Also fe es) = diagnostics fe @ concat (map diagnostics es)"
  by (induction es arbitrary: fe) simp_all

lemma Filter_same_level: "all_level l e \<Longrightarrow> diagnostics (Filter_err l e) = normalized e"
proof (induction e)
  case (FieldError m ps lv d es)
  then have es: "map (diagnostics \<circ> Filter_err l) es = map normalized es"
    by (simp add: list_all_iff)
  let ?n = "foldl Also (Some (FieldError m ps lv d [])) (map (Filter_err l) es)"
  have "diagnostics ?n = diagnostics (Some (FieldError m ps lv d [])) @ concat (map (diagnostics \<circ> Filter_err l) es)"
    by (simp add: diagnostics_foldl_options)
  then have n: "diagnostics ?n = normalized (FieldError m ps lv d es)"
    unfolding es by (simp add: diagnostics_def)
  have "Filter_err l (FieldError m ps lv d es) = (if fe_isEmpty ?n then None else ?n)"
    using FieldError.prems by (simp only: Filter_err.simps all_level.simps Let_def if_True refl)
  with n fe_isEmpty_diagnostics [of ?n] show ?case by (metis diagnostics_None)
qed

lemma Filter_other_level: "all_level k e \<Longrightarrow> k \<noteq> l \<Longrightarrow> Filter_err l e = None"
proof (induction e)
  case (FieldError m ps lv d es)
  then have "map (Filter_err l) es = map (\<lambda>_. None) es" by (auto simp: list_all_iff)
  moreover have "foldl Also None (map (\<lambda>_. None) xs) = None" for xs :: "field_error list"
    by (induction xs) (simp_all add: Also_def fe_isEmpty_def)
  ultimately have "foldl Also None (map (Filter_err l) es) = None" by (simp only:)
  with FieldError.prems show ?case by auto
qed

lemma all_level_add_error: "all_level l (add_error fe e) \<longleftrightarrow> all_level l fe \<and> all_level l e"
  by (cases fe) (auto simp: add_error_def)

lemma all_level_Also:
  "pred_option (all_level 0) fe \<Longrightarrow> pred_option (all_level 0) err \<Longrightarrow> pred_option (all_level 0) (Also fe err)"
  by (cases fe; cases err) (auto simp: Also_def Let_def all_level_add_error fe_isEmpty_def)

lemma all_level_ViaField_err: "all_level 0 e \<Longrightarrow> all_level 0 (ViaField_err prefix e)"
proof (induction e)
  case (FieldError m ps lv d es)
  have "list_all (all_level 0) xs \<Longrightarrow> all_level 0 fe \<Longrightarrow>
      all_level 0 (foldl (\<lambda>n e. the (Also (Some n) (Some e))) fe xs)" for xs fe
  proof (induction xs arbitrary: fe)
    case (Cons x xs)
    have "pred_option (all_level 0) (Also (Some fe) (Some x))" using Cons.prems by (intro all_level_Also) simp_all
    then have "all_level 0 (the (Also (Some fe) (Some x)))" by (auto simp: Also_def Let_def)
    with Cons show ?case by simp
  qed simp
  with FieldError show ?case by (simp add: list_all_iff)
qed

lemma all_level_ViaField: "pred_option (all_level 0) fe \<Longrightarrow> pred_option (all_level 0) (ViaField prefix fe)"
  by (cases fe) (simp_all add: ViaField_def all_level_ViaField_err)

lemma Validate_error_level: "pred_option (all_level 0) (Validate em)"
  by (simp add: Validate_def Spec_Validate_def Kafka_Validate_def Let_def ErrMissingField_def ErrInvalidValue_def
      all_level_Also all_level_ViaField)

lemma Filter_Validate:
  "Filter_level ErrorLevel (Validate em) = None \<longleftrightarrow> Validate em = None"
  "diagnostics (Filter_level ErrorLevel (Validate em)) = diagnostics (Validate em)"
  "Filter_level WarningLevel (Validate em) = None"
proof -
  have d: "diagnostics (Filter_level ErrorLevel fe) = diagnostics fe" "Filter_level WarningLevel fe = None"
    if "pred_option (all_level 0) fe" for fe
    using that Filter_same_level Filter_other_level
    by (cases fe; simp add: Filter_level_def ErrorLevel_def WarningLevel_def diagnostics_def)+
  show "diagnostics (Filter_level ErrorLevel (Validate em)) = diagnostics (Validate em)"
    "Filter_level WarningLevel (Validate em) = None" using d [OF Validate_error_level] by simp_all
  moreover have "diagnostics (Validate em) = [] \<Longrightarrow> Validate em = None"
    using Spec_Validate_None [of "em_Spec em"] by (simp add: Validate_def) (simp add: ViaField_def)
  ultimately show "Filter_level ErrorLevel (Validate em) = None \<longleftrightarrow> Validate em = None"
    by (auto simp: diagnostics_def Filter_level_def)
qed

section \<open>What the webhook lets through\<close>

text \<open>
  What is relied on of the JSON library and of the patches: an encoded object is decoded as itself, the
  patches of the round trip and of a change lead from the one document to the other, and patches are
  applied one after the other. That an object survives encoding and decoding is an idealisation: a
  field marked \<^verbatim>\<open>omitempty\<close> does not tell an empty list or map from nil, so the law is about objects
  in which such fields are nil when they are empty.
\<close>

definition json_ok :: "('b, 'p, 'm) json_lib \<Rightarrow> bool" where
  "json_ok lib \<longleftrightarrow> (\<forall>s x. Decode lib s (Encode lib x) = Ok x) \<and>
     (\<forall>s b x ps. Decode lib s b = Ok x \<longrightarrow> RoundTrip lib b x = Ok ps \<longrightarrow> ApplyPatch lib ps b = Ok (Encode lib x)) \<and>
     (\<forall>x y ps. CreatePatch lib x y = Ok ps \<longrightarrow> ApplyPatch lib ps (Encode lib x) = Ok (Encode lib y)) \<and>
     (\<forall>ps qs b. ApplyPatch lib (ps @ qs) b = bind_res (ApplyPatch lib ps b) (ApplyPatch lib qs)) \<and>
     (\<forall>ps m. MarshalPatch lib ps = Ok m \<longrightarrow> ReadPatch lib m = ps)"

lemma mutate_effect:
  assumes "json_ok lib" "rq_Object req = Some b" "Decode lib (ac_disallowUnknownFields ac) b = Ok x" "mutate ac lib req = Ok m"
  shows "\<exists>oldObj. decode_old ac lib req = Ok oldObj \<and>
    ApplyPatch lib (ReadPatch lib m) b = Ok (Encode lib (setUserInfoAnnotations lib (update_context lib req oldObj)
      (Some (rq_Username req)) (rq_ResourceGroup req) (object_SetDefaults lib x)))"
proof -
  let ?y = "object_SetDefaults lib x"
  from assms(2-4) obtain oldObj rtp p1 p2 where s: "decode_old ac lib req = Ok oldObj" "RoundTrip lib b x = Ok rtp"
    "CreatePatch lib x ?y = Ok p1" "CreatePatch lib ?y (setUserInfoAnnotations lib (update_context lib req oldObj)
       (Some (rq_Username req)) (rq_ResourceGroup req) ?y) = Ok p2" "MarshalPatch lib ((rtp @ p1) @ p2) = Ok m"
    by (auto simp: mutate_def decode_new_def setDefaults_patch_def annotate_patch_def Let_def bind_res_eq_Ok wrap_err_eq_Ok
        split: if_splits)
  then show ?thesis using assms(1,3) by (auto simp: json_ok_def)
qed

lemma setUserInfoAnnotations_mesh [simp]: "ao_mesh (setUserInfoAnnotations lib ctx ui g x) = ao_mesh x"
  by (simp add: setUserInfoAnnotations_def Let_def split: option.split)

text \<open>
  Claim C13. A created or updated EventMesh that the defaulting controller lets through is stored, after its
  patches, as the defaulted mesh. The validating controller then lets it through exactly when
  its log level, in any case, its broker class and its channel are known or empty and bootstrap servers are
  given, and otherwise names every violated constraint, without warnings. A mesh that was let through is
  a fixed point of defaulting.
\<close>

theorem webhook_admission:
  fixes lib :: "('b, 'p, 'm) json_lib"
  assumes "json_ok lib" "rq_Operation req = Create \<or> rq_Operation req = Update" "rq_Object req = Some b"
    and "Decode lib True b = Ok x" "defaulting_Admit NewDefaultingAdmissionController lib req = Ok (Allowed (Some m) ws)"
  defines "spec \<equiv> em_Spec (ao_mesh x)" and "stored \<equiv> SetDefaults (UnicodeLower lib) (ao_mesh x)"
  shows "\<exists>b' y. ApplyPatch lib (ReadPatch lib m) b = Ok b' \<and> Decode lib True b' = Ok y \<and> ao_mesh y = stored \<and>
    (if ToLower (UnicodeLower lib) (LogLevel spec) \<in> set ('''' # LogLevels) \<and> DefaultBroker spec \<in> set ('''' # BrokerClasses) \<and>
        DefaultChannel spec \<in> set ('''' # ChannelImplementations) \<and> BootstrapServers (Kafka spec) \<noteq> []
     then validation_Admit NewValidationAdmissionController merged lib (req\<lparr>rq_Object := Some b'\<rparr>) = Ok (Allowed None []) \<and>
       SetDefaults (UnicodeLower lib) stored = stored
     else \<exists>fe. validation_Admit NewValidationAdmissionController merged lib (req\<lparr>rq_Object := Some b'\<rparr>) = Ok (DeniedInvalid ''validation failed'' fe) \<and>
       diagnostics (Some fe) = diagnostics (Validate stored))"
proof -
  have m: "mutate NewDefaultingAdmissionController lib req = Ok m" using assms(2,5) by (auto simp: defaulting_Admit_def split: res.splits)
  obtain oldObj where o: "decode_old NewDefaultingAdmissionController lib req = Ok oldObj" "ApplyPatch lib (ReadPatch lib m) b = Ok (Encode lib
      (setUserInfoAnnotations lib (update_context lib req oldObj) (Some (rq_Username req)) (rq_ResourceGroup req)
        (object_SetDefaults lib x)))"
    using mutate_effect [OF assms(1,3) _ m] assms(4) by (auto simp: controller_defs)
  define y where "y = setUserInfoAnnotations lib (update_context lib req oldObj) (Some (rq_Username req)) (rq_ResourceGroup req)
    (object_SetDefaults lib x)"
  have y: "ao_mesh y = stored" by (simp add: y_def object_SetDefaults_def stored_def)
  have dec: "Decode lib True (Encode lib y) = Ok y" using assms(1) by (simp add: json_ok_def)
  have kind: "List.member ourTypes (rq_Kind req)" using m by (auto simp: mutate_def controller_defs split: if_splits)
  have v: "validation_Admit NewValidationAdmissionController merged lib (req\<lparr>rq_Object := Some (Encode lib y)\<rparr>) = Ok (case Filter_level ErrorLevel (Validate stored) of
      Some err \<Rightarrow> DeniedInvalid ''validation failed'' err | None \<Rightarrow> Allowed None [])"
    using assms(2) kind o(1) dec
    by (auto simp: validation_Admit_def controller_defs decodeRequest_def decode_new_def decode_old_def validate_object_def y Filter_Validate(3)
        split: option.split)
  show ?thesis
  proof (cases "Validate stored = None")
    case True
    then have "Filter_level ErrorLevel (Validate stored) = None" using Filter_Validate(1) [of stored] by blast
    with True show ?thesis
      using v o(2) dec y admitted_defaults_stable [of "UnicodeLower lib" "ao_mesh x"] defaulted_admission [of "UnicodeLower lib" "ao_mesh x"]
      by (simp add: y_def stored_def spec_def)
  next
    case False
    then obtain fe where fe: "Filter_level ErrorLevel (Validate stored) = Some fe" by (auto simp: Filter_Validate(1) [symmetric])
    then have "diagnostics (Some fe) = diagnostics (Validate stored)" using Filter_Validate(2) [of stored] by simp
    with fe v o(2) dec y False defaulted_admission [of "UnicodeLower lib" "ao_mesh x"] show ?thesis
      by (auto simp: y_def stored_def spec_def)
  qed
qed

text \<open>Documents that are the objects, patches that replace the whole document.\<close>

definition sample_json :: "(adm_object, adm_object, adm_object list) json_lib" where
  "sample_json = \<lparr>Decode = (\<lambda>s b. Ok b), Encode = id, RoundTrip = (\<lambda>b x. Ok []), CreatePatch = (\<lambda>x y. Ok [y]),
     MarshalPatch = Ok, ReadPatch = id, ApplyPatch = (\<lambda>ps b. Ok (last (b # ps))), SemanticDeepEqual = (=), UnicodeLower = id\<rparr>"

definition sample_request :: "adm_object admission_request" where
  "sample_request = \<lparr>rq_Operation = Create, rq_Kind = SchemeGroupVersion_WithKind ''EventMesh'',
     rq_Object = Some \<lparr>ao_Annotations = None, ao_mesh = sample_mesh\<rparr>, rq_OldObject = None, rq_SubResource = '''',
     rq_ResourceGroup = ''operator.knative.dev'', rq_Username = ''admin''\<rparr>"

lemma sample_json_ok: "json_ok sample_json"
  by (simp add: json_ok_def sample_json_def last_append)

lemma sample_json_admits: "\<exists>m. defaulting_Admit NewDefaultingAdmissionController sample_json sample_request = Ok (Allowed (Some m) [])"
  by (simp add: defaulting_Admit_def mutate_def controller_defs sample_request_def decode_new_def decode_old_def sample_json_def
      setDefaults_patch_def annotate_patch_def Let_def)

theorem webhook_admission_witness:
  "\<exists>y. ao_mesh y = SetDefaults id sample_mesh \<and>
     validation_Admit NewValidationAdmissionController (\<lambda>fe. [fe]) sample_json (sample_request\<lparr>rq_Object := Some y\<rparr>) = Ok (Allowed None [])"
proof -
  obtain m where m: "defaulting_Admit NewDefaultingAdmissionController sample_json sample_request = Ok (Allowed (Some m) [])" using sample_json_admits by blast
  let ?x = "\<lparr>ao_Annotations = None, ao_mesh = sample_mesh\<rparr> :: adm_object"
  have r: "rq_Operation sample_request = Create \<or> rq_Operation sample_request = Update" "rq_Object sample_request = Some ?x"
    "Decode sample_json True ?x = Ok ?x" "UnicodeLower sample_json = id"
    by (simp_all add: sample_request_def sample_json_def)
  have "Validate (SetDefaults id sample_mesh) = None" by code_simp
  note c = this [unfolded defaulted_admission]
  obtain b' y where "Decode sample_json True b' = Ok y" "ao_mesh y = SetDefaults id sample_mesh"
    "validation_Admit NewValidationAdmissionController (\<lambda>fe. [fe]) sample_json (sample_request\<lparr>rq_Object := Some b'\<rparr>) = Ok (Allowed None [])"
    using webhook_admission [OF sample_json_ok r(1-3) m, of "\<lambda>fe. [fe]"] c unfolding r(4) by (simp only: adm_object.simps simp_thms if_True) blast
  then show ?thesis by (auto simp: sample_json_def)
qed

end
