(* ===== verification/Scheme_Registry.thy ===== *)
theory Scheme_Registry
  imports Event_Mesh_API
begin

text \<open>
  The registration of the operator's types with the API machinery's scheme
  (\<^verbatim>\<open>pkg/apis/operator/v1alpha1/register.go\<close> and \<^verbatim>\<open>clientset/versioned/{scheme,fake}/register.go\<close>) over
  the tables of \<^verbatim>\<open>runtime.Scheme\<close>. A Go type is its package with its name. Conversion and defaulting
  functions that are registered beside the types are left out. Theorem: the registration does not
  panic, and kinds and types of the resulting scheme are each other's inverse, except for the kinds
  that are known without a version.
\<close>

section \<open>Schemes\<close>

type_synonym go_type = "string \<times> string"

record scheme =
  gvkToType :: "(gvk \<times> go_type) list"
  typeToGVK :: "(go_type \<times> gvk list) list"
  unversionedTypes :: "(go_type \<times> gvk) list"
  unversionedKinds :: "(string \<times> go_type) list"
  observedVersions :: "(string \<times> string) list"

definition NewScheme :: scheme where
  "NewScheme = \<lparr>gvkToType = [], typeToGVK = [], unversionedTypes = [], unversionedKinds = [], observedVersions = []\<rparr>"

definition APIVersionInternal :: string where
  "APIVersionInternal = ''__internal''"

definition WithKind :: "string \<times> string \<Rightarrow> string \<Rightarrow> gvk" where
  "WithKind gv kind = \<lparr>Group = fst gv, Version = snd gv, Kind = kind\<rparr>"

definition addObservedVersion :: "string \<times> string \<Rightarrow> scheme \<Rightarrow> scheme" where
  "addObservedVersion version s =
     (if snd version = '''' \<or> snd version = APIVersionInternal then s
      else if version \<in> set (observedVersions s) then s
      else s\<lparr>observedVersions := observedVersions s @ [version]\<rparr>)"

text \<open>\<^verbatim>\<open>s.typeToGVK[t]\<close>, nil when absent.\<close>

definition gvks_of :: "scheme \<Rightarrow> go_type \<Rightarrow> gvk list" where
  "gvks_of s t = (case map_of (typeToGVK s) t of None \<Rightarrow> [] | Some gvks \<Rightarrow> gvks)"

definition AddKnownTypeWithName :: "gvk \<Rightarrow> go_type \<Rightarrow> scheme \<Rightarrow> scheme res" where
  "AddKnownTypeWithName g t s =
     (let s1 = addObservedVersion (Group g, Version g) s in
      if Version g = '''' then Panic ''version is required on all types''
      else if map_of (gvkToType s1) g \<notin> {None, Some t} then Panic ''Double registration of different types''
      else let s2 = s1\<lparr>gvkToType := AList.update g t (gvkToType s1)\<rparr> in
        if g \<in> set (gvks_of s2 t) then Ok s2
        else Ok (s2\<lparr>typeToGVK := AList.update t (gvks_of s2 t @ [g]) (typeToGVK s2)\<rparr>))"

definition AddKnownTypes :: "string \<times> string \<Rightarrow> go_type list \<Rightarrow> scheme \<Rightarrow> scheme res" where
  "AddKnownTypes gv ts s = fold_res (\<lambda>t. AddKnownTypeWithName (WithKind gv (snd t)) t) ts (addObservedVersion gv s)"

definition mark_unversioned :: "string \<times> string \<Rightarrow> go_type \<Rightarrow> scheme \<Rightarrow> scheme res" where
  "mark_unversioned gv t s =
     (let g = WithKind gv (snd t); s1 = s\<lparr>unversionedTypes := AList.update t g (unversionedTypes s)\<rparr> in
      if map_of (unversionedKinds s1) (Kind g) \<notin> {None, Some t} then Panic ''kind name must be unique in scheme''
      else Ok (s1\<lparr>unversionedKinds := AList.update (Kind g) t (unversionedKinds s1)\<rparr>))"

definition AddUnversionedTypes :: "string \<times> string \<Rightarrow> go_type list \<Rightarrow> scheme \<Rightarrow> scheme res" where
  "AddUnversionedTypes gv ts s =
     bind_res (AddKnownTypes gv ts (addObservedVersion gv s)) (fold_res (mark_unversioned gv) ts)"

text \<open>
  \<^verbatim>\<open>ObjectKinds\<close> of an object of a Go type. Unstructured objects, which carry their kind themselves, are
  answered by the code before it looks at the tables; no component modelled here passes one.
\<close>

definition ObjectKinds :: "scheme \<Rightarrow> go_type \<Rightarrow> gvk list res" where
  "ObjectKinds s t = (case map_of (typeToGVK s) t of
       None \<Rightarrow> Err (ErrMsg ''no kind is registered for the type'')
     | Some gvks \<Rightarrow> Ok gvks)"

definition scheme_New :: "scheme \<Rightarrow> gvk \<Rightarrow> go_type res" where
  "scheme_New s g = (case map_of (gvkToType s) g of
       Some t \<Rightarrow> Ok t
     | None \<Rightarrow> (case map_of (unversionedKinds s) (Kind g) of
           Some t \<Rightarrow> Ok t
         | None \<Rightarrow> Err (ErrMsg ''no kind is registered for the version'')))"

section \<open>Registrations\<close>

definition metav1_type :: "string \<Rightarrow> go_type" where
  "metav1_type n = (''k8s.io/apimachinery/pkg/apis/meta/v1'', n)"

definition optionsTypes :: "go_type list" where
  "optionsTypes = map metav1_type [''ListOptions'', ''GetOptions'', ''DeleteOptions'', ''CreateOptions'', ''UpdateOptions'', ''PatchOptions'']"

definition AddToGroupVersion :: "string \<times> string \<Rightarrow> scheme \<Rightarrow> scheme res" where
  "AddToGroupVersion gv s =
     bind_res (AddKnownTypeWithName (WithKind gv ''WatchEvent'') (metav1_type ''WatchEvent'') s) (\<lambda>s1.
     bind_res (AddKnownTypeWithName (WithKind (fst gv, APIVersionInternal) ''WatchEvent'') (metav1_type ''InternalEvent'') s1) (\<lambda>s2.
     bind_res (AddKnownTypes gv optionsTypes s2) (\<lambda>s3.
     AddUnversionedTypes ('''', ''v1'')
       (map metav1_type [''Status'', ''APIVersions'', ''APIGroupList'', ''APIGroup'', ''APIResourceList'']) s3)))"

definition SchemeGroupVersion :: "string \<times> string" where
  "SchemeGroupVersion = (''operator.knative.dev'', ''v1alpha1'')"

definition Kind_of :: "string \<Rightarrow> string \<times> string" where
  "Kind_of kind = (let g = WithKind SchemeGroupVersion kind in (Group g, Kind g))"

text \<open>A group resource is a group with a resource.\<close>

definition Resource :: "string \<Rightarrow> string \<times> string" where
  "Resource resource = (fst SchemeGroupVersion, resource)"

definition EventMesh_type :: go_type where
  "EventMesh_type = (''knative.dev/eventmesh-operator/pkg/apis/operator/v1alpha1'', ''EventMesh'')"

definition EventMeshList_type :: go_type where
  "EventMeshList_type = (''knative.dev/eventmesh-operator/pkg/apis/operator/v1alpha1'', ''EventMeshList'')"

definition addKnownTypes :: "scheme \<Rightarrow> scheme res" where
  "addKnownTypes s =
     bind_res (AddKnownTypes SchemeGroupVersion [EventMesh_type, EventMeshList_type] s) (AddToGroupVersion SchemeGroupVersion)"

text \<open>\<^verbatim>\<open>SchemeBuilder.AddToScheme\<close>: the functions of the builder one after the other.\<close>

definition builder_AddToScheme :: "(scheme \<Rightarrow> scheme res) list \<Rightarrow> scheme \<Rightarrow> scheme res" where
  "builder_AddToScheme sb s = fold_res (\<lambda>f. f) sb s"

definition AddToScheme :: "scheme \<Rightarrow> scheme res" where
  "AddToScheme = builder_AddToScheme [addKnownTypes]"

text \<open>\<^verbatim>\<open>utilruntime.Must\<close> panics with an error.\<close>

definition Must :: "'a res \<Rightarrow> 'a res" where
  "Must r = (case r of Err e \<Rightarrow> Panic (err_text e) | _ \<Rightarrow> r)"

text \<open>The schemes of the client set and of its fake are built in the same way.\<close>

definition clientset_init :: "scheme \<Rightarrow> scheme res" where
  "clientset_init s = bind_res (AddToGroupVersion ('''', ''v1'') s) (\<lambda>s1. Must (builder_AddToScheme [AddToScheme] s1))"

definition fake_init :: "scheme \<Rightarrow> scheme res" where
  "fake_init s = bind_res (AddToGroupVersion ('''', ''v1'') s) (\<lambda>s1. Must (builder_AddToScheme [AddToScheme] s1))"

section \<open>Kinds and types\<close>

definition scheme_ok :: "scheme \<Rightarrow> bool" where
  "scheme_ok s \<longleftrightarrow> (\<forall>g t. map_of (gvkToType s) g = Some t \<longleftrightarrow> g \<in> set (gvks_of s t)) \<and> (\<forall>t. distinct (gvks_of s t))"

lemma NewScheme_ok: "scheme_ok NewScheme"
  by (simp add: scheme_ok_def NewScheme_def gvks_of_def)

lemma scheme_ok_tables:
  "typeToGVK s' = typeToGVK s \<Longrightarrow> gvkToType s' = gvkToType s \<Longrightarrow> scheme_ok s' = scheme_ok s"
  by (simp add: scheme_ok_def gvks_of_def)

lemma addObservedVersion_sel [simp]:
  "typeToGVK (addObservedVersion v s) = typeToGVK s" "gvkToType (addObservedVersion v s) = gvkToType s"
  by (simp_all add: addObservedVersion_def)

lemma gvks_of_update:
  "gvks_of (s\<lparr>typeToGVK := AList.update t gs (typeToGVK s)\<rparr>) t' = (if t' = t then gs else gvks_of s t')"
  by (simp add: gvks_of_def map_of_update)

lemma AddKnownTypeWithName_ok:
  assumes "AddKnownTypeWithName g t s = Ok s'" "scheme_ok s"
  shows "scheme_ok s'"
proof -
  let ?s2 = "(addObservedVersion (Group g, Version g) s)\<lparr>gvkToType := AList.update g t (gvkToType s)\<rparr>"
  have gv: "gvks_of ?s2 = gvks_of s" by (rule ext) (simp add: gvks_of_def)
  have free: "map_of (gvkToType s) g \<in> {None, Some t}"
    by (rule ccontr) (use assms(1) in \<open>simp add: AddKnownTypeWithName_def Let_def split: if_splits\<close>)
  have s': "s' = (if g \<in> set (gvks_of s t) then ?s2 else ?s2\<lparr>typeToGVK := AList.update t (gvks_of s t @ [g]) (typeToGVK ?s2)\<rparr>)"
    using assms(1) gv by (auto simp: AddKnownTypeWithName_def Let_def split: if_splits)
  have ok: "map_of (gvkToType s) h = Some u \<longleftrightarrow> h \<in> set (gvks_of s u)" "distinct (gvks_of s u)" for h u
    using assms(2) unfolding scheme_ok_def by blast+
  have other: "g \<notin> set (gvks_of s u)" if "u \<noteq> t" for u using free ok(1) [of g u] that by auto
  have gv': "gvks_of s' u = (if u = t \<and> g \<notin> set (gvks_of s t) then gvks_of s t @ [g] else gvks_of s u)" for u
    using s' gv gvks_of_update [where s = ?s2] by auto
  have ty': "map_of (gvkToType s') h = (if h = g then Some t else map_of (gvkToType s) h)" for h
    using s' by (simp add: map_of_update)
  have "map_of (gvkToType s') h = Some u \<longleftrightarrow> h \<in> set (gvks_of s' u)" for h u
    using ok(1) [of h u] other [of u] by (cases "h = g"; cases "u = t") (auto simp: gv' ty')
  moreover have "distinct (gvks_of s' u)" for u using ok(2) by (simp add: gv')
  ultimately show ?thesis by (simp add: scheme_ok_def)
qed

lemma fold_res_inv:
  assumes "fold_res f xs s = Ok s'" "P s" "\<And>x s s'. f x s = Ok s' \<Longrightarrow> P s \<Longrightarrow> P s'"
  shows "P s'"
  using assms(1,2)
proof (induction xs arbitrary: s)
  case (Cons x xs)
  then obtain s1 where "f x s = Ok s1" "fold_res f xs s1 = Ok s'" by (auto simp: bind_res_eq_Ok)
  then show ?case using Cons assms(3) by blast
qed simp

lemma AddKnownTypes_ok: "AddKnownTypes gv ts s = Ok s' \<Longrightarrow> scheme_ok s \<Longrightarrow> scheme_ok s'"
  unfolding AddKnownTypes_def
  by (erule fold_res_inv) (auto simp: scheme_ok_tables [of "addObservedVersion gv s" s] intro: AddKnownTypeWithName_ok)

lemma AddUnversionedTypes_ok:
  assumes "AddUnversionedTypes gv ts s = Ok s'" "scheme_ok s"
  shows "scheme_ok s'"
proof -
  obtain s1 where s1: "AddKnownTypes gv ts (addObservedVersion gv s) = Ok s1" "fold_res (mark_unversioned gv) ts s1 = Ok s'"
    using assms(1) by (auto simp: AddUnversionedTypes_def bind_res_eq_Ok)
  have "scheme_ok s1" using AddKnownTypes_ok [OF s1(1)] assms(2) scheme_ok_tables [of "addObservedVersion gv s" s] by simp
  then show ?thesis
    by (rule fold_res_inv [OF s1(2)]) (auto simp: mark_unversioned_def Let_def scheme_ok_def gvks_of_def split: if_splits)
qed

lemma AddToGroupVersion_ok: "AddToGroupVersion gv s = Ok s' \<Longrightarrow> scheme_ok s \<Longrightarrow> scheme_ok s'"
  unfolding AddToGroupVersion_def bind_res_eq_Ok by (metis AddKnownTypeWithName_ok AddKnownTypes_ok AddUnversionedTypes_ok)

lemma Must_Ok [simp]: "Must r = Ok x \<longleftrightarrow> r = Ok x"
  by (cases r) (simp_all add: Must_def)

lemma builder_Nil_Cons [simp]:
  "builder_AddToScheme [] s = Ok s" "builder_AddToScheme (f # fs) s = Ok s' \<longleftrightarrow> (\<exists>s1. f s = Ok s1 \<and> builder_AddToScheme fs s1 = Ok s')"
  by (simp_all add: builder_AddToScheme_def bind_res_eq_Ok)

lemma clientset_init_ok:
  assumes "clientset_init s = Ok s'" "scheme_ok s"
  shows "scheme_ok s'"
proof -
  obtain s1 where s1: "AddToGroupVersion ('''', ''v1'') s = Ok s1" "addKnownTypes s1 = Ok s'"
    using assms(1) by (auto simp: clientset_init_def AddToScheme_def bind_res_eq_Ok)
  then obtain s2 where "AddKnownTypes SchemeGroupVersion [EventMesh_type, EventMeshList_type] s1 = Ok s2" "AddToGroupVersion SchemeGroupVersion s2 = Ok s'"
    by (auto simp: addKnownTypes_def bind_res_eq_Ok)
  with s1(1) assms(2) show ?thesis by (blast intro: AddKnownTypes_ok AddToGroupVersion_ok)
qed

text \<open>The kinds that the initialisation registers.\<close>

definition registered_kinds :: "string list" where
  "registered_kinds = [''EventMesh'', ''EventMeshList'', ''WatchEvent'', ''ListOptions'', ''GetOptions'', ''DeleteOptions'', ''CreateOptions'',
     ''UpdateOptions'', ''PatchOptions'', ''Status'', ''APIVersions'', ''APIGroupList'', ''APIGroup'', ''APIResourceList'']"

definition scheme_view :: "scheme \<Rightarrow> bool" where
  "scheme_view s \<longleftrightarrow> ObjectKinds s EventMesh_type = Ok [GetGroupVersionKind] \<and> scheme_New s GetGroupVersionKind = Ok EventMesh_type \<and>
     ObjectKinds s EventMeshList_type = Ok [WithKind SchemeGroupVersion ''EventMeshList''] \<and>
     scheme_New s (WithKind SchemeGroupVersion ''EventMeshList'') = Ok EventMeshList_type \<and>
     list_all (\<lambda>(t, gs). list_all (\<lambda>g. Kind g \<in> set registered_kinds) gs) (typeToGVK s)"

lemma clientset_scheme:
  obtains s where "clientset_init NewScheme = Ok s" "fake_init NewScheme = Ok s" "scheme_view s" "scheme_ok s"
proof -
  have e: "bind_res (clientset_init NewScheme) (\<lambda>s. Ok (scheme_view s)) = Ok True" by code_simp
  then obtain s where s: "clientset_init NewScheme = Ok s" by (cases "clientset_init NewScheme") simp_all
  show thesis
  proof (rule that [OF s])
    show "fake_init NewScheme = Ok s" using s by (simp add: fake_init_def clientset_init_def)
    show "scheme_view s" using e by (simp add: s)
    show "scheme_ok s" by (rule clientset_init_ok [OF s NewScheme_ok])
  qed
qed

text \<open>
  Some kinds are known without a version: \<^verbatim>\<open>New\<close> makes an object of such a kind whatever the group and
  the version are.
\<close>

definition unversioned_kinds :: "string list" where
  "unversioned_kinds = [''Status'', ''APIVersions'', ''APIGroupList'', ''APIGroup'', ''APIResourceList'']"

definition fallback_view :: "scheme \<Rightarrow> bool" where
  "fallback_view s \<longleftrightarrow> unversionedKinds s = map (\<lambda>k. (k, metav1_type k)) unversioned_kinds \<and>
     list_all (\<lambda>(g, t). Kind g \<in> set unversioned_kinds \<longrightarrow> t = metav1_type (Kind g)) (gvkToType s)"

lemma clientset_fallback:
  assumes "clientset_init NewScheme = Ok s"
  shows "fallback_view s"
proof -
  have "bind_res (clientset_init NewScheme) (\<lambda>s. Ok (fallback_view s)) = Ok True" by code_simp
  with assms show ?thesis by simp
qed

lemma map_of_pairs: "map_of (map (\<lambda>k. (k, f k)) ks) k = (if k \<in> set ks then Some (f k) else None)"
  by (induction ks) auto

lemma scheme_New_iff:
  assumes "scheme_ok s" "fallback_view s"
  shows "scheme_New s g = Ok t \<longleftrightarrow> (if Kind g \<in> set unversioned_kinds then t = metav1_type (Kind g)
     else \<exists>gs. ObjectKinds s t = Ok gs \<and> g \<in> set gs)"
proof -
  have "map_of (gvkToType s) g = Some t \<longleftrightarrow> g \<in> set (gvks_of s t)"
    using assms(1) unfolding scheme_ok_def by blast
  then have table: "map_of (gvkToType s) g = Some t \<longleftrightarrow> (\<exists>gs. ObjectKinds s t = Ok gs \<and> g \<in> set gs)"
    by (simp add: ObjectKinds_def gvks_of_def split: option.split)
  have fallback: "map_of (unversionedKinds s) k = (if k \<in> set unversioned_kinds then Some (metav1_type k) else None)" for k
    using assms(2) by (simp add: fallback_view_def map_of_pairs)
  have agree: "u = metav1_type (Kind g)" if "map_of (gvkToType s) g = Some u" "Kind g \<in> set unversioned_kinds" for u
    using map_of_SomeD [OF that(1)] that(2) assms(2) by (auto simp: fallback_view_def list_all_iff)
  show ?thesis
  proof (cases "Kind g \<in> set unversioned_kinds")
    case True
    then show ?thesis using agree by (auto simp: scheme_New_def fallback split: option.split)
  next
    case False
    then have "scheme_New s g = Ok t \<longleftrightarrow> map_of (gvkToType s) g = Some t"
      by (auto simp: scheme_New_def fallback split: option.split)
    with False table show ?thesis by simp
  qed
qed

text \<open>
  Claim C37. The scheme of the client set, and that of the fake, are built without a panic; both know EventMeshes
  and lists of them, under one kind each. For every kind but the five unversioned ones, making an
  object of a kind and asking a type for its kinds are inverse: \<^verbatim>\<open>New\<close> makes an object of a type exactly
  when the kind is one of those that \<^verbatim>\<open>ObjectKinds\<close> names for that type. For the kinds \<^verbatim>\<open>Status\<close>,
  \<^verbatim>\<open>APIVersions\<close>, \<^verbatim>\<open>APIGroupList\<close>, \<^verbatim>\<open>APIGroup\<close> and \<^verbatim>\<open>APIResourceList\<close> it makes the type of that name, under
  every group and version, registered or not.
\<close>

theorem scheme_registers_meshes:
  "\<exists>s. clientset_init NewScheme = Ok s \<and> fake_init NewScheme = Ok s \<and>
     ObjectKinds s EventMesh_type = Ok [GetGroupVersionKind] \<and> scheme_New s GetGroupVersionKind = Ok EventMesh_type \<and>
     ObjectKinds s EventMeshList_type = Ok [WithKind SchemeGroupVersion ''EventMeshList''] \<and>
     scheme_New s (WithKind SchemeGroupVersion ''EventMeshList'') = Ok EventMeshList_type \<and>
     (\<forall>g t. scheme_New s g = Ok t \<longleftrightarrow>
        (if Kind g \<in> {''Status'', ''APIVersions'', ''APIGroupList'', ''APIGroup'', ''APIResourceList''}
         then t = (''k8s.io/apimachinery/pkg/apis/meta/v1'', Kind g)
         else \<exists>gs. ObjectKinds s t = Ok gs \<and> g \<in> set gs))"
proof (rule clientset_scheme)
  fix s
  assume s: "clientset_init NewScheme = Ok s" "fake_init NewScheme = Ok s" "scheme_view s" "scheme_ok s"
  have "set unversioned_kinds = {''Status'', ''APIVersions'', ''APIGroupList'', ''APIGroup'', ''APIResourceList''}"
    by (simp add: unversioned_kinds_def)
  with scheme_New_iff [OF s(4) clientset_fallback [OF s(1)]] s(1-3) show ?thesis
    unfolding scheme_view_def metav1_type_def by (intro exI [of _ s]) simp
qed

end
