(* ===== verification/Typed_Client.thy ===== *)
theory Typed_Client
  imports Scheme_Registry Controller
begin

text \<open>
  The generated client and lister of EventMeshes. The client
  (\<^verbatim>\<open>clientset/versioned/typed/operator/v1alpha1/eventmesh.go\<close>) instantiates client-go's \<^verbatim>\<open>gentype\<close>: its
  verbs are modelled as the requests they build (\<^verbatim>\<open>rest/request.go\<close>), errors of the builder included.
  The lister (\<^verbatim>\<open>pkg/client/listers\<close>) reads an informer's store, a map from keys to meshes. Theorems: no
  two meshes share a URL and no invalid name is sent; the lister finds exactly what the store was given.
\<close>

section \<open>Requests\<close>

text \<open>Of a request the parts that address it; parameters, headers and timeouts are left out.\<close>

record 'b rest_request =
  rq_verb :: string
  rq_namespace :: "string option"
  rq_resource :: string
  rq_name :: string
  rq_subresource :: string
  rq_body :: "'b option"

definition NewRequest :: "string \<Rightarrow> 'b rest_request" where
  "NewRequest verb = \<lparr>rq_verb = verb, rq_namespace = None, rq_resource = '''', rq_name = '''', rq_subresource = '''', rq_body = None\<rparr>"

definition NameMayNotBe :: "string list" where
  "NameMayNotBe = [''.'', ''..'']"

definition NameMayNotContain :: "char list" where
  "NameMayNotContain = [CHR ''/'', CHR 37]"

definition IsValidPathSegmentName :: "string \<Rightarrow> string list" where
  "IsValidPathSegmentName n =
     (if n \<in> set NameMayNotBe then [''may not be '' @ n]
      else map (\<lambda>c. ''may not contain '' @ [c]) (filter (\<lambda>c. c \<in> set n) NameMayNotContain))"

text \<open>\<^verbatim>\<open>path.Join\<close> of elements that \<^verbatim>\<open>path.Clean\<close> leaves alone: empty ones are dropped.\<close>

definition path_Join :: "string list \<Rightarrow> string" where
  "path_Join elems = Join (filter (\<lambda>e. e \<noteq> '''') elems) ''/''"

definition req_Namespace :: "string \<Rightarrow> 'b rest_request \<Rightarrow> 'b rest_request res" where
  "req_Namespace namespace r =
     (if rq_namespace r \<noteq> None then Err (ErrMsg (''namespace already set, cannot change to '' @ quoted namespace))
      else if IsValidPathSegmentName namespace \<noteq> [] then Err (ErrMsg (''invalid namespace '' @ quoted namespace))
      else Ok (r\<lparr>rq_namespace := Some namespace\<rparr>))"

definition req_NamespaceIfScoped :: "string \<Rightarrow> bool \<Rightarrow> 'b rest_request \<Rightarrow> 'b rest_request res" where
  "req_NamespaceIfScoped namespace scoped r = (if scoped then req_Namespace namespace r else Ok r)"

definition req_Resource :: "string \<Rightarrow> 'b rest_request \<Rightarrow> 'b rest_request res" where
  "req_Resource resource r =
     (if rq_resource r \<noteq> '''' then Err (ErrMsg (''resource already set, cannot change to '' @ quoted resource))
      else if IsValidPathSegmentName resource \<noteq> [] then Err (ErrMsg (''invalid resource '' @ quoted resource))
      else Ok (r\<lparr>rq_resource := resource\<rparr>))"

definition req_Name :: "string \<Rightarrow> 'b rest_request \<Rightarrow> 'b rest_request res" where
  "req_Name resourceName r =
     (if resourceName = '''' then Err (ErrMsg ''resource name may not be empty'')
      else if rq_name r \<noteq> '''' then Err (ErrMsg (''resource name already set, cannot change to '' @ quoted resourceName))
      else if IsValidPathSegmentName resourceName \<noteq> [] then Err (ErrMsg (''invalid resource name '' @ quoted resourceName))
      else Ok (r\<lparr>rq_name := resourceName\<rparr>))"

definition req_SubResource :: "string list \<Rightarrow> 'b rest_request \<Rightarrow> 'b rest_request res" where
  "req_SubResource subresources r =
     (if rq_subresource r \<noteq> '''' then Err (ErrMsg ''subresource already set'')
      else if list_ex (\<lambda>s. IsValidPathSegmentName s \<noteq> []) subresources then Err (ErrMsg ''invalid subresource'')
      else Ok (r\<lparr>rq_subresource := path_Join subresources\<rparr>))"

text \<open>The body is kept as the value that is sent; encoding it, which can fail, is the codec's part.\<close>

definition req_Body :: "'b \<Rightarrow> 'b rest_request \<Rightarrow> 'b rest_request res" where
  "req_Body b r = Ok (r\<lparr>rq_body := Some b\<rparr>)"

text \<open>
  The path of \<^verbatim>\<open>URL\<close>; \<open>pathPrefix\<close> is the request's field of that name. A request here has no subpath and no
  query parameters of its own.
\<close>

definition req_URL :: "(string \<Rightarrow> string) \<Rightarrow> string \<Rightarrow> 'b rest_request \<Rightarrow> string" where
  "req_URL lower pathPrefix r =
     (let p1 = (case rq_namespace r of
            Some ns \<Rightarrow> if ns \<noteq> '''' then path_Join [pathPrefix, ''namespaces'', ns] else pathPrefix
          | None \<Rightarrow> pathPrefix);
          p2 = (if rq_resource r \<noteq> '''' then path_Join [p1, ToLower lower (rq_resource r)] else p1)
      in if rq_name r \<noteq> '''' \<or> rq_subresource r \<noteq> '''' then path_Join [p2, rq_name r, rq_subresource r] else p2)"

section \<open>The client\<close>

text \<open>What the verbs send: the mesh, delete options, or the data of a patch.\<close>

datatype mesh_body = MeshBody event_mesh | DeleteOptionsBody | PatchBody string

record typed_client =
  tc_resource :: string
  tc_namespace :: string

definition newEventMeshes :: "string \<Rightarrow> typed_client" where
  "newEventMeshes namespace = \<lparr>tc_resource = ''eventmeshes'', tc_namespace = namespace\<rparr>"

definition scoped_request :: "typed_client \<Rightarrow> string \<Rightarrow> mesh_body rest_request res" where
  "scoped_request c verb = bind_res (req_NamespaceIfScoped (tc_namespace c) (tc_namespace c \<noteq> '''') (NewRequest verb)) (req_Resource (tc_resource c))"

definition client_get :: "typed_client \<Rightarrow> string \<Rightarrow> mesh_body rest_request res" where
  "client_get c n = bind_res (scoped_request c ''GET'') (req_Name n)"

definition client_list :: "typed_client \<Rightarrow> mesh_body rest_request res" where
  "client_list c = scoped_request c ''GET''"

definition client_watch :: "typed_client \<Rightarrow> mesh_body rest_request res" where
  "client_watch c = scoped_request c ''GET''"

definition client_create :: "typed_client \<Rightarrow> event_mesh \<Rightarrow> mesh_body rest_request res" where
  "client_create c em = bind_res (scoped_request c ''POST'') (req_Body (MeshBody em))"

definition client_update :: "typed_client \<Rightarrow> event_mesh \<Rightarrow> mesh_body rest_request res" where
  "client_update c em = bind_res (bind_res (scoped_request c ''PUT'') (req_Name (em_Name em))) (req_Body (MeshBody em))"

definition client_updateStatus :: "typed_client \<Rightarrow> event_mesh \<Rightarrow> mesh_body rest_request res" where
  "client_updateStatus c em =
     bind_res (bind_res (bind_res (scoped_request c ''PUT'') (req_Name (em_Name em))) (req_SubResource [''status''])) (req_Body (MeshBody em))"

definition client_delete :: "typed_client \<Rightarrow> string \<Rightarrow> mesh_body rest_request res" where
  "client_delete c n = bind_res (bind_res (scoped_request c ''DELETE'') (req_Name n)) (req_Body DeleteOptionsBody)"

definition client_deleteCollection :: "typed_client \<Rightarrow> mesh_body rest_request res" where
  "client_deleteCollection c = bind_res (scoped_request c ''DELETE'') (req_Body DeleteOptionsBody)"

definition client_patch :: "typed_client \<Rightarrow> string \<Rightarrow> string \<Rightarrow> string list \<Rightarrow> mesh_body rest_request res" where
  "client_patch c n data subresources =
     bind_res (bind_res (bind_res (scoped_request c ''PATCH'') (req_Name n)) (req_SubResource subresources)) (req_Body (PatchBody data))"

section \<open>URLs\<close>

definition valid_segment :: "string \<Rightarrow> bool" where
  "valid_segment n \<longleftrightarrow> IsValidPathSegmentName n = []"

lemma valid_segment_iff: "valid_segment n \<longleftrightarrow> n \<noteq> ''.'' \<and> n \<noteq> ''..'' \<and> CHR ''/'' \<notin> set n \<and> CHR 37 \<notin> set n"
  by (auto simp: valid_segment_def IsValidPathSegmentName_def NameMayNotBe_def NameMayNotContain_def)

text \<open>
  \<^verbatim>\<open>NewRequest\<close> makes the prefix of the base URL's path and the versioned API path. This is its value for a
  server that is addressed without a path, as an API server is; behind a proxy that serves it under a
  path, that path comes first in every request alike.
\<close>

definition api_prefix :: string where
  "api_prefix = ''/apis/operator.knative.dev/v1alpha1''"

text \<open>The path of the meshes of a namespace, or of all namespaces.\<close>

definition meshes_path :: "string \<Rightarrow> string" where
  "meshes_path ns = api_prefix @ (if ns = '''' then '''' else ''/namespaces/'' @ ns) @ ''/eventmeshes''"

text \<open>Where a request goes; \<open>None\<close> when building it failed and nothing is sent.\<close>

definition sent_url :: "(string \<Rightarrow> string) \<Rightarrow> 'b rest_request res \<Rightarrow> string option" where
  "sent_url lower q = (case q of Ok r \<Rightarrow> Some (req_URL lower api_prefix r) | _ \<Rightarrow> None)"

lemma eventmeshes_valid: "IsValidPathSegmentName ''eventmeshes'' = []" "IsValidPathSegmentName ''status'' = []"
  "ToLower lower ''eventmeshes'' = ''eventmeshes''"
  by code_simp+

lemma scoped_request_mesh:
  "scoped_request (newEventMeshes ns) verb =
     (if ns \<noteq> '''' \<and> \<not> valid_segment ns then Err (ErrMsg (''invalid namespace '' @ quoted ns))
      else Ok ((NewRequest verb)\<lparr>rq_namespace := if ns = '''' then None else Some ns, rq_resource := ''eventmeshes''\<rparr>))"
  by (simp add: scoped_request_def newEventMeshes_def req_NamespaceIfScoped_def req_Namespace_def req_Resource_def NewRequest_def
      eventmeshes_valid valid_segment_def)

lemma mesh_URL:
  assumes "rq_namespace r = (if ns = '''' then None else Some ns)" "rq_resource r = ''eventmeshes''"
  shows "req_URL lower api_prefix r =
     meshes_path ns @ (if rq_name r = '''' then '''' else ''/'' @ rq_name r) @ (if rq_subresource r = '''' then '''' else ''/'' @ rq_subresource r)"
  unfolding req_URL_def path_Join_def Let_def assms by (simp add: eventmeshes_valid meshes_path_def api_prefix_def)

text \<open>
  Claim C32. The requests of the generated client: for valid names the verbs that address one mesh use its path,
  \<^verbatim>\<open>UpdateStatus\<close> the path of its status, and the others the path of the collection; a name that is
  empty or not one segment of a path is refused before anything is sent, so no request can leave the
  collection it was made for.
\<close>

theorem typed_client_requests:
  assumes "ns = '''' \<or> valid_segment ns" "c = newEventMeshes ns"
  shows "sent_url lower (client_list c) = Some (meshes_path ns) \<and> sent_url lower (client_create c em) = Some (meshes_path ns) \<and>
    sent_url lower (client_deleteCollection c) = Some (meshes_path ns) \<and>
    (if n \<noteq> '''' \<and> valid_segment n then
       sent_url lower (client_get c n) = Some (meshes_path ns @ ''/'' @ n) \<and>
       sent_url lower (client_delete c n) = Some (meshes_path ns @ ''/'' @ n) \<and>
       sent_url lower (client_update c (em\<lparr>em_Name := n\<rparr>)) = Some (meshes_path ns @ ''/'' @ n) \<and>
       sent_url lower (client_updateStatus c (em\<lparr>em_Name := n\<rparr>)) = Some (meshes_path ns @ ''/'' @ n @ ''/status'') \<and>
       sent_url lower (client_patch c n data []) = Some (meshes_path ns @ ''/'' @ n)
     else sent_url lower (client_get c n) = None \<and> sent_url lower (client_delete c n) = None \<and>
       sent_url lower (client_update c (em\<lparr>em_Name := n\<rparr>)) = None \<and>
       sent_url lower (client_updateStatus c (em\<lparr>em_Name := n\<rparr>)) = None \<and> sent_url lower (client_patch c n data subs) = None)"
proof -
  let ?b = "\<lambda>verb. (NewRequest verb)\<lparr>rq_namespace := if ns = '''' then None else Some ns, rq_resource := ''eventmeshes''\<rparr>"
  have s: "scoped_request c verb = Ok (?b verb)" for verb using assms by (auto simp: scoped_request_mesh)
  have nm: "req_Name n (?b verb) = (if n \<noteq> '''' \<and> valid_segment n then Ok ((?b verb)\<lparr>rq_name := n\<rparr>)
      else if n = '''' then Err (ErrMsg ''resource name may not be empty'') else Err (ErrMsg (''invalid resource name '' @ quoted n)))" for verb
    by (simp add: req_Name_def NewRequest_def valid_segment_def)
  have sub: "req_SubResource [''status''] ((?b verb)\<lparr>rq_name := n\<rparr>) = Ok ((?b verb)\<lparr>rq_name := n, rq_subresource := ''status''\<rparr>)"
    "req_SubResource [] ((?b verb)\<lparr>rq_name := n\<rparr>) = Ok ((?b verb)\<lparr>rq_name := n, rq_subresource := ''''\<rparr>)" for verb
    by (simp_all add: req_SubResource_def eventmeshes_valid path_Join_def NewRequest_def)
  note d = client_list_def client_create_def client_deleteCollection_def client_get_def client_delete_def client_update_def
    client_updateStatus_def client_patch_def req_Body_def
  show ?thesis
  proof (cases "n \<noteq> '''' \<and> valid_segment n")
    case True
    then show ?thesis unfolding d s bind_res.simps by (simp add: sent_url_def nm sub mesh_URL [where ns = ns]) (simp add: NewRequest_def)
  next
    case False
    then show ?thesis unfolding d s bind_res.simps by (simp add: sent_url_def nm mesh_URL [where ns = ns]) (auto simp: NewRequest_def)
  qed
qed

lemma meshes_path_inj:
  assumes "CHR ''/'' \<notin> set ns" "CHR ''/'' \<notin> set ns'" "CHR ''/'' \<notin> set n" "CHR ''/'' \<notin> set n'"
    and "meshes_path ns @ ''/'' @ n = meshes_path ns' @ ''/'' @ n'"
  shows "ns = ns' \<and> n = n'"
proof -
  have split: "Split (CHR ''/'') (a @ CHR ''/'' # b) = Split (CHR ''/'') a @ Split (CHR ''/'') b" for a b
    by (induction a) (auto split: list.split)
  have "Split (CHR ''/'') (meshes_path ns @ ''/'' @ n) = Split (CHR ''/'') (meshes_path ns' @ ''/'' @ n')" using assms(5) by simp
  then show ?thesis
    using assms(1-4) by (auto simp: meshes_path_def api_prefix_def split Split_no_delim split: if_splits)
qed

theorem typed_client_requests_witness:
  "valid_segment ''knative-eventing'' \<and> sent_url id (client_get (newEventMeshes ''knative-eventing'') ''mesh'') =
    Some ''/apis/operator.knative.dev/v1alpha1/namespaces/knative-eventing/eventmeshes/mesh''"
proof -
  have v: "valid_segment ''knative-eventing''" "valid_segment ''mesh''" by code_simp+
  from typed_client_requests [where lower = id and ns = "''knative-eventing''" and n = "''mesh''", OF disjI2 [OF v(1)] refl] v show ?thesis
    by (simp add: meshes_path_def api_prefix_def)
qed


section \<open>The lister\<close>

text \<open>
  An informer's store: meshes under their keys, in the order in which \<^verbatim>\<open>List\<close> returns them. Its
  namespace index selects by the namespace of the stored mesh. Labels are not part of the modelled mesh:
  a selector is what it decides for a mesh.
\<close>

type_synonym mesh_store = "(string \<times> event_mesh) list"

definition MetaNamespaceKeyFunc :: "event_mesh \<Rightarrow> string" where
  "MetaNamespaceKeyFunc em = (if em_Namespace em \<noteq> '''' then em_Namespace em @ ''/'' @ em_Name em else em_Name em)"

definition store_Update :: "event_mesh \<Rightarrow> mesh_store \<Rightarrow> mesh_store" where
  "store_Update em st = AList.update (MetaNamespaceKeyFunc em) em st"

definition store_Delete :: "event_mesh \<Rightarrow> mesh_store \<Rightarrow> mesh_store" where
  "store_Delete em st = AList.delete (MetaNamespaceKeyFunc em) st"

record resource_indexer =
  rx_indexer :: mesh_store
  rx_resource :: "string \<times> string"
  rx_namespace :: string

definition GroupResource_String :: "string \<times> string \<Rightarrow> string" where
  "GroupResource_String gr = (if fst gr = '''' then snd gr else snd gr @ ''.'' @ fst gr)"

definition NewNotFound :: "string \<times> string \<Rightarrow> string \<Rightarrow> go_error" where
  "NewNotFound gr n = APINotFound (GroupResource_String gr @ '' '' @ quoted n)"

definition NewEventMeshLister :: "mesh_store \<Rightarrow> resource_indexer" where
  "NewEventMeshLister indexer = \<lparr>rx_indexer = indexer, rx_resource = Resource ''eventmesh'', rx_namespace = ''''\<rparr>"

definition lister_EventMeshes :: "resource_indexer \<Rightarrow> string \<Rightarrow> resource_indexer" where
  "lister_EventMeshes l namespace = \<lparr>rx_indexer = rx_indexer l, rx_resource = rx_resource l, rx_namespace = namespace\<rparr>"

definition lister_Get :: "resource_indexer \<Rightarrow> string \<Rightarrow> go_error + event_mesh" where
  "lister_Get l n =
     (let key = (if rx_namespace l = '''' then n else rx_namespace l @ ''/'' @ n) in
      case map_of (rx_indexer l) key of
        None \<Rightarrow> Inl (NewNotFound (rx_resource l) n)
      | Some em \<Rightarrow> Inr em)"

text \<open>\<open>selectAll\<close>: the selector is empty and not asked.\<close>

definition ListAll :: "mesh_store \<Rightarrow> bool \<Rightarrow> (event_mesh \<Rightarrow> bool) \<Rightarrow> event_mesh list" where
  "ListAll st selectAll matches = filter (\<lambda>em. selectAll \<or> matches em) (map snd st)"

definition ListAllByNamespace :: "mesh_store \<Rightarrow> string \<Rightarrow> bool \<Rightarrow> (event_mesh \<Rightarrow> bool) \<Rightarrow> event_mesh list" where
  "ListAllByNamespace st namespace selectAll matches =
     (if namespace = '''' then ListAll st selectAll matches
      else filter (\<lambda>em. selectAll \<or> matches em) (filter (\<lambda>em. em_Namespace em = namespace) (map snd st)))"

definition lister_List :: "resource_indexer \<Rightarrow> bool \<Rightarrow> (event_mesh \<Rightarrow> bool) \<Rightarrow> event_mesh list" where
  "lister_List l selectAll matches = ListAllByNamespace (rx_indexer l) (rx_namespace l) selectAll matches"

section \<open>What the lister finds\<close>

text \<open>The changes of a store, and the last mesh of a namespace and name.\<close>

datatype store_op = StorePut event_mesh | StoreRemove event_mesh

fun store_op_mesh :: "store_op \<Rightarrow> event_mesh" where
  "store_op_mesh (StorePut em) = em"
| "store_op_mesh (StoreRemove em) = em"

fun run_store :: "store_op list \<Rightarrow> mesh_store \<Rightarrow> mesh_store" where
  "run_store [] st = st"
| "run_store (StorePut em # ops) st = run_store ops (store_Update em st)"
| "run_store (StoreRemove em # ops) st = run_store ops (store_Delete em st)"

fun last_mesh :: "string \<Rightarrow> string \<Rightarrow> store_op list \<Rightarrow> event_mesh option \<Rightarrow> event_mesh option" where
  "last_mesh ns n [] m = m"
| "last_mesh ns n (StorePut em # ops) m = last_mesh ns n ops (if mesh_key em = (ns, n) then Some em else m)"
| "last_mesh ns n (StoreRemove em # ops) m = last_mesh ns n ops (if mesh_key em = (ns, n) then None else m)"

definition slashless :: "event_mesh \<Rightarrow> bool" where
  "slashless em \<longleftrightarrow> CHR ''/'' \<notin> set (em_Namespace em) \<and> CHR ''/'' \<notin> set (em_Name em)"

definition lookup_key :: "string \<Rightarrow> string \<Rightarrow> string" where
  "lookup_key ns n = (if ns = '''' then n else ns @ ''/'' @ n)"

lemma lookup_key_safeKey: "lookup_key ns n = safeKey (ns, n)"
  by (simp add: lookup_key_def safeKey_def)

lemma store_key_inj:
  assumes "slashless em" "CHR ''/'' \<notin> set ns" "CHR ''/'' \<notin> set n"
  shows "MetaNamespaceKeyFunc em = lookup_key ns n \<longleftrightarrow> mesh_key em = (ns, n)"
proof
  assume eq: "MetaNamespaceKeyFunc em = lookup_key ns n"
  have "Split (CHR ''/'') (MetaNamespaceKeyFunc em) = (if em_Namespace em = '''' then [em_Name em] else [em_Namespace em, em_Name em])"
    using assms(1) by (simp add: MetaNamespaceKeyFunc_def slashless_def Split_no_delim Split_one_delim)
  moreover have "Split (CHR ''/'') (lookup_key ns n) = (if ns = '''' then [n] else [ns, n])"
    using assms(2,3) by (simp add: lookup_key_def Split_no_delim Split_one_delim)
  ultimately show "mesh_key em = (ns, n)" using eq by (auto simp: mesh_key_def split: if_splits)
qed (auto simp: MetaNamespaceKeyFunc_def lookup_key_def mesh_key_def)

lemma run_store_lookup:
  assumes "\<forall>op\<in>set ops. slashless (store_op_mesh op)" "CHR ''/'' \<notin> set ns" "CHR ''/'' \<notin> set n"
  shows "map_of (run_store ops st) (lookup_key ns n) = last_mesh ns n ops (map_of st (lookup_key ns n))"
  using assms
proof (induction ops arbitrary: st)
  case (Cons op ops)
  have inj: "MetaNamespaceKeyFunc (store_op_mesh op) = lookup_key ns n \<longleftrightarrow> mesh_key (store_op_mesh op) = (ns, n)"
    by (rule store_key_inj) (use Cons.prems in auto)
  show ?case
  proof (cases op)
    case (StorePut em)
    then show ?thesis using Cons inj by (auto simp: store_Update_def map_of_update)
  next
    case (StoreRemove em)
    then show ?thesis using Cons inj by (auto simp: store_Delete_def delete_conv')
  qed
qed simp

definition store_ok :: "mesh_store \<Rightarrow> bool" where
  "store_ok st \<longleftrightarrow> distinct (map fst st) \<and> (\<forall>(k, em)\<in>set st. k = MetaNamespaceKeyFunc em)"

lemma set_update_subset: "set (AList.update k v al) \<subseteq> insert (k, v) (set al)"
  by (induction al) auto

lemma run_store_ok: "store_ok st \<Longrightarrow> store_ok (run_store ops st)"
proof (induction ops st rule: run_store.induct)
  case (2 em ops st)
  have "store_ok (store_Update em st)"
    using 2(2) set_update_subset [of "MetaNamespaceKeyFunc em" em st]
    by (auto simp: store_ok_def store_Update_def distinct_update)
  then show ?case using 2 by simp
next
  case (3 em ops st)
  have "store_ok (store_Delete em st)"
    using 3(2) distinct_delete [of st "MetaNamespaceKeyFunc em"] by (auto simp: store_ok_def store_Delete_def AList.delete_eq)
  then show ?case using 3 by simp
qed simp

lemma run_store_slashless:
  assumes "\<forall>op\<in>set ops. slashless (store_op_mesh op)" "em \<in> snd ` set (run_store ops [])"
  shows "slashless em"
proof -
  have "snd ` set (run_store ops st) \<subseteq> snd ` set st \<union> store_op_mesh ` set ops" for st
  proof (induction ops st rule: run_store.induct)
    case (2 em ops st)
    have "snd ` set (store_Update em st) \<subseteq> insert em (snd ` set st)"
      using set_update_subset [of "MetaNamespaceKeyFunc em" em st] by (force simp: store_Update_def)
    then show ?case using 2 by (simp, blast)
  next
    case (3 em ops st)
    have "snd ` set (store_Delete em st) \<subseteq> snd ` set st" by (auto simp: store_Delete_def AList.delete_eq)
    then show ?case using 3 by (simp, blast)
  qed simp
  from this [of "[]"] assms show ?thesis by auto
qed

lemma lister_Get_last:
  assumes "\<forall>op\<in>set ops. slashless (store_op_mesh op)" "CHR ''/'' \<notin> set ns" "CHR ''/'' \<notin> set n"
  shows "lister_Get (lister_EventMeshes (NewEventMeshLister (run_store ops [])) ns) n = (case last_mesh ns n ops None of
        Some em \<Rightarrow> Inr em
      | None \<Rightarrow> Inl (APINotFound (''eventmesh.operator.knative.dev '' @ quoted n)))"
proof -
  have "map_of (run_store ops []) (lookup_key ns n) = last_mesh ns n ops None"
    using run_store_lookup [OF assms, of "[]"] by simp
  then show ?thesis
    by (simp add: lister_Get_def lister_EventMeshes_def NewEventMeshLister_def lookup_key_def Let_def NewNotFound_def
      GroupResource_String_def Resource_def SchemeGroupVersion_def split: option.split if_splits)
qed

text \<open>
  Claim C18. The generated lister after any updates and deletions of its store, for names without a slash: \<^verbatim>\<open>Get\<close>
  returns the mesh of that namespace and name that was stored last and not deleted since, and a
  NotFound error for that name otherwise; \<^verbatim>\<open>List\<close> returns the stored meshes of the namespace, each
  once, that the selector matches.
\<close>

theorem lister_reads_store:
  assumes "\<forall>op\<in>set ops. slashless (store_op_mesh op)" "CHR ''/'' \<notin> set ns" "CHR ''/'' \<notin> set n"
    and "l = lister_EventMeshes (NewEventMeshLister (run_store ops [])) ns"
  shows "lister_Get l n = (case last_mesh ns n ops None of
        Some em \<Rightarrow> Inr em
      | None \<Rightarrow> Inl (APINotFound (''eventmesh.operator.knative.dev '' @ quoted n))) \<and>
    distinct (map MetaNamespaceKeyFunc (lister_List l all matches)) \<and>
    (ns \<noteq> '''' \<longrightarrow> (\<forall>em. em \<in> set (lister_List l all matches) \<longleftrightarrow>
       em_Namespace em = ns \<and> (all \<or> matches em) \<and> last_mesh ns (em_Name em) ops None = Some em \<and> CHR ''/'' \<notin> set (em_Name em)))"
proof -
  let ?st = "run_store ops []"
  have ok: "store_ok ?st" by (rule run_store_ok) (simp add: store_ok_def)
  have g: "map_of ?st (lookup_key ns m) = last_mesh ns m ops None" if "CHR ''/'' \<notin> set m" for m
    using run_store_lookup [OF assms(1,2) that, of "[]"] by simp
  have get: "lister_Get l n = (case last_mesh ns n ops None of
        Some em \<Rightarrow> Inr em
      | None \<Rightarrow> Inl (APINotFound (''eventmesh.operator.knative.dev '' @ quoted n)))"
    unfolding assms(4) by (rule lister_Get_last [OF assms(1-3)])
  have keys: "map MetaNamespaceKeyFunc (map snd ?st) = map fst ?st"
    using ok by (auto simp: store_ok_def)
  have "distinct (map MetaNamespaceKeyFunc (map snd ?st))" unfolding keys using ok by (simp add: store_ok_def)
  then have d: "distinct (map MetaNamespaceKeyFunc (filter P (map snd ?st)))" for P by (rule distinct_map_filter)
  have list: "lister_List l all matches = filter (\<lambda>em. (all \<or> matches em) \<and> (ns = '''' \<or> em_Namespace em = ns)) (map snd ?st)"
    by (simp add: assms(4) lister_List_def ListAllByNamespace_def ListAll_def lister_EventMeshes_def NewEventMeshLister_def conj_commute)
  have mem: "em \<in> set (map snd ?st) \<longleftrightarrow> last_mesh ns (em_Name em) ops None = Some em \<and> CHR ''/'' \<notin> set (em_Name em)"
    if "em_Namespace em = ns" "ns \<noteq> ''''" for em
  proof -
    have k: "MetaNamespaceKeyFunc em = lookup_key ns (em_Name em)" using that by (simp add: MetaNamespaceKeyFunc_def lookup_key_def)
    have slash: "slashless e" if "e \<in> set (map snd ?st)" for e using run_store_slashless [OF assms(1)] that by auto
    have "em \<in> set (map snd ?st) \<longleftrightarrow> map_of ?st (MetaNamespaceKeyFunc em) = Some em"
      using ok by (auto simp: store_ok_def dest: map_of_SomeD intro!: map_of_is_SomeI intro: rev_image_eqI)
    then show ?thesis using g [of "em_Name em"] slash [of em] by (auto simp: k slashless_def)
  qed
  show ?thesis using get d mem by (auto simp: list)
qed


theorem lister_reads_store_witness:
  "lister_Get (lister_EventMeshes (NewEventMeshLister (run_store [StorePut ready_mesh] [])) ''knative-eventing'') ''mesh'' = Inr ready_mesh \<and>
   ready_mesh \<in> set (lister_List (lister_EventMeshes (NewEventMeshLister (run_store [StorePut ready_mesh] [])) ''knative-eventing'') True (\<lambda>_. False))"
proof -
  have m: "em_Namespace ready_mesh = ''knative-eventing''" "em_Name ready_mesh = ''mesh''" by code_simp+
  have a: "\<forall>op\<in>set [StorePut ready_mesh]. slashless (store_op_mesh op)" "CHR ''/'' \<notin> set ''knative-eventing''" "CHR ''/'' \<notin> set ''mesh''"
    by (simp_all add: slashless_def m)
  have l: "last_mesh ''knative-eventing'' ''mesh'' [StorePut ready_mesh] None = Some ready_mesh" by (simp add: mesh_key_def m)
  show ?thesis using lister_reads_store [OF a refl, of True "\<lambda>_. False"] by (simp add: l m del: last_mesh.simps)
qed

text \<open>
  Claim C24. From the event to the run, for every mesh event: an addition, an update with its new object, and a
  deletion with the object or with a tombstone. The handler enqueues one key; after the worker made it
  a string and the reconciler split it again, the lister is asked for the namespace and the name of
  the event's mesh, and answers with the mesh that the informer's store received last under that name,
  or with NotFound when it was deleted since. So an added or updated mesh that is still in the store
  is the one the run reads, and the run after a deletion finds nothing.
\<close>

theorem enqueued_mesh_is_read:
  assumes "\<forall>op\<in>set ops. slashless (store_op_mesh op)" "slashless em" "\<not> q_ShuttingDown q"
    and "ev \<in> {MeshAdded (Obj em), MeshUpdated old (Obj em), MeshDeleted (Obj em), MeshDeleted (Tombstone ky em)}"
  shows "\<exists>k ns n. q_pending (HandleAll ev q) = insert k (q_pending q) \<and>
    SplitMetaNamespaceKey (safeKey k) = Some (ns, n) \<and>
    lister_Get (lister_EventMeshes (NewEventMeshLister (run_store ops [])) ns) n =
      (case last_mesh (em_Namespace em) (em_Name em) ops None of
         Some em' \<Rightarrow> Inr em'
       | None \<Rightarrow> Inl (APINotFound (''eventmesh.operator.knative.dev '' @ quoted (em_Name em))))"
proof -
  have s: "CHR ''/'' \<notin> set (em_Namespace em)" "CHR ''/'' \<notin> set (em_Name em)" using assms(2) by (auto simp: slashless_def)
  have "SplitMetaNamespaceKey (safeKey (mesh_key em)) = Some (em_Namespace em, em_Name em)"
    unfolding mesh_key_def by (rule split_safeKey [OF s])
  moreover have "HandleAll ev q = q_Add (mesh_key em) q"
    using assms(4) by (auto simp: Enqueue_def DeletionHandlingAccessor_def)
  ultimately show ?thesis using lister_Get_last [OF assms(1) s] q_Add_pending [OF assms(3)] by metis
qed

text \<open>An update and then the deletion of the same mesh, seen as a tombstone.\<close>

theorem enqueued_mesh_is_read_witness:
  "(\<exists>k ns n. q_pending (HandleAll (MeshUpdated (Obj sample_mesh_plain) (Obj ready_mesh)) (newTwoLaneWorkQueue 0)) = {k} \<and>
    SplitMetaNamespaceKey (safeKey k) = Some (ns, n) \<and>
    lister_Get (lister_EventMeshes (NewEventMeshLister (run_store [StorePut sample_mesh_plain, StorePut ready_mesh] [])) ns) n = Inr ready_mesh) \<and>
   (\<exists>k ns n. q_pending (HandleAll (MeshDeleted (Tombstone ''knative-eventing/mesh'' ready_mesh)) (newTwoLaneWorkQueue 0)) = {k} \<and>
    SplitMetaNamespaceKey (safeKey k) = Some (ns, n) \<and>
    lister_Get (lister_EventMeshes (NewEventMeshLister (run_store [StorePut ready_mesh, StoreRemove ready_mesh] [])) ns) n =
      Inl (APINotFound (''eventmesh.operator.knative.dev '' @ quoted ''mesh'')))"
proof
  have m: "em_Namespace ready_mesh = ''knative-eventing''" "em_Name ready_mesh = ''mesh''"
    "em_Namespace sample_mesh_plain = ''knative-eventing''" "em_Name sample_mesh_plain = ''mesh''" by code_simp+
  have a: "\<forall>op\<in>set [StorePut sample_mesh_plain, StorePut ready_mesh]. slashless (store_op_mesh op)" "slashless ready_mesh"
    "\<forall>op\<in>set [StorePut ready_mesh, StoreRemove ready_mesh]. slashless (store_op_mesh op)"
    by (simp_all add: slashless_def m)
  have l: "last_mesh (em_Namespace ready_mesh) (em_Name ready_mesh) [StorePut sample_mesh_plain, StorePut ready_mesh] None = Some ready_mesh"
    "last_mesh (em_Namespace ready_mesh) (em_Name ready_mesh) [StorePut ready_mesh, StoreRemove ready_mesh] None = None"
    by (simp_all add: m mesh_key_def)
  show "\<exists>k ns n. q_pending (HandleAll (MeshUpdated (Obj sample_mesh_plain) (Obj ready_mesh)) (newTwoLaneWorkQueue 0)) = {k} \<and>
    SplitMetaNamespaceKey (safeKey k) = Some (ns, n) \<and>
    lister_Get (lister_EventMeshes (NewEventMeshLister (run_store [StorePut sample_mesh_plain, StorePut ready_mesh] [])) ns) n = Inr ready_mesh"
    using enqueued_mesh_is_read [OF a(1,2) new_queue(1), OF insertI2 [OF insertI1]]
    unfolding new_queue(2) l(1) option.case .
  show "\<exists>k ns n. q_pending (HandleAll (MeshDeleted (Tombstone ''knative-eventing/mesh'' ready_mesh)) (newTwoLaneWorkQueue 0)) = {k} \<and>
    SplitMetaNamespaceKey (safeKey k) = Some (ns, n) \<and>
    lister_Get (lister_EventMeshes (NewEventMeshLister (run_store [StorePut ready_mesh, StoreRemove ready_mesh] [])) ns) n =
      Inl (APINotFound (''eventmesh.operator.knative.dev '' @ quoted ''mesh''))"
    using enqueued_mesh_is_read [OF a(3,2) new_queue(1),
        OF insertI2 [OF insertI2 [OF insertI2 [OF singletonI]]]]
    unfolding new_queue(2) l(2) option.case unfolding m(2) .
qed

end
