(* ===== verification/Fake_Client.thy ===== *)
theory Fake_Client
  imports Typed_Client Informer_Factory
begin

text \<open>
  The test doubles: the fake client set (\<^verbatim>\<open>clientset/versioned/fake\<close>, \<^verbatim>\<open>typed/operator/v1alpha1/fake\<close>) over
  client-go's object tracker and reaction chain (\<^verbatim>\<open>testing/fixture.go\<close>, \<^verbatim>\<open>testing/fake.go\<close>,
  \<^verbatim>\<open>gentype/fake.go\<close>), and the injection fakes. Theorems: for what goes through its own verbs the fake client is
  a map from names to meshes; but the objects that \<^verbatim>\<open>NewSimpleClientset\<close> is given are stored under the
  resource \<^verbatim>\<open>eventmeshs\<close> and found by none of its verbs.
\<close>

section \<open>Objects and resources\<close>

text \<open>
  A runtime object: a mesh, a list of meshes, or an object of another Go type, with its namespace and
  name if it has object metadata. The other objects are no lists.
\<close>

datatype runtime_object = MeshObject event_mesh | MeshListObject "event_mesh list" | OtherObject go_type "(string \<times> string) option"

fun object_type :: "runtime_object \<Rightarrow> go_type" where
  "object_type (MeshObject _) = EventMesh_type"
| "object_type (MeshListObject _) = EventMeshList_type"
| "object_type (OtherObject t _) = t"

text \<open>\<^verbatim>\<open>meta.Accessor\<close>, by the namespace and the name it gives access to.\<close>

fun meta_Accessor :: "runtime_object \<Rightarrow> (string \<times> string) res" where
  "meta_Accessor (MeshObject em) = Ok (em_Namespace em, em_Name em)"
| "meta_Accessor (MeshListObject _) = Err (ErrMsg ''object does not implement the Object interfaces'')"
| "meta_Accessor (OtherObject _ (Some m)) = Ok m"
| "meta_Accessor (OtherObject _ None) = Err (ErrMsg ''object does not implement the Object interfaces'')"

fun SetNamespace :: "string \<Rightarrow> runtime_object \<Rightarrow> runtime_object" where
  "SetNamespace ns (MeshObject em) = MeshObject (em\<lparr>em_Namespace := ns\<rparr>)"
| "SetNamespace ns (OtherObject t (Some m)) = OtherObject t (Some (ns, snd m))"
| "SetNamespace ns obj = obj"

definition HasSuffix :: "string \<Rightarrow> string \<Rightarrow> bool" where
  "HasSuffix s suf = HasPrefix (rev s) (rev suf)"

definition with_resource :: "gvk \<Rightarrow> string \<Rightarrow> gvr" where
  "with_resource g r = \<lparr>gvr_Group = Group g, gvr_Version = Version g, gvr_Resource = r\<rparr>"

text \<open>The plural of the guess.\<close>

definition UnsafeGuessKindToResource :: "(string \<Rightarrow> string) \<Rightarrow> gvk \<Rightarrow> gvr" where
  "UnsafeGuessKindToResource lower g =
     (if Kind g = '''' then \<lparr>gvr_Group = '''', gvr_Version = '''', gvr_Resource = ''''\<rparr>
      else let singularName = ToLower lower (Kind g) in
        if HasSuffix singularName ''endpoints'' then with_resource g singularName
        else if last singularName = CHR ''s'' then with_resource g (singularName @ ''es'')
        else if last singularName = CHR ''y'' then with_resource g (butlast singularName @ ''ies'')
        else with_resource g (singularName @ ''s''))"

definition gvr_GroupResource :: "gvr \<Rightarrow> string \<times> string" where
  "gvr_GroupResource r = (gvr_Group r, gvr_Resource r)"

section \<open>The object tracker\<close>

datatype watch_event = WatchAdded runtime_object | WatchModified runtime_object | WatchDeleted runtime_object

text \<open>
  Watchers are numbered; \<open>tr_sent\<close> records what was sent to which. That sending to a watcher with a
  hundred unread events panics is left out.
\<close>

record tracker =
  tr_scheme :: scheme
  tr_objects :: "(gvr \<times> ((string \<times> string) \<times> runtime_object) list) list"
  tr_watchers :: "((gvr \<times> string) \<times> nat list) list"
  tr_watches :: nat
  tr_sent :: "(nat \<times> watch_event) list"

definition NewObjectTracker :: "scheme \<Rightarrow> tracker" where
  "NewObjectTracker s = \<lparr>tr_scheme = s, tr_objects = [], tr_watchers = [], tr_watches = 0, tr_sent = []\<rparr>"

definition objects_of :: "gvr \<Rightarrow> tracker \<Rightarrow> ((string \<times> string) \<times> runtime_object) list" where
  "objects_of r t = (case map_of (tr_objects t) r of None \<Rightarrow> [] | Some objs \<Rightarrow> objs)"

definition watchers_of :: "gvr \<Rightarrow> string \<Rightarrow> tracker \<Rightarrow> nat list" where
  "watchers_of r ns t = (case map_of (tr_watchers t) (r, ns) of None \<Rightarrow> [] | Some ws \<Rightarrow> ws)"

definition getWatches :: "gvr \<Rightarrow> string \<Rightarrow> tracker \<Rightarrow> nat list" where
  "getWatches r ns t = watchers_of r ns t @ (if ns \<noteq> '''' then watchers_of r '''' t else [])"

definition send_event :: "nat list \<Rightarrow> watch_event \<Rightarrow> tracker \<Rightarrow> tracker" where
  "send_event ws ev t = t\<lparr>tr_sent := tr_sent t @ map (\<lambda>w. (w, ev)) ws\<rparr>"

definition put_objects :: "gvr \<Rightarrow> ((string \<times> string) \<times> runtime_object) list \<Rightarrow> tracker \<Rightarrow> tracker" where
  "put_objects r objs t = t\<lparr>tr_objects := AList.update r objs (tr_objects t)\<rparr>"

definition NewBadRequest :: "string \<Rightarrow> go_error" where
  "NewBadRequest m = APIError m"

definition NewAlreadyExists :: "string \<times> string \<Rightarrow> string \<Rightarrow> go_error" where
  "NewAlreadyExists gr n = APIError (GroupResource_String gr @ '' '' @ quoted n @ '' already exists'')"

definition tracker_add :: "gvr \<Rightarrow> runtime_object \<Rightarrow> string \<Rightarrow> bool \<Rightarrow> tracker \<Rightarrow> go_error option \<times> tracker" where
  "tracker_add r obj ns replaceExisting t = (case meta_Accessor obj of
       Err e \<Rightarrow> (Some e, t)
     | Panic p \<Rightarrow> (Some (ErrMsg p), t)
     | Ok (ons, n) \<Rightarrow>
         (let obj' = (if ons = '''' then SetNamespace ns obj else obj); ns' = (if ons = '''' then ns else ons) in
          if ns \<noteq> ns' then
            (Some (NewBadRequest (''request namespace does not match object namespace, request: '' @ quoted ns @ '' object: '' @ quoted ns')), t)
          else let t1 = put_objects r (objects_of r t) t in
            if map_of (objects_of r t) (ns', n) \<noteq> None then
              if replaceExisting then
                (None, put_objects r (AList.update (ns', n) obj' (objects_of r t)) (send_event (getWatches r ns t) (WatchModified obj') t1))
              else (Some (NewAlreadyExists (gvr_GroupResource r) n), t1)
            else if replaceExisting then (Some (NewNotFound (gvr_GroupResource r) n), t1)
            else (None, send_event (getWatches r ns t) (WatchAdded obj') (put_objects r (AList.update (ns', n) obj' (objects_of r t)) t1))))"

text \<open>A loop over a slice that returns at the first error.\<close>

fun try_all :: "('a \<Rightarrow> 's \<Rightarrow> go_error option \<times> 's) \<Rightarrow> 'a list \<Rightarrow> 's \<Rightarrow> go_error option \<times> 's" where
  "try_all f [] s = (None, s)"
| "try_all f (x # xs) s = (case f x s of (None, s') \<Rightarrow> try_all f xs s' | (Some e, s') \<Rightarrow> (Some e, s'))"

definition add_guessed :: "(string \<Rightarrow> string) \<Rightarrow> runtime_object \<Rightarrow> string \<Rightarrow> gvk \<Rightarrow> tracker \<Rightarrow> go_error option \<times> tracker" where
  "add_guessed lower obj ns g t =
     (let r = UnsafeGuessKindToResource lower g;
          r' = (if gvr_Version r = APIVersionInternal then r\<lparr>gvr_Version := ''''\<rparr> else r)
      in tracker_add r' obj ns False t)"

definition tracker_Add_single :: "(string \<Rightarrow> string) \<Rightarrow> runtime_object \<Rightarrow> tracker \<Rightarrow> go_error option \<times> tracker" where
  "tracker_Add_single lower obj t = (case meta_Accessor obj of
       Err e \<Rightarrow> (Some e, t)
     | Panic p \<Rightarrow> (Some (ErrMsg p), t)
     | Ok (ns, n) \<Rightarrow> (case ObjectKinds (tr_scheme t) (object_type obj) of
           Err e \<Rightarrow> (Some e, t)
         | Panic p \<Rightarrow> (Some (ErrMsg p), t)
         | Ok gvks \<Rightarrow>
             if gvks = [] then (Some (ErrMsg ''no registered kinds''), t)
             else try_all (add_guessed lower obj ns) gvks t))"

text \<open>The items of a list are added one by one.\<close>

fun tracker_Add :: "(string \<Rightarrow> string) \<Rightarrow> runtime_object \<Rightarrow> tracker \<Rightarrow> go_error option \<times> tracker" where
  "tracker_Add lower (MeshListObject items) t = try_all (\<lambda>em. tracker_Add_single lower (MeshObject em)) items t"
| "tracker_Add lower obj t = tracker_Add_single lower obj t"

definition tracker_Get :: "gvr \<Rightarrow> string \<Rightarrow> string \<Rightarrow> tracker \<Rightarrow> go_error + runtime_object" where
  "tracker_Get r ns n t = (case map_of (objects_of r t) (ns, n) of
       None \<Rightarrow> Inl (NewNotFound (gvr_GroupResource r) n)
     | Some obj \<Rightarrow> Inr obj)"

definition tracker_Delete :: "gvr \<Rightarrow> string \<Rightarrow> string \<Rightarrow> tracker \<Rightarrow> go_error option \<times> tracker" where
  "tracker_Delete r ns n t = (case map_of (objects_of r t) (ns, n) of
       None \<Rightarrow> (Some (NewNotFound (gvr_GroupResource r) n), t)
     | Some obj \<Rightarrow> (None, send_event (getWatches r ns t) (WatchDeleted obj) (put_objects r (AList.delete (ns, n) (objects_of r t)) t)))"

definition tracker_Watch :: "gvr \<Rightarrow> string \<Rightarrow> tracker \<Rightarrow> nat \<times> tracker" where
  "tracker_Watch r ns t =
     (tr_watches t, t\<lparr>tr_watchers := AList.update (r, ns) (watchers_of r ns t @ [tr_watches t]) (tr_watchers t), tr_watches := Suc (tr_watches t)\<rparr>)"

text \<open>Go's order of strings, by their bytes.\<close>

fun string_less :: "string \<Rightarrow> string \<Rightarrow> bool" where
  "string_less s [] = False"
| "string_less [] (c # cs) = True"
| "string_less (b # bs) (c # cs) = (if b = c then string_less bs cs else (of_char b :: nat) < of_char c)"

definition key_less :: "string \<times> string \<Rightarrow> string \<times> string \<Rightarrow> bool" where
  "key_less a b = (if fst a \<noteq> fst b then string_less (fst a) (fst b) else string_less (snd a) (snd b))"

definition filterByNamespace :: "((string \<times> string) \<times> runtime_object) list \<Rightarrow> string \<Rightarrow> runtime_object list" where
  "filterByNamespace objs ns = map snd (sort_slice (\<lambda>a b. key_less (fst a) (fst b)) (filter (\<lambda>(k, obj). ns = '''' \<or> fst k = ns) objs))"

text \<open>\<^verbatim>\<open>meta.SetList\<close> on a list of meshes.\<close>

fun mesh_items :: "runtime_object list \<Rightarrow> event_mesh list res" where
  "mesh_items [] = Ok []"
| "mesh_items (MeshObject em # objs) = bind_res (mesh_items objs) (\<lambda>ems. Ok (em # ems))"
| "mesh_items (_ # objs) = Err (ErrMsg ''item[0]: can't assign or convert'')"

definition tracker_List :: "gvr \<Rightarrow> gvk \<Rightarrow> string \<Rightarrow> tracker \<Rightarrow> go_error + runtime_object" where
  "tracker_List r g ns t =
     (let listGVK = g\<lparr>Kind := Kind g @ ''List'', Version := if Version g = '''' then APIVersionInternal else Version g\<rparr> in
      case scheme_New (tr_scheme t) listGVK of
        Err e \<Rightarrow> Inl e
      | Panic p \<Rightarrow> Inl (ErrMsg p)
      | Ok ty \<Rightarrow>
          if ty \<noteq> EventMeshList_type then Inl (ErrMsg (quoted (Kind listGVK) @ '' is not a list type''))
          else (case mesh_items (filterByNamespace (objects_of r t) ns) of
              Ok ems \<Rightarrow> Inr (MeshListObject ems)
            | Err e \<Rightarrow> Inl e
            | Panic p \<Rightarrow> Inl (ErrMsg p)))"

section \<open>Actions and reactions\<close>

datatype action =
    GetAction gvr string string
  | ListAction gvr gvk string
  | CreateAction gvr string string runtime_object
  | UpdateAction gvr string string runtime_object
  | DeleteAction gvr string string
  | DeleteCollectionAction gvr string
  | PatchAction gvr string string string string "string list"
  | WatchAction gvr string

fun action_verb :: "action \<Rightarrow> string" where
  "action_verb (GetAction _ _ _) = ''get''"
| "action_verb (ListAction _ _ _) = ''list''"
| "action_verb (CreateAction _ _ _ _) = ''create''"
| "action_verb (UpdateAction _ _ _ _) = ''update''"
| "action_verb (DeleteAction _ _ _) = ''delete''"
| "action_verb (DeleteCollectionAction _ _) = ''delete-collection''"
| "action_verb (PatchAction _ _ _ _ _ _) = ''patch''"
| "action_verb (WatchAction _ _) = ''watch''"

text \<open>Handled or not, the object or nil, and the error.\<close>

type_synonym reaction = "action \<Rightarrow> tracker \<Rightarrow> (bool \<times> runtime_object option \<times> go_error option) \<times> tracker"

definition answer :: "go_error + runtime_object \<Rightarrow> bool \<times> runtime_object option \<times> go_error option" where
  "answer r = (case r of Inl e \<Rightarrow> (True, None, Some e) | Inr obj \<Rightarrow> (True, Some obj, None))"

text \<open>Adding to the tracker and reading back.\<close>

definition add_and_get :: "gvr \<Rightarrow> string \<Rightarrow> runtime_object \<Rightarrow> bool \<Rightarrow> tracker \<Rightarrow> (bool \<times> runtime_object option \<times> go_error option) \<times> tracker" where
  "add_and_get r ns obj replaceExisting t = (case meta_Accessor obj of
       Err e \<Rightarrow> ((True, None, Some e), t)
     | Panic p \<Rightarrow> ((True, None, Some (ErrMsg p)), t)
     | Ok (_, n) \<Rightarrow> (case tracker_add r obj ns replaceExisting t of
           (Some e, t') \<Rightarrow> ((True, None, Some e), t')
         | (None, t') \<Rightarrow> (answer (tracker_Get r ns n t'), t')))"

text \<open>A create of a subresource updates the object if it has the type of the stored one.\<close>

definition create_subresource :: "gvr \<Rightarrow> string \<Rightarrow> runtime_object \<Rightarrow> tracker \<Rightarrow> (bool \<times> runtime_object option \<times> go_error option) \<times> tracker" where
  "create_subresource r ns obj t = (case meta_Accessor obj of
       Ok (_, n) \<Rightarrow> (case tracker_Get r ns n t of
           Inl e \<Rightarrow> ((True, None, Some e), t)
         | Inr old \<Rightarrow> if object_type old = object_type obj then add_and_get r ns obj True t else ((True, Some obj, None), t))
     | Err e \<Rightarrow> ((True, None, Some e), t)
     | Panic p \<Rightarrow> ((True, None, Some (ErrMsg p)), t))"

text \<open>\<open>patched\<close> applies a patch of a type to an object: the JSON libraries' part.\<close>

definition react_Patch :: "(string \<Rightarrow> string \<Rightarrow> runtime_object \<Rightarrow> runtime_object res) \<Rightarrow> gvr \<Rightarrow> string \<Rightarrow> string \<Rightarrow> string \<Rightarrow> string \<Rightarrow>
    tracker \<Rightarrow> (bool \<times> runtime_object option \<times> go_error option) \<times> tracker" where
  "react_Patch patched r ns n pt data t = (case tracker_Get r ns n t of
       Inl e \<Rightarrow> ((True, None, Some e), t)
     | Inr old \<Rightarrow> (case patched pt data old of
           Err e \<Rightarrow> ((True, None, Some e), t)
         | Panic p \<Rightarrow> ((True, None, Some (ErrMsg p)), t)
         | Ok obj \<Rightarrow> (case tracker_add r obj ns True t of
               (Some e, t') \<Rightarrow> ((True, None, Some e), t')
             | (None, t') \<Rightarrow> ((True, Some obj, None), t'))))"

fun ObjectReaction :: "(string \<Rightarrow> string \<Rightarrow> runtime_object \<Rightarrow> runtime_object res) \<Rightarrow> reaction" where
  "ObjectReaction patched (ListAction r g ns) t = (answer (tracker_List r g ns t), t)"
| "ObjectReaction patched (GetAction r ns n) t = (answer (tracker_Get r ns n t), t)"
| "ObjectReaction patched (CreateAction r sub ns obj) t =
     (if sub = '''' then add_and_get r ns obj False t else create_subresource r ns obj t)"
| "ObjectReaction patched (UpdateAction r sub ns obj) t = add_and_get r ns obj True t"
| "ObjectReaction patched (DeleteAction r ns n) t = (case tracker_Delete r ns n t of (e, t') \<Rightarrow> ((True, None, e), t'))"
| "ObjectReaction patched (PatchAction r ns n pt data subs) t = react_Patch patched r ns n pt data t"
| "ObjectReaction patched _ t = ((False, None, Some (ErrMsg ''no reaction implemented'')), t)"

section \<open>The fake client set\<close>

record reactor =
  rt_Verb :: string
  rt_Resource :: string
  rt_Reaction :: reaction

record fake_clientset =
  fk_actions :: "action list"
  fk_ReactionChain :: "reactor list"
  fk_WatchReactionChain :: "(string \<times> (gvr \<Rightarrow> string \<Rightarrow> tracker \<Rightarrow> nat \<times> tracker)) list"
  fk_tracker :: tracker

fun action_resource :: "action \<Rightarrow> gvr" where
  "action_resource (GetAction r _ _) = r"
| "action_resource (ListAction r _ _) = r"
| "action_resource (CreateAction r _ _ _) = r"
| "action_resource (UpdateAction r _ _ _) = r"
| "action_resource (DeleteAction r _ _) = r"
| "action_resource (DeleteCollectionAction r _) = r"
| "action_resource (PatchAction r _ _ _ _ _) = r"
| "action_resource (WatchAction r _) = r"

fun action_subresource :: "action \<Rightarrow> string" where
  "action_subresource (CreateAction _ sub _ _) = sub"
| "action_subresource (UpdateAction _ sub _ _) = sub"
| "action_subresource (PatchAction _ _ _ _ _ subs) = path_Join subs"
| "action_subresource _ = ''''"

definition resourceCovers :: "string \<Rightarrow> action \<Rightarrow> bool" where
  "resourceCovers resource a \<longleftrightarrow> resource = ''*'' \<or> resource = gvr_Resource (action_resource a) \<or>
     (case SplitN2 (CHR ''/'') resource of
        (res, Some sub) \<Rightarrow> res = gvr_Resource (action_resource a) \<and> sub = action_subresource a
      | _ \<Rightarrow> False)"

definition reactor_Handles :: "reactor \<Rightarrow> action \<Rightarrow> bool" where
  "reactor_Handles r a \<longleftrightarrow> (rt_Verb r = ''*'' \<or> rt_Verb r = action_verb a) \<and> resourceCovers (rt_Resource r) a"

fun react_chain :: "reactor list \<Rightarrow> action \<Rightarrow> runtime_object \<Rightarrow> tracker \<Rightarrow> (runtime_object option \<times> go_error option) \<times> tracker" where
  "react_chain [] a def t = ((Some def, None), t)"
| "react_chain (r # rs) a def t =
     (if \<not> reactor_Handles r a then react_chain rs a def t
      else case rt_Reaction r a t of
        ((handled, ret, err), t') \<Rightarrow> if handled then ((ret, err), t') else react_chain rs a def t')"

definition Invokes :: "action \<Rightarrow> runtime_object \<Rightarrow> fake_clientset \<Rightarrow> (runtime_object option \<times> go_error option) \<times> fake_clientset" where
  "Invokes a def cs = (case react_chain (fk_ReactionChain cs) a def (fk_tracker cs) of
     (ret, t) \<Rightarrow> (ret, cs\<lparr>fk_actions := fk_actions cs @ [a], fk_tracker := t\<rparr>))"

definition AddReactor :: "string \<Rightarrow> string \<Rightarrow> reaction \<Rightarrow> fake_clientset \<Rightarrow> fake_clientset" where
  "AddReactor verb resource react cs =
     cs\<lparr>fk_ReactionChain := fk_ReactionChain cs @ [\<lparr>rt_Verb = verb, rt_Resource = resource, rt_Reaction = react\<rparr>]\<rparr>"

definition AddWatchReactor :: "string \<Rightarrow> (gvr \<Rightarrow> string \<Rightarrow> tracker \<Rightarrow> nat \<times> tracker) \<Rightarrow> fake_clientset \<Rightarrow> fake_clientset" where
  "AddWatchReactor resource react cs = cs\<lparr>fk_WatchReactionChain := fk_WatchReactionChain cs @ [(resource, react)]\<rparr>"

text \<open>\<open>s\<close> is the scheme of the package, \<open>lower\<close> and \<open>patched\<close> are the libraries' parts.\<close>

definition NewSimpleClientset :: "scheme \<Rightarrow> (string \<Rightarrow> string) \<Rightarrow> (string \<Rightarrow> string \<Rightarrow> runtime_object \<Rightarrow> runtime_object res) \<Rightarrow>
    runtime_object list \<Rightarrow> fake_clientset res" where
  "NewSimpleClientset s lower patched objects = (case try_all (tracker_Add lower) objects (NewObjectTracker s) of
       (Some e, _) \<Rightarrow> Panic (err_text e)
     | (None, t) \<Rightarrow>
         Ok (AddWatchReactor ''*'' tracker_Watch (AddReactor ''*'' ''*'' (ObjectReaction patched)
           \<lparr>fk_actions = [], fk_ReactionChain = [], fk_WatchReactionChain = [], fk_tracker = t\<rparr>)))"

definition clientset_Tracker :: "fake_clientset \<Rightarrow> tracker" where
  "clientset_Tracker cs = fk_tracker cs"

section \<open>The fake client of EventMeshes\<close>

definition empty_mesh :: event_mesh where
  "empty_mesh = \<lparr>em_Name = '''', em_Namespace = '''', em_UID = '''', em_Generation = 0, em_ResourceVersion = '''', em_Finalizers = [],
     em_DeletionTimestamp = None,
     em_Spec = \<lparr>Kafka = \<lparr>BootstrapServers = [], AuthSecretRef = None, NumPartitions = 0, ReplicationFactor = 0, TopicConfigOptions = []\<rparr>,
       LogLevel = '''', DefaultBroker = '''', DefaultChannel = '''', Features = None, Overrides = None\<rparr>,
     em_Status = \<lparr>st_ObservedGeneration = 0, st_Conditions = [], st_reads = 0\<rparr>\<rparr>"

record fake_meshes =
  fm_ns :: string
  fm_resource :: gvr
  fm_kind :: gvk

definition newFakeEventMeshes :: "string \<Rightarrow> fake_meshes" where
  "newFakeEventMeshes namespace = \<lparr>fm_ns = namespace,
     fm_resource = \<lparr>gvr_Group = fst SchemeGroupVersion, gvr_Version = snd SchemeGroupVersion, gvr_Resource = ''eventmeshes''\<rparr>,
     fm_kind = WithKind SchemeGroupVersion ''EventMesh''\<rparr>"

text \<open>\<^verbatim>\<open>FakeOperatorV1alpha1\<close> only carries the fake on to the client of a namespace.\<close>

definition fake_EventMeshes :: "string \<Rightarrow> fake_meshes" where
  "fake_EventMeshes namespace = newFakeEventMeshes namespace"

text \<open>The type assertion on what came back; the caller gets the empty result with an error.\<close>

definition as_mesh :: "runtime_object option \<times> go_error option \<Rightarrow> (go_error + event_mesh) res" where
  "as_mesh ret = (case ret of
       (None, Some e) \<Rightarrow> Ok (Inl e)
     | (None, None) \<Rightarrow> Ok (Inr empty_mesh)
     | (Some (MeshObject em), None) \<Rightarrow> Ok (Inr em)
     | (Some (MeshObject em), Some e) \<Rightarrow> Ok (Inl e)
     | _ \<Rightarrow> Panic ''interface conversion'')"

definition invoke_mesh :: "action \<Rightarrow> fake_clientset \<Rightarrow> (go_error + event_mesh) res \<times> fake_clientset" where
  "invoke_mesh a cs = (case Invokes a (MeshObject empty_mesh) cs of (ret, cs') \<Rightarrow> (as_mesh ret, cs'))"

definition fake_Get :: "fake_meshes \<Rightarrow> string \<Rightarrow> fake_clientset \<Rightarrow> (go_error + event_mesh) res \<times> fake_clientset" where
  "fake_Get c n cs = invoke_mesh (GetAction (fm_resource c) (fm_ns c) n) cs"

definition fake_Create :: "fake_meshes \<Rightarrow> event_mesh \<Rightarrow> fake_clientset \<Rightarrow> (go_error + event_mesh) res \<times> fake_clientset" where
  "fake_Create c em cs = invoke_mesh (CreateAction (fm_resource c) '''' (fm_ns c) (MeshObject em)) cs"

definition fake_Update :: "fake_meshes \<Rightarrow> event_mesh \<Rightarrow> fake_clientset \<Rightarrow> (go_error + event_mesh) res \<times> fake_clientset" where
  "fake_Update c em cs = invoke_mesh (UpdateAction (fm_resource c) '''' (fm_ns c) (MeshObject em)) cs"

definition fake_UpdateStatus :: "fake_meshes \<Rightarrow> event_mesh \<Rightarrow> fake_clientset \<Rightarrow> (go_error + event_mesh) res \<times> fake_clientset" where
  "fake_UpdateStatus c em cs = invoke_mesh (UpdateAction (fm_resource c) ''status'' (fm_ns c) (MeshObject em)) cs"

definition fake_Patch :: "fake_meshes \<Rightarrow> string \<Rightarrow> string \<Rightarrow> string \<Rightarrow> string list \<Rightarrow> fake_clientset \<Rightarrow> (go_error + event_mesh) res \<times> fake_clientset" where
  "fake_Patch c n pt data subs cs = invoke_mesh (PatchAction (fm_resource c) (fm_ns c) n pt data subs) cs"

definition fake_Delete :: "fake_meshes \<Rightarrow> string \<Rightarrow> fake_clientset \<Rightarrow> go_error option \<times> fake_clientset" where
  "fake_Delete c n cs = (case Invokes (DeleteAction (fm_resource c) (fm_ns c) n) (MeshObject empty_mesh) cs of ((_, e), cs') \<Rightarrow> (e, cs'))"

definition fake_DeleteCollection :: "fake_meshes \<Rightarrow> fake_clientset \<Rightarrow> go_error option \<times> fake_clientset" where
  "fake_DeleteCollection c cs = (case Invokes (DeleteCollectionAction (fm_resource c) (fm_ns c)) (MeshListObject []) cs of ((_, e), cs') \<Rightarrow> (e, cs'))"

text \<open>\<open>label\<close> is the label selector of the options, which decides for a mesh; \<open>None\<close> when there is none.\<close>

definition fake_List :: "fake_meshes \<Rightarrow> (event_mesh \<Rightarrow> bool) option \<Rightarrow> fake_clientset \<Rightarrow> (go_error + event_mesh list) res \<times> fake_clientset" where
  "fake_List c label cs = (case Invokes (ListAction (fm_resource c) (fm_kind c) (fm_ns c)) (MeshListObject []) cs of
       ((None, Some e), cs') \<Rightarrow> (Ok (Inl e), cs')
     | ((None, None), cs') \<Rightarrow> (Ok (Inr []), cs')
     | ((Some (MeshListObject ems), err), cs') \<Rightarrow> (case label of
           None \<Rightarrow> (Ok (Inr ems), cs')
         | Some matches \<Rightarrow> (Ok (case err of Some e \<Rightarrow> Inl e | None \<Rightarrow> Inr (filter matches ems)), cs'))
     | (_, cs') \<Rightarrow> (Panic ''interface conversion'', cs'))"

fun watch_chain :: "(string \<times> (gvr \<Rightarrow> string \<Rightarrow> tracker \<Rightarrow> nat \<times> tracker)) list \<Rightarrow> gvr \<Rightarrow> string \<Rightarrow> tracker \<Rightarrow> (go_error + nat) \<times> tracker" where
  "watch_chain [] r ns t = (Inl (ErrMsg ''unhandled watch''), t)"
| "watch_chain ((resource, react) # rs) r ns t =
     (if resourceCovers resource (WatchAction r ns) then (case react r ns t of (w, t') \<Rightarrow> (Inr w, t')) else watch_chain rs r ns t)"

definition fake_Watch :: "fake_meshes \<Rightarrow> fake_clientset \<Rightarrow> (go_error + nat) \<times> fake_clientset" where
  "fake_Watch c cs = (case watch_chain (fk_WatchReactionChain cs) (fm_resource c) (fm_ns c) (fk_tracker cs) of
     (w, t) \<Rightarrow> (w, cs\<lparr>fk_actions := fk_actions cs @ [WatchAction (fm_resource c) (fm_ns c)], fk_tracker := t\<rparr>))"


section \<open>Injection\<close>

text \<open>
  The injection fakes put a fake client set into the context, given the outcome of building it, and
  build factories and informers as the real ones do.
\<close>

definition fake_With :: "'c res \<Rightarrow> ('c, 'o) inj_context \<Rightarrow> (('c, 'o) inj_context \<times> 'c) res" where
  "fake_With built ctx = bind_res built (\<lambda>cs. Ok (ctx\<lparr>ic_client := Some cs\<rparr>, cs))"

definition fake_withClient :: "'c res \<Rightarrow> ('c, 'o) inj_context \<Rightarrow> ('c, 'o) inj_context res" where
  "fake_withClient built ctx = bind_res (fake_With built ctx) (\<lambda>(ctx', _). Ok ctx')"

definition fake_client_Get :: "('c, 'o) inj_context \<Rightarrow> 'c res" where
  "fake_client_Get ctx = (case ic_client ctx of
       None \<Rightarrow> Panic ''Unable to fetch fake.Clientset from context.''
     | Some cs \<Rightarrow> Ok cs)"

definition fake_withInformerFactory :: "('c, 'o) inj_context \<Rightarrow> ('c, 'o) inj_context res" where
  "fake_withInformerFactory ctx = bind_res (fake_client_Get ctx) (\<lambda>c.
     Ok (ctx\<lparr>ic_factory := Some (NewSharedInformerFactoryWithOptions c (ic_resync ctx) (scope_options ctx))\<rparr>))"

fun fake_filtered_loop :: "(string \<Rightarrow> 'o \<Rightarrow> 'o) \<Rightarrow> 'c \<Rightarrow> string list \<Rightarrow> ('c, 'o) inj_context \<Rightarrow> ('c, 'o) inj_context" where
  "fake_filtered_loop set_selector c [] ctx = ctx"
| "fake_filtered_loop set_selector c (selector # selectors) ctx =
     fake_filtered_loop set_selector c selectors
       (ctx\<lparr>ic_filtered := AList.update selector
          (NewSharedInformerFactoryWithOptions c (ic_resync ctx)
             (scope_options ctx @ [WithTweakListOptions (Some (set_selector selector))])) (ic_filtered ctx)\<rparr>)"

definition fake_withFilteredInformerFactory :: "(string \<Rightarrow> 'o \<Rightarrow> 'o) \<Rightarrow> ('c, 'o) inj_context \<Rightarrow> ('c, 'o) inj_context res" where
  "fake_withFilteredInformerFactory set_selector ctx = bind_res (fake_client_Get ctx) (\<lambda>c. (case ic_selectors ctx of
       None \<Rightarrow> Panic ''Unable to fetch labelkey from context.''
     | Some selectors \<Rightarrow> Ok (fake_filtered_loop set_selector c selectors ctx)))"

definition fake_withInformer :: "('c, 'o) inj_context \<Rightarrow> (('c, 'o) informer \<times> ('c, 'o) inj_context) res" where
  "fake_withInformer ctx = bind_res (factory_Get ctx) (\<lambda>f.
     (let inf = EventMeshes (V1alpha1 (Operator_group f)) in
      case Informer inf f of (i, f') \<Rightarrow> Ok (i, ctx\<lparr>ic_informer := Some inf, ic_factory := Some f'\<rparr>)))"

fun fake_filtered_informer_loop :: "string list \<Rightarrow> ('c, 'o) inj_context \<Rightarrow> (('c, 'o) informer list \<times> ('c, 'o) inj_context) res" where
  "fake_filtered_informer_loop [] ctx = Ok ([], ctx)"
| "fake_filtered_informer_loop (selector # selectors) ctx = bind_res (filtered_Get selector ctx) (\<lambda>f.
     (let inf = EventMeshes (V1alpha1 (Operator_group f)) in
      case Informer inf f of (i, f') \<Rightarrow>
        bind_res (fake_filtered_informer_loop selectors
            (ctx\<lparr>ic_filtered_informers := AList.update selector inf (ic_filtered_informers ctx),
                 ic_filtered := AList.update selector f' (ic_filtered ctx)\<rparr>))
          (\<lambda>(infs, ctx'). Ok (i # infs, ctx'))))"

definition fake_withFilteredInformer :: "('c, 'o) inj_context \<Rightarrow> (('c, 'o) informer list \<times> ('c, 'o) inj_context) res" where
  "fake_withFilteredInformer ctx = (case ic_selectors ctx of
       None \<Rightarrow> Panic ''Unable to fetch labelkey from context.''
     | Some selectors \<Rightarrow> fake_filtered_informer_loop selectors ctx)"

lemma fake_filtered_loop_same: "fake_filtered_loop set_selector c sels ctx = filtered_loop set_selector c sels ctx"
  by (induction sels arbitrary: ctx) simp_all

lemma fake_filtered_informer_loop_same: "fake_filtered_informer_loop sels ctx = filtered_informer_loop sels ctx"
  by (induction sels arbitrary: ctx) simp_all

text \<open>
  Code under test gets the informers it gets in production: on a context with a client, the fake and
  the real injection build the same factories and informers, also restricted to selectors.
\<close>

theorem fake_injection_same:
  assumes "ic_client ctx = Some c"
  shows "fake_withInformerFactory ctx = withInformerFactory ctx \<and>
    fake_withFilteredInformerFactory set_selector ctx = withFilteredInformerFactory set_selector ctx \<and>
    fake_withInformer ctx = withInformer ctx \<and> fake_withFilteredInformer ctx = withFilteredInformer ctx"
  using assms
  by (simp add: fake_withInformerFactory_def withInformerFactory_def fake_withFilteredInformerFactory_def withFilteredInformerFactory_def
      fake_withInformer_def withInformer_def fake_withFilteredInformer_def withFilteredInformer_def fake_client_Get_def client_Get_def
      fake_filtered_loop_same fake_filtered_informer_loop_same split: option.split)

section \<open>What the fake stores\<close>

definition meshes_gvr :: gvr where
  "meshes_gvr = \<lparr>gvr_Group = ''operator.knative.dev'', gvr_Version = ''v1alpha1'', gvr_Resource = ''eventmeshes''\<rparr>"

lemma newFakeEventMeshes_sel [simp]:
  "fm_resource (newFakeEventMeshes ns) = meshes_gvr" "fm_ns (newFakeEventMeshes ns) = ns"
  by (simp_all add: newFakeEventMeshes_def meshes_gvr_def SchemeGroupVersion_def)

definition mesh_objects :: "((string \<times> string) \<times> runtime_object) list \<Rightarrow> bool" where
  "mesh_objects objs \<longleftrightarrow> distinct (map fst objs) \<and> (\<forall>(k, obj)\<in>set objs. \<exists>em. obj = MeshObject em \<and> k = mesh_key em)"

definition fake_inv :: "(string \<Rightarrow> string \<Rightarrow> runtime_object \<Rightarrow> runtime_object res) \<Rightarrow> fake_clientset \<Rightarrow> bool" where
  "fake_inv patched cs \<longleftrightarrow> fk_ReactionChain cs = [\<lparr>rt_Verb = ''*'', rt_Resource = ''*'', rt_Reaction = ObjectReaction patched\<rparr>] \<and>
     mesh_objects (objects_of meshes_gvr (fk_tracker cs))"

text \<open>The meshes that the fake holds under the resource its client reads.\<close>

definition held_meshes :: "tracker \<Rightarrow> string \<times> string \<Rightarrow> event_mesh option" where
  "held_meshes t k = (case map_of (objects_of meshes_gvr t) k of Some (MeshObject em) \<Rightarrow> Some em | _ \<Rightarrow> None)"

lemma objects_of_put [simp]: "objects_of r (put_objects r' objs t) = (if r = r' then objs else objects_of r t)"
  by (simp add: objects_of_def put_objects_def map_of_update)

lemma objects_of_send [simp]: "objects_of r (send_event ws ev t) = objects_of r t"
  by (simp add: objects_of_def send_event_def)

lemma tracker_scheme [simp]: "tr_scheme (put_objects r objs t) = tr_scheme t" "tr_scheme (send_event ws ev t) = tr_scheme t"
  by (simp_all add: put_objects_def send_event_def)

lemma mesh_objects_lookup:
  assumes "mesh_objects objs" "map_of objs k = Some obj"
  obtains em where "obj = MeshObject em" "mesh_key em = k"
  using assms by (auto simp: mesh_objects_def dest!: map_of_SomeD)

lemma mesh_objects_update:
  assumes "mesh_objects objs" "mesh_key em = k"
  shows "mesh_objects (AList.update k (MeshObject em) objs)"
  using assms set_update_subset [of k "MeshObject em" objs] by (auto simp: mesh_objects_def distinct_update)

lemma mesh_objects_delete: "mesh_objects objs \<Longrightarrow> mesh_objects (AList.delete k objs)"
  using distinct_delete [of objs k] by (auto simp: mesh_objects_def AList.delete_eq)

lemma held_None: "mesh_objects (objects_of meshes_gvr t) \<Longrightarrow> held_meshes t k = None \<longleftrightarrow> map_of (objects_of meshes_gvr t) k = None"
  by (auto simp: held_meshes_def elim: mesh_objects_lookup split: option.splits runtime_object.splits)

lemma held_Some: "map_of (objects_of meshes_gvr t) k = Some (MeshObject em) \<Longrightarrow> held_meshes t k = Some em"
  by (simp add: held_meshes_def)

section \<open>The fake as a map\<close>

datatype mesh_op = OpGet string | OpCreate event_mesh | OpUpdate event_mesh | OpUpdateStatus event_mesh | OpDelete string | OpDeleteCollection

text \<open>A verb returns a mesh or an error, or only an error.\<close>

datatype op_result = Returned "go_error + event_mesh" | Finished "go_error option"

fun run_op :: "string \<times> mesh_op \<Rightarrow> fake_clientset \<Rightarrow> op_result res \<times> fake_clientset" where
  "run_op (ns, OpGet n) cs = (case fake_Get (fake_EventMeshes ns) n cs of (r, cs') \<Rightarrow> (bind_res r (\<lambda>x. Ok (Returned x)), cs'))"
| "run_op (ns, OpCreate em) cs = (case fake_Create (fake_EventMeshes ns) em cs of (r, cs') \<Rightarrow> (bind_res r (\<lambda>x. Ok (Returned x)), cs'))"
| "run_op (ns, OpUpdate em) cs = (case fake_Update (fake_EventMeshes ns) em cs of (r, cs') \<Rightarrow> (bind_res r (\<lambda>x. Ok (Returned x)), cs'))"
| "run_op (ns, OpUpdateStatus em) cs = (case fake_UpdateStatus (fake_EventMeshes ns) em cs of (r, cs') \<Rightarrow> (bind_res r (\<lambda>x. Ok (Returned x)), cs'))"
| "run_op (ns, OpDelete n) cs = (case fake_Delete (fake_EventMeshes ns) n cs of (e, cs') \<Rightarrow> (Ok (Finished e), cs'))"
| "run_op (ns, OpDeleteCollection) cs = (case fake_DeleteCollection (fake_EventMeshes ns) cs of (e, cs') \<Rightarrow> (Ok (Finished e), cs'))"

fun run_ops :: "(string \<times> mesh_op) list \<Rightarrow> fake_clientset \<Rightarrow> op_result res list \<times> fake_clientset" where
  "run_ops [] cs = ([], cs)"
| "run_ops (op # ops) cs = (case run_op op cs of (r, cs1) \<Rightarrow> case run_ops ops cs1 of (rs, cs2) \<Rightarrow> (r # rs, cs2))"

definition not_found :: "string \<Rightarrow> go_error" where
  "not_found n = APINotFound (''eventmeshes.operator.knative.dev '' @ quoted n)"

definition wrong_namespace :: "string \<Rightarrow> event_mesh \<Rightarrow> go_error option" where
  "wrong_namespace ns em = (if em_Namespace em \<in> {'''', ns} then None
     else Some (APIError (''request namespace does not match object namespace, request: '' @ quoted ns @ '' object: '' @ quoted (em_Namespace em))))"

text \<open>
  The specification: a map from namespace and name to meshes. An update, of the status too, replaces
  the whole mesh; deleting a collection deletes nothing.
\<close>

fun spec_update :: "string \<Rightarrow> event_mesh \<Rightarrow> (string \<times> string \<rightharpoonup> event_mesh) \<Rightarrow> op_result \<times> (string \<times> string \<rightharpoonup> event_mesh)" where
  "spec_update ns em M = (case wrong_namespace ns em of
       Some e \<Rightarrow> (Returned (Inl e), M)
     | None \<Rightarrow> (case M (ns, em_Name em) of
           None \<Rightarrow> (Returned (Inl (not_found (em_Name em))), M)
         | Some _ \<Rightarrow> (Returned (Inr (em\<lparr>em_Namespace := ns\<rparr>)), M((ns, em_Name em) \<mapsto> em\<lparr>em_Namespace := ns\<rparr>))))"

fun spec_op :: "string \<times> mesh_op \<Rightarrow> (string \<times> string \<rightharpoonup> event_mesh) \<Rightarrow> op_result \<times> (string \<times> string \<rightharpoonup> event_mesh)" where
  "spec_op (ns, OpGet n) M = (Returned (case M (ns, n) of None \<Rightarrow> Inl (not_found n) | Some em \<Rightarrow> Inr em), M)"
| "spec_op (ns, OpCreate em) M = (case wrong_namespace ns em of
       Some e \<Rightarrow> (Returned (Inl e), M)
     | None \<Rightarrow> (case M (ns, em_Name em) of
           None \<Rightarrow> (Returned (Inr (em\<lparr>em_Namespace := ns\<rparr>)), M((ns, em_Name em) \<mapsto> em\<lparr>em_Namespace := ns\<rparr>))
         | Some _ \<Rightarrow> (Returned (Inl (APIError (''eventmeshes.operator.knative.dev '' @ quoted (em_Name em) @ '' already exists''))), M)))"
| "spec_op (ns, OpUpdate em) M = spec_update ns em M"
| "spec_op (ns, OpUpdateStatus em) M = spec_update ns em M"
| "spec_op (ns, OpDelete n) M = (case M (ns, n) of None \<Rightarrow> (Finished (Some (not_found n)), M) | Some _ \<Rightarrow> (Finished None, M((ns, n) := None)))"
| "spec_op (ns, OpDeleteCollection) M = (Finished None, M)"

fun spec_ops :: "(string \<times> mesh_op) list \<Rightarrow> (string \<times> string \<rightharpoonup> event_mesh) \<Rightarrow> op_result list \<times> (string \<times> string \<rightharpoonup> event_mesh)" where
  "spec_ops [] M = ([], M)"
| "spec_ops (op # ops) M = (case spec_op op M of (r, M1) \<Rightarrow> case spec_ops ops M1 of (rs, M2) \<Rightarrow> (r # rs, M2))"

lemma meshes_errors:
  "NewNotFound (gvr_GroupResource meshes_gvr) n = not_found n"
  "NewAlreadyExists (gvr_GroupResource meshes_gvr) n = APIError (''eventmeshes.operator.knative.dev '' @ quoted n @ '' already exists'')"
  by (simp_all add: NewNotFound_def NewAlreadyExists_def not_found_def gvr_GroupResource_def GroupResource_String_def meshes_gvr_def)

lemma Invokes_fake:
  assumes "fake_inv patched cs"
  shows "Invokes a def cs = (case ObjectReaction patched a (fk_tracker cs) of
     ((handled, ret, err), t) \<Rightarrow> (if handled then (ret, err) else (Some def, None), cs\<lparr>fk_actions := fk_actions cs @ [a], fk_tracker := t\<rparr>))"
  using assms by (simp add: Invokes_def fake_inv_def reactor_Handles_def resourceCovers_def split: prod.split)

lemma tracker_add_mesh:
  assumes "em_Namespace em = '''' \<or> em_Namespace em = ns"
  shows "tracker_add r (MeshObject em) ns rep t =
    (let obj = MeshObject (em\<lparr>em_Namespace := ns\<rparr>); k = (ns, em_Name em); t1 = put_objects r (objects_of r t) t in
     if map_of (objects_of r t) k \<noteq> None then
       if rep then (None, put_objects r (AList.update k obj (objects_of r t)) (send_event (getWatches r ns t) (WatchModified obj) t1))
       else (Some (NewAlreadyExists (gvr_GroupResource r) (em_Name em)), t1)
     else if rep then (Some (NewNotFound (gvr_GroupResource r) (em_Name em)), t1)
     else (None, send_event (getWatches r ns t) (WatchAdded obj) (put_objects r (AList.update k obj (objects_of r t)) t1)))"
proof -
  have "(if em_Namespace em = '''' then SetNamespace ns (MeshObject em) else MeshObject em) = MeshObject (em\<lparr>em_Namespace := ns\<rparr>)"
    "(if em_Namespace em = '''' then ns else em_Namespace em) = ns" using assms by auto
  then show ?thesis by (simp add: tracker_add_def Let_def del: SetNamespace.simps)
qed

text \<open>Adding a mesh, in the terms of the map.\<close>

lemma add_mesh:
  assumes "mesh_objects (objects_of meshes_gvr t)" "add_and_get meshes_gvr ns (MeshObject em) rep t = (ret, t')"
  defines "em' \<equiv> em\<lparr>em_Namespace := ns\<rparr>"
  shows "mesh_objects (objects_of meshes_gvr t') \<and>
    (case wrong_namespace ns em of
       Some e \<Rightarrow> ret = (True, None, Some e) \<and> held_meshes t' = held_meshes t
     | None \<Rightarrow>
         if (held_meshes t (ns, em_Name em) \<noteq> None) = rep
         then ret = (True, Some (MeshObject em'), None) \<and> held_meshes t' = (held_meshes t)((ns, em_Name em) \<mapsto> em')
         else ret = (True, None, Some (if rep then NewNotFound (gvr_GroupResource meshes_gvr) (em_Name em)
                else NewAlreadyExists (gvr_GroupResource meshes_gvr) (em_Name em))) \<and> held_meshes t' = held_meshes t)"
proof (cases "wrong_namespace ns em")
  case (Some e)
  then show ?thesis using assms(1,2)
    by (auto simp: wrong_namespace_def add_and_get_def tracker_add_def NewBadRequest_def split: if_splits)
next
  case None
  then have ns: "em_Namespace em = '''' \<or> em_Namespace em = ns" by (auto simp: wrong_namespace_def split: if_splits)
  let ?o = "objects_of meshes_gvr t" and ?k = "(ns, em_Name em)"
  have upd: "mesh_objects (AList.update ?k (MeshObject em') ?o)" by (rule mesh_objects_update [OF assms(1)]) (simp add: mesh_key_def em'_def)
  have held: "held_meshes t2 = (held_meshes t)(?k \<mapsto> em')" if "objects_of meshes_gvr t2 = AList.update ?k (MeshObject em') ?o" for t2
    by (rule ext) (simp add: held_meshes_def that map_of_update)
  have same: "held_meshes t2 = held_meshes t" if "objects_of meshes_gvr t2 = ?o" for t2 by (rule ext) (simp add: held_meshes_def that)
  obtain e t1 where a: "tracker_add meshes_gvr (MeshObject em) ns rep t = (e, t1)" by (metis surj_pair)
  have e: "if (map_of ?o ?k \<noteq> None) = rep then e = None \<and> objects_of meshes_gvr t1 = AList.update ?k (MeshObject em') ?o
      else e = Some (if rep then NewNotFound (gvr_GroupResource meshes_gvr) (em_Name em)
                else NewAlreadyExists (gvr_GroupResource meshes_gvr) (em_Name em)) \<and> objects_of meshes_gvr t1 = ?o"
  proof (cases "map_of ?o ?k = None"; cases rep)
    assume c: "map_of ?o ?k = None" rep
    show ?thesis using a unfolding tracker_add_mesh [OF ns] Let_def c by (auto simp: c)
  next
    assume c: "map_of ?o ?k = None" "\<not> rep"
    show ?thesis using a unfolding tracker_add_mesh [OF ns] Let_def c by (auto simp: c em'_def)
  next
    assume c: "map_of ?o ?k \<noteq> None" rep
    show ?thesis using a unfolding tracker_add_mesh [OF ns] Let_def if_P [OF c(1)] if_P [OF c(2)] using c by (auto simp: em'_def)
  next
    assume c: "map_of ?o ?k \<noteq> None" "\<not> rep"
    show ?thesis using a unfolding tracker_add_mesh [OF ns] Let_def if_P [OF c(1)] using c by (auto simp: em'_def)
  qed
  have r: "(ret, t') = (case e of Some e \<Rightarrow> ((True, None, Some e), t1) | None \<Rightarrow> (answer (tracker_Get meshes_gvr ns (em_Name em) t1), t1))"
    using assms(2) a by (simp add: add_and_get_def split: option.splits)
  have g: "tracker_Get meshes_gvr ns (em_Name em) t1 = Inr (MeshObject em')" if "objects_of meshes_gvr t1 = AList.update ?k (MeshObject em') ?o"
    by (simp add: tracker_Get_def that map_of_update)
  show ?thesis
  proof (cases "(map_of ?o ?k \<noteq> None) = rep")
    case True
    then have "e = None" "objects_of meshes_gvr t1 = AList.update ?k (MeshObject em') ?o" using e by auto
    then show ?thesis using True None r g held upd held_None [OF assms(1), of ?k] by (simp add: answer_def)
  next
    case False
    then have "e = Some (if rep then NewNotFound (gvr_GroupResource meshes_gvr) (em_Name em)
                else NewAlreadyExists (gvr_GroupResource meshes_gvr) (em_Name em))" "objects_of meshes_gvr t1 = ?o" using e by auto
    moreover have "(held_meshes t ?k \<noteq> None) \<noteq> rep" using False by (simp add: held_None [OF assms(1)])
    ultimately show ?thesis using None r same [of t1] assms(1) by simp
  qed
qed


lemma run_op_refines:
  assumes "fake_inv patched cs" "run_op op cs = (r, cs')"
  shows "fake_inv patched cs' \<and> (r, held_meshes (fk_tracker cs')) = (case spec_op op (held_meshes (fk_tracker cs)) of (x, M) \<Rightarrow> (Ok x, M))"
proof -
  let ?t = "fk_tracker cs"
  have ok: "mesh_objects (objects_of meshes_gvr ?t)" using assms(1) by (simp add: fake_inv_def)
  have inv: "fake_inv patched (cs\<lparr>fk_actions := as, fk_tracker := t\<rparr>)" if "mesh_objects (objects_of meshes_gvr t)" for as t
    using assms(1) that by (simp add: fake_inv_def)
  have upd: ?thesis
    if u: "run_op op cs = (case invoke_mesh (UpdateAction meshes_gvr sub ns (MeshObject em)) cs of (r, cs') \<Rightarrow> (bind_res r (\<lambda>x. Ok (Returned x)), cs'))"
      and s: "spec_op op (held_meshes ?t) = spec_update ns em (held_meshes ?t)" for sub ns em
  proof -
    obtain ret t' where a: "add_and_get meshes_gvr ns (MeshObject em) True ?t = (ret, t')" by (metis surj_pair)
    have r: "r = bind_res (as_mesh (if fst ret then snd ret else (Some (MeshObject empty_mesh), None))) (\<lambda>x. Ok (Returned x))"
      "fk_tracker cs' = t'" "fake_inv patched cs'"
      using assms(2) u a inv add_mesh [OF ok a] by (auto simp: invoke_mesh_def Invokes_fake [OF assms(1)] split: prod.splits)
    show ?thesis
    proof (cases "wrong_namespace ns em")
      case None
      then show ?thesis using add_mesh [OF ok a] r s
        by (cases "held_meshes ?t (ns, em_Name em)") (auto simp: as_mesh_def meshes_errors)
    qed (use add_mesh [OF ok a] r s in \<open>auto simp: as_mesh_def\<close>)
  qed
  obtain ns o' where op: "op = (ns, o')" by fastforce
  show ?thesis
  proof (cases o')
    case (OpGet n)
    then show ?thesis using assms(2) inv [OF ok] held_None [OF ok, of "(ns, n)"]
      by (auto simp: op fake_EventMeshes_def fake_Get_def invoke_mesh_def Invokes_fake [OF assms(1)] tracker_Get_def answer_def as_mesh_def
          meshes_errors held_meshes_def elim!: mesh_objects_lookup [OF ok] split: option.splits)
  next
    case (OpCreate em)
    obtain ret t' where a: "add_and_get meshes_gvr ns (MeshObject em) False ?t = (ret, t')" by (metis surj_pair)
    have r: "r = bind_res (as_mesh (if fst ret then snd ret else (Some (MeshObject empty_mesh), None))) (\<lambda>x. Ok (Returned x))"
      "fk_tracker cs' = t'" "fake_inv patched cs'"
      using assms(2) OpCreate a inv add_mesh [OF ok a]
      by (auto simp: op fake_EventMeshes_def fake_Create_def invoke_mesh_def Invokes_fake [OF assms(1)] split: prod.splits)
    show ?thesis
    proof (cases "wrong_namespace ns em")
      case None
      then show ?thesis using add_mesh [OF ok a] r OpCreate
        by (cases "held_meshes ?t (ns, em_Name em)") (auto simp: op as_mesh_def meshes_errors)
    qed (use add_mesh [OF ok a] r OpCreate in \<open>auto simp: op as_mesh_def\<close>)
  next
    case (OpUpdate em)
    then show ?thesis using upd [of "''''" ns em] by (simp add: op fake_EventMeshes_def fake_Update_def)
  next
    case (OpUpdateStatus em)
    then show ?thesis using upd [of "''status''" ns em] by (simp add: op fake_EventMeshes_def fake_UpdateStatus_def)
  next
    case (OpDelete n)
    show ?thesis
    proof (cases "map_of (objects_of meshes_gvr ?t) (ns, n)")
      case None
      then show ?thesis using assms(2) OpDelete inv [OF ok] held_None [OF ok, of "(ns, n)"]
        by (auto simp: op fake_EventMeshes_def fake_Delete_def Invokes_fake [OF assms(1)] tracker_Delete_def meshes_errors)
    next
      case (Some obj)
      let ?t' = "send_event (getWatches meshes_gvr ns ?t) (WatchDeleted obj) (put_objects meshes_gvr (AList.delete (ns, n) (objects_of meshes_gvr ?t)) ?t)"
      have "held_meshes ?t' = (held_meshes ?t)((ns, n) := None)" by (rule ext) (simp add: held_meshes_def delete_conv')
      moreover have "mesh_objects (objects_of meshes_gvr ?t')" using mesh_objects_delete [OF ok] by simp
      moreover obtain em where "held_meshes ?t (ns, n) = Some em" using held_None [OF ok, of "(ns, n)"] Some by auto
      ultimately show ?thesis using assms(2) OpDelete inv [of ?t'] Some
        by (auto simp: op fake_EventMeshes_def fake_Delete_def Invokes_fake [OF assms(1)] tracker_Delete_def)
    qed
  next
    case OpDeleteCollection
    then show ?thesis using assms(2) inv [OF ok]
      by (auto simp: op fake_EventMeshes_def fake_DeleteCollection_def Invokes_fake [OF assms(1)])
  qed
qed

lemma run_ops_refines:
  assumes "fake_inv patched cs" "run_ops ops cs = (rs, cs')"
  shows "fake_inv patched cs' \<and> (rs, held_meshes (fk_tracker cs')) = (case spec_ops ops (held_meshes (fk_tracker cs)) of (xs, M) \<Rightarrow> (map Ok xs, M))"
  using assms
proof (induction ops arbitrary: cs rs)
  case (Cons op ops)
  obtain r cs1 where 1: "run_op op cs = (r, cs1)" by (metis surj_pair)
  obtain rs2 where 2: "run_ops ops cs1 = (rs2, cs')" "rs = r # rs2" using Cons.prems(2) 1 by (auto split: prod.splits)
  obtain x M where s: "spec_op op (held_meshes (fk_tracker cs)) = (x, M)" by (metis surj_pair)
  from run_op_refines [OF Cons.prems(1) 1] s have c: "fake_inv patched cs1" "r = Ok x" "held_meshes (fk_tracker cs1) = M" by auto
  from Cons.IH [OF c(1) 2(1)] c 2(2) s show ?case by (auto split: prod.splits)
qed simp


section \<open>Seeding the fake\<close>

definition guessed_gvr :: "(string \<Rightarrow> string) \<Rightarrow> gvk \<Rightarrow> gvr" where
  "guessed_gvr lower g = (let r = UnsafeGuessKindToResource lower g in
     if gvr_Version r = APIVersionInternal then r\<lparr>gvr_Version := ''''\<rparr> else r)"

text \<open>No kind of the scheme is guessed to be the resource of the client.\<close>

lemma registered_guesses:
  assumes "Kind g \<in> set registered_kinds"
  shows "gvr_Resource (UnsafeGuessKindToResource lower g) \<noteq> ''eventmeshes''"
proof -
  have "list_all (\<lambda>k. k \<noteq> '''' \<and> is_ascii k \<and>
      (let n = map ascii_lower k in \<not> HasSuffix n ''endpoints'' \<and> last n \<noteq> CHR ''y'' \<and> (last n = CHR ''s'' \<longrightarrow> n @ ''es'' \<noteq> ''eventmeshes'') \<and> n @ ''s'' \<noteq> ''eventmeshes''))
    registered_kinds" by code_simp
  then show ?thesis using assms by (auto simp: list_all_iff UnsafeGuessKindToResource_def ToLower_def with_resource_def Let_def)
qed

lemma guesses_miss:
  assumes "scheme_view s" "ObjectKinds s ty = Ok gs" "g \<in> set gs"
  shows "guessed_gvr lower g \<noteq> meshes_gvr"
proof -
  have "(ty, gs) \<in> set (typeToGVK s)" using assms(2) by (auto simp: ObjectKinds_def dest: map_of_SomeD split: option.splits)
  then have "Kind g \<in> set registered_kinds" using assms(1,3) by (auto simp: scheme_view_def list_all_iff)
  from registered_guesses [OF this, of lower] have "gvr_Resource (guessed_gvr lower g) \<noteq> ''eventmeshes''"
    by (simp add: guessed_gvr_def Let_def)
  then show ?thesis by (auto simp: meshes_gvr_def)
qed

lemma fake_init_view: "fake_init NewScheme = Ok s \<Longrightarrow> scheme_view s"
  by (rule clientset_scheme) simp

text \<open>Nothing that was added so far is visible to the client.\<close>

definition unseen :: "scheme \<Rightarrow> tracker \<Rightarrow> bool" where
  "unseen s t \<longleftrightarrow> tr_scheme t = s \<and> objects_of meshes_gvr t = []"

lemma tracker_add_other:
  assumes "r \<noteq> meshes_gvr" "unseen s t"
  shows "unseen s (snd (tracker_add r obj ns rep t))"
  using assms by (auto simp: unseen_def tracker_add_def Let_def split: res.split)

lemma try_all_inv:
  assumes "P s" "\<And>x s. x \<in> set xs \<Longrightarrow> P s \<Longrightarrow> P (snd (f x s))"
  shows "P (snd (try_all f xs s))"
  using assms
proof (induction xs arbitrary: s)
  case (Cons x xs)
  obtain e s' where s': "f x s = (e, s')" by (metis surj_pair)
  have "P s'" using Cons.prems(2) [of x s] Cons.prems(1) s' by simp
  then show ?case using Cons s' by (cases e) simp_all
qed simp

lemma tracker_Add_unseen:
  assumes "scheme_view s" "unseen s t"
  shows "unseen s (snd (tracker_Add lower obj t))"
proof -
  have single: "unseen s (snd (tracker_Add_single lower obj t))" if "unseen s t" for obj t
  proof -
    have "unseen s (snd (try_all (add_guessed lower obj ns) gs t))" if "ObjectKinds s (object_type obj) = Ok gs" for ns gs
    proof (rule try_all_inv [where P = "unseen s", OF \<open>unseen s t\<close>])
      fix g t assume "g \<in> set gs" "unseen s t"
      then show "unseen s (snd (add_guessed lower obj ns g t))"
        using tracker_add_other [OF guesses_miss [OF assms(1) that]] by (simp add: add_guessed_def guessed_gvr_def Let_def)
    qed
    then show ?thesis using that by (auto simp: tracker_Add_single_def unseen_def split: res.split)
  qed
  show ?thesis
  proof (cases obj)
    case (MeshListObject items)
    have "unseen s (snd (try_all (\<lambda>em. tracker_Add_single lower (MeshObject em)) items t))"
      by (rule try_all_inv [where P = "unseen s", OF assms(2)]) (rule single)
    then show ?thesis using MeshListObject by simp
  qed (use single assms(2) in simp_all)
qed

lemma seeded:
  assumes "fake_init NewScheme = Ok s" "NewSimpleClientset s lower patched objects = Ok cs"
  shows "fake_inv patched cs" "unseen s (fk_tracker cs)" "held_meshes (fk_tracker cs) = Map.empty"
proof -
  let ?r = "try_all (tracker_Add lower) objects (NewObjectTracker s)"
  have "unseen s (snd ?r)"
    by (rule try_all_inv) (use tracker_Add_unseen [OF fake_init_view [OF assms(1)]] in \<open>auto simp: unseen_def NewObjectTracker_def objects_of_def\<close>)
  moreover have "cs = AddWatchReactor ''*'' tracker_Watch (AddReactor ''*'' ''*'' (ObjectReaction patched)
      \<lparr>fk_actions = [], fk_ReactionChain = [], fk_WatchReactionChain = [], fk_tracker = snd ?r\<rparr>)"
    using assms(2) by (auto simp: NewSimpleClientset_def split: prod.splits option.splits)
  ultimately show u: "unseen s (fk_tracker cs)" and "fake_inv patched cs"
    by (simp_all add: AddWatchReactor_def AddReactor_def fake_inv_def unseen_def mesh_objects_def)
  show "held_meshes (fk_tracker cs) = Map.empty" using u by (auto simp: held_meshes_def unseen_def)
qed

text \<open>
  Claim C35. The fake client set, whatever it was built with, is an empty map to its own client: the results
  of any sequence of reads and writes in any namespaces, errors included, are those of the map, and so is what
  it holds in the end. Updating a status replaces the whole mesh, and deleting a collection deletes
  nothing.
\<close>

theorem fake_client_refines:
  assumes "fake_init NewScheme = Ok s" "NewSimpleClientset s lower patched objects = Ok cs"
    and "run_ops ops cs = (results, cs')"
  shows "\<exists>xs. results = map Ok xs \<and> spec_ops ops Map.empty = (xs, held_meshes (fk_tracker cs'))"
  using run_ops_refines [OF seeded(1) [OF assms(1,2)] assms(3)] seeded(3) [OF assms(1,2)] by (auto split: prod.splits)

text \<open>
  Claim C36. Objects given to \<^verbatim>\<open>NewSimpleClientset\<close> are not found: whatever meshes, alone or in lists, the fake is
  built with, its client answers NotFound to every \<^verbatim>\<open>Get\<close> and an empty list to every \<^verbatim>\<open>List\<close>, since the
  tracker guesses the resource of the kind EventMesh as eventmeshs.
\<close>

theorem seeded_objects_not_found:
  assumes "fake_init NewScheme = Ok s" "NewSimpleClientset s lower patched objects = Ok cs"
  shows "fst (fake_Get (fake_EventMeshes ns) n cs) = Ok (Inl (APINotFound (''eventmeshes.operator.knative.dev '' @ quoted n))) \<and>
    fst (fake_List (fake_EventMeshes ns) label cs) = Ok (Inr [])"
proof -
  note inv = seeded(1) [OF assms] and un = seeded(2) [OF assms]
  have o: "objects_of meshes_gvr (fk_tracker cs) = []" "tr_scheme (fk_tracker cs) = s" using un by (auto simp: unseen_def)
  have sc: "scheme_New s (WithKind SchemeGroupVersion ''EventMeshList'') = Ok EventMeshList_type"
    using fake_init_view [OF assms(1)] by (simp add: scheme_view_def)
  have k: "(fm_kind (newFakeEventMeshes ns))\<lparr>Kind := Kind (fm_kind (newFakeEventMeshes ns)) @ ''List'',
      Version := if Version (fm_kind (newFakeEventMeshes ns)) = '''' then APIVersionInternal else Version (fm_kind (newFakeEventMeshes ns))\<rparr> =
      WithKind SchemeGroupVersion ''EventMeshList''"
    by (simp add: newFakeEventMeshes_def WithKind_def SchemeGroupVersion_def)
  have l: "tracker_List meshes_gvr (fm_kind (newFakeEventMeshes ns)) ns (fk_tracker cs) = Inr (MeshListObject [])"
    unfolding tracker_List_def Let_def k o sc by (simp add: filterByNamespace_def sort_slice_def)
  have "fst (fake_List (fake_EventMeshes ns) label cs) = Ok (Inr [])"
    by (cases label) (simp_all add: fake_EventMeshes_def fake_List_def Invokes_fake [OF inv] l answer_def)
  moreover have "fst (fake_Get (fake_EventMeshes ns) n cs) = Ok (Inl (not_found n))"
    by (simp add: fake_EventMeshes_def fake_Get_def invoke_mesh_def Invokes_fake [OF inv] tracker_Get_def o answer_def as_mesh_def meshes_errors)
  ultimately show ?thesis by (simp add: not_found_def)
qed

lemma sample_clientset:
  "\<exists>s cs. fake_init NewScheme = Ok s \<and> NewSimpleClientset s id (\<lambda>pt d obj. Ok obj) [MeshObject ready_mesh] = Ok cs"
proof (rule clientset_scheme)
  fix s
  assume s: "fake_init NewScheme = Ok s" "scheme_view s"
  have k: "ObjectKinds s EventMesh_type = Ok [GetGroupVersionKind]" using s(2) by (simp add: scheme_view_def)
  have "fst (add_guessed id (MeshObject ready_mesh) (em_Namespace ready_mesh) GetGroupVersionKind (NewObjectTracker s)) = None"
    unfolding add_guessed_def Let_def by (subst tracker_add_mesh) (simp_all add: objects_of_def NewObjectTracker_def Let_def)
  then obtain t where "add_guessed id (MeshObject ready_mesh) (em_Namespace ready_mesh) GetGroupVersionKind (NewObjectTracker s) = (None, t)"
    by (metis prod.collapse)
  then have "tracker_Add id (MeshObject ready_mesh) (NewObjectTracker s) = (None, t)"
    using k by (simp add: tracker_Add_single_def NewObjectTracker_def)
  then show ?thesis using s(1) by (auto simp: NewSimpleClientset_def)
qed

theorem seeded_objects_not_found_witness:
  "\<exists>s cs. NewSimpleClientset s id (\<lambda>pt d obj. Ok obj) [MeshObject ready_mesh] = Ok cs \<and>
     fst (fake_List (fake_EventMeshes '''') None cs) = Ok (Inr [])"
  using sample_clientset seeded_objects_not_found by blast

theorem fake_client_refines_witness:
  "\<exists>s cs rs cs'. NewSimpleClientset s id (\<lambda>pt d obj. Ok obj) [MeshObject ready_mesh] = Ok cs \<and>
     run_ops [(''knative-eventing'', OpCreate ready_mesh), (''knative-eventing'', OpGet ''mesh'')] cs = (rs, cs') \<and>
     rs = [Ok (Returned (Inr ready_mesh)), Ok (Returned (Inr ready_mesh))]"
proof -
  obtain s cs where s: "fake_init NewScheme = Ok s" "NewSimpleClientset s id (\<lambda>pt d obj. Ok obj) [MeshObject ready_mesh] = Ok cs"
    using sample_clientset by blast
  obtain rs cs' where r: "run_ops [(''knative-eventing'', OpCreate ready_mesh), (''knative-eventing'', OpGet ''mesh'')] cs = (rs, cs')"
    by (metis surj_pair)
  have m: "em_Namespace ready_mesh = ''knative-eventing''" "em_Name ready_mesh = ''mesh''" by code_simp+
  have e: "ready_mesh\<lparr>em_Namespace := ''knative-eventing''\<rparr> = ready_mesh" by code_simp
  from fake_client_refines [OF s r] have "rs = [Ok (Returned (Inr ready_mesh)), Ok (Returned (Inr ready_mesh))]"
    by (auto simp: m e wrong_namespace_def)
  with s r show ?thesis by blast
qed

end
