(* ===== verification/Spec2Isabelle.thy ===== *)
theory Spec2Isabelle
  imports Go_Prelude Unstructured Manifestival Versions Conditions Event_Mesh_API
    Config_Transformers Logging_Transformers Workload_Override Manifests
    Dynamic_Informer Scaler Reconciler Generated_Reconciler Work_Queue Controller Informer_Factory Client_Set Deep_Copy
    Webhook Scheme_Registry Typed_Client Fake_Client
begin

text \<open>
  A verification development of the EventMesh operator, a Kubernetes operator in Go that installs Knative
  Eventing and its Kafka broker as one custom resource, the \<^emph>\<open>EventMesh\<close>.

  \<^bold>\<open>The program.\<close> \<^verbatim>\<open>controller.go\<close> (package \<^verbatim>\<open>pkg/reconciler/eventmesh\<close>) subscribes to the informers
  and enqueues the keys of EventMeshes; the work queue of \<^verbatim>\<open>knative.dev/pkg/controller\<close> hands each key to the
  generated reconciler (\<^verbatim>\<open>pkg/client/injection/reconciler\<close>), which reads the mesh from the informer's cache,
  copies it (\<^verbatim>\<open>zz_generated.deepcopy.go\<close>), applies defaults, calls \<^verbatim>\<open>ReconcileKind\<close> (\<^verbatim>\<open>eventmesh.go\<close>) and
  writes the status back. \<^verbatim>\<open>ReconcileKind\<close> runs prechecks, collects manifests with two parsers
  (\<^verbatim>\<open>pkg/manifests\<close>), adds scaling decisions from the scaler (\<^verbatim>\<open>pkg/scaler\<close>), transforms the manifests
  (\<^verbatim>\<open>pkg/manifests/transform\<close>), installs them with manifestival and looks whether the Deployments are
  available. The scaler owns two dynamic informers (\<^verbatim>\<open>pkg/dynamicinformer\<close>) that are set up when the CRDs of
  Brokers and InMemoryChannels appear, and whose events trigger a resync of all meshes. The webhook defaults
  and validates meshes (\<^verbatim>\<open>pkg/apis/operator/v1alpha1\<close>).

  \<^bold>\<open>The theories\<close>, in the order they build on each other; definitions keep the names of the code.

  \<^item> \<open>Go_Prelude\<close>: the parts of Go that all theories share. A call ends in \<open>Ok\<close>, \<open>Err\<close> or \<open>Panic\<close> (type
    \<open>res\<close>); errors are a datatype with wrapping, so \<^verbatim>\<open>errors.Is\<close> is a walk along the chain; maps are association
    lists in the order a \<^verbatim>\<open>range\<close> loop sees them; strings, sorting, number formatting.
  \<^item> \<open>Unstructured\<close>, \<open>Manifestival\<close>: unstructured objects with the nested accessors, and the part of
    the manifestival library the operator calls: filters, transformers, ordering, apply and delete over an API
    client that is a parameter. Locales: \<open>field_store\<close> for reads after updates, \<open>identity_transformers\<close> for what a
    list of transformers keeps of kind, name and namespace.
  \<^item> \<open>Versions\<close> (\<^verbatim>\<open>manifests/version.go\<close>): semantic versions, and which step counts as an upgrade.
  \<^item> \<open>Conditions\<close> (\<^verbatim>\<open>eventmesh_lifecycle.go\<close> and Knative's condition manager): the status as a record,
    every lifecycle call; Ready is true exactly when both dependents are, in every reachable status.
  \<^item> \<open>Event_Mesh_API\<close> (\<^verbatim>\<open>eventmesh_types.go\<close>, \<^verbatim>\<open>_defaults.go\<close>, \<^verbatim>\<open>_validation.go\<close>, \<^verbatim>\<open>_conversion.go\<close>): the custom
    resource, defaulting, validation with field errors, feature flags.
  \<^item> \<open>Scheme_Convert\<close>: the conversion between unstructured and typed objects, by type descriptions with the
    JSON names and \<^verbatim>\<open>omitempty\<close> marks of the Kubernetes structs.
  \<^item> \<open>Config_Transformers\<close>, \<open>Logging_Transformers\<close>, \<open>Workload_Override\<close> (\<^verbatim>\<open>manifests/transform/\<close>): every
    transformer, with its effect on the addressed object and what it leaves alone; the regular expressions of
    the Kafka logging transformer as a matcher that follows Go's leftmost, greedy semantics for these patterns.
  \<^item> \<open>Manifests\<close> (\<^verbatim>\<open>eventing.go\<close>, \<^verbatim>\<open>kafkabroker.go\<close>, \<^verbatim>\<open>manifests.go\<close>, \<^verbatim>\<open>stages.go\<close>): parsers and stages; the
    installation as an ordered plan that the stage refines.
  \<^item> \<open>Dynamic_Informer\<close> (\<^verbatim>\<open>dynamicinformer.go\<close>): the operations, and a step relation for their interleavings,
    where \<^verbatim>\<open>Stop\<close> takes no lock; loaded listers serve in every reachable state.
  \<^item> \<open>Scaler\<close> (\<^verbatim>\<open>scaler.go\<close>): scale targets, the CRD handler, and the handler that resyncs on the first and the
    last object, with the informer's store running ahead of the notifications. The executions of an informer are
    traces of labelled steps, events of the watch as well as the updates and tombstones of a relist: what
    the handlers are told of leads to a scale-down, a relist can defeat it, and a scale-up can be lost.
  \<^item> \<open>Reconciler\<close> (\<^verbatim>\<open>eventmesh.go\<close>, \<^verbatim>\<open>common/stages.go\<close>, \<^verbatim>\<open>common/errors.go\<close>): the stages, prechecks, scaling and
    Deployment check, composed as the code does.
  \<^item> \<open>Generated_Reconciler\<close> (\<^verbatim>\<open>reconciler.go\<close>, \<^verbatim>\<open>state.go\<close>, the options of \<^verbatim>\<open>controller.go\<close> and Knative's pre- and
    post-processing): leader election, choice of the method, status update with retries, finalizers, events.
  \<^item> \<open>Work_Queue\<close> (\<^verbatim>\<open>two_lane_queue.go\<close> of Knative and \<^verbatim>\<open>util/workqueue\<close> of client-go): the queue with its dirty
    and processing sets, the two lanes, the delaying queue and the back-off, with a step relation for callers,
    goroutines, timers and workers; it refines a set of pending and a set of held keys, and no key is ever stuck.
    Locale \<open>lane_progress\<close>: what a lane offers the workers' queue, interpreted on both lanes.
  \<^item> \<open>Controller\<close> (\<^verbatim>\<open>pkg/reconciler/eventmesh/controller.go\<close> and \<^verbatim>\<open>knative.dev/pkg/controller\<close>): what is enqueued
    when, and what a worker does with a key; a worker's turn is a run of the queue.
  \<^item> \<open>Scheme_Registry\<close> (\<^verbatim>\<open>register.go\<close>): the registration of the types with a scheme. \<open>Typed_Client\<close>
    (\<^verbatim>\<open>pkg/client/listers\<close>, \<^verbatim>\<open>typed/operator/v1alpha1\<close>): the lister over an informer's store and the requests of the
    client. \<open>Fake_Client\<close> (\<^verbatim>\<open>clientset/versioned/fake\<close>, \<^verbatim>\<open>injection/**/fake\<close>): the fake client set over its object
    tracker; to its own verbs it is a map, but the objects it is built with are not found.
  \<^item> \<open>Informer_Factory\<close> (\<^verbatim>\<open>pkg/client/informers\<close>, \<^verbatim>\<open>pkg/client/injection/informers\<close>): the shared informer factory
    with a step relation for calls and goroutines. \<open>Client_Set\<close> (\<^verbatim>\<open>pkg/client/clientset\<close>): construction of the
    typed clients.
  \<^item> \<open>Deep_Copy\<close> (\<^verbatim>\<open>zz_generated.deepcopy.go\<close>): the copies over an explicit memory of cells, for the operator's
    types and the Kubernetes types they contain; a copy shares nothing with its original.

  \<^item> \<open>Webhook\<close> (\<^verbatim>\<open>cmd/webhook/main.go\<close> and Knative's defaulting and validating admission controllers): what a
    request is patched to and when it is let through.

  This theory joins them: what a run of the whole reconciler, from the queue's key to the written status,
  shows and writes when it succeeds, when it fails, and when it has to wait.

  \<^bold>\<open>Interfaces.\<close> Locales state what one component relies on in another, and each is interpreted on the model
  of the code that provides it: nested fields for the transformers, identity-keeping transformers for the
  parsers and the reconciler, the dynamic informer for the scaler, the
  class filter for the notification handler, the informer provider for the generated informers, deep copiers
  for the generated copies.

  \<^bold>\<open>Parameters.\<close> The API client of manifestival with its three-way merge, the typed client, listers, the
  clock, \<^verbatim>\<open>strings.ToLower\<close> outside ASCII, the JSON library, the parsing of resource quantities, the YAML files
  and the unstable order that \<^verbatim>\<open>sort.Slice\<close> gives equal elements are arguments of the definitions. Laws about them
  are named hypotheses (\<open>env_stable\<close>, \<open>sort_ok\<close>, \<open>env_sort_ok\<close>, \<open>json_ok\<close>) and hold for the instances in the witnesses.

  \<^bold>\<open>Loops.\<close> All loops over data are structural recursion. The retry of the status update has the five steps of
  \<^verbatim>\<open>retry.DefaultRetry\<close> as its bound. The two polling loops of the dynamic informer, for the CRD and for
  the cache to sync, may run forever: each is a \<open>partial_function (option)\<close>, and a theorem says exactly when the
  set-up returns. No other fuel is used. Numbers that can
  overflow (replicas of autoscalers, version parts, conversions) are 64-bit words or checked against 64 bits.

  \<^bold>\<open>Not modelled.\<close> The \<^verbatim>\<open>main\<close> functions under \<^verbatim>\<open>cmd\<close> (flag parsing and registration with Knative's \<^verbatim>\<open>sharedmain\<close>), logging
  output, the event recorder's connection (\<^verbatim>\<open>createRecorder\<close>), the conversion functions that are registered with a
  scheme, and the sending of HTTP requests. Of the work queue the token bucket's reservation is a parameter, metrics and
  the capacity of the delaying queue's channel are left out; that a pending key reaches a worker is shown as
  possible from every state, without a fairness assumption on the goroutines.
\<close>

lemma failed_run_same_generation:
  fixes clk lower original
  assumes "wf_status (em_Status original)" "all_present (em_Status original)"
    and "st_ObservedGeneration (em_Status original) = em_Generation original"
  defines "em \<equiv> PreProcessReconcile clk lower original"
  shows "status_DeepEqual (em_Status original) (em_Status (PostProcessReconcile clk em original))"
proof -
  have "em = SetDefaults lower original"
    using assms(2,3) by (simp add: em_def PreProcess_same_generation)
  then have "em_Status em = em_Status original" "em_Generation em = em_Generation original"
    by (simp_all add: SetDefaults_def)
  moreover have "distinct (map c_Type (st_Conditions (em_Status original)))"
    using assms(1) by (simp add: wf_status_def)
  ultimately show ?thesis
    using groom_same [of "em_Status original" "(em_Status em)\<lparr>st_ObservedGeneration := em_Generation em\<rparr>" clk]
    by (simp add: status_DeepEqual_def PostProcess_sel(1) assms(3)) (simp add: PostProcessReconcile_def)
qed

text \<open>The status that a failed run wants to write: what the run was prepared with, groomed.\<close>

lemma failed_run_status:
  fixes r original
  assumes wf: "wf_status (em_Status original)"
  defines "desired \<equiv> PostProcessReconcile (ri_clock r) (PreProcessReconcile (ri_clock r) (ri_lower r) original) original"
  shows "st_ObservedGeneration (em_Status desired) = em_Generation original"
    and "all_present (em_Status desired)"
    and "cond_view (em_Status original) t = Some v \<Longrightarrow>
      t \<noteq> ''Ready'' \<or> st_ObservedGeneration (em_Status original) = em_Generation original \<Longrightarrow>
      cond_view (em_Status desired) t = Some v"
    and "st_ObservedGeneration (em_Status original) = em_Generation original \<Longrightarrow>
      status_DeepEqual (em_Status original) (em_Status desired) \<longleftrightarrow> all_present (em_Status original)"
    and "st_ObservedGeneration (em_Status original) \<noteq> em_Generation original \<Longrightarrow>
      \<not> status_DeepEqual (em_Status original) (em_Status desired) \<and> (\<exists>x\<in>{ConditionFalse, ConditionUnknown}.
        cond_view (em_Status desired) ''Ready'' = Some (x, failedGenerationBump, ''unsuccessfully observed a new generation''))"
proof -
  note pre = PreProcess_status [OF wf, where clk = "ri_clock r" and lower = "ri_lower r"]
  show g: "st_ObservedGeneration (em_Status desired) = em_Generation original" by (simp add: desired_def)
  show all: "all_present (em_Status desired)" using pre(1) by (simp add: desired_def all_present_view)
  show "cond_view (em_Status desired) t = Some v" if "cond_view (em_Status original) t = Some v"
    "t \<noteq> ''Ready'' \<or> st_ObservedGeneration (em_Status original) = em_Generation original"
    using pre(2) [OF that] by (simp add: desired_def)
  show "status_DeepEqual (em_Status original) (em_Status desired) \<longleftrightarrow> all_present (em_Status original)"
    if "st_ObservedGeneration (em_Status original) = em_Generation original"
    using failed_run_same_generation [OF wf _ that] status_DeepEqual_view [of "em_Status original" "em_Status desired"] all
    unfolding all_present_view desired_def by metis
  show "\<not> status_DeepEqual (em_Status original) (em_Status desired) \<and> (\<exists>x\<in>{ConditionFalse, ConditionUnknown}.
        cond_view (em_Status desired) ''Ready'' = Some (x, failedGenerationBump, ''unsuccessfully observed a new generation''))"
    if "st_ObservedGeneration (em_Status original) \<noteq> em_Generation original"
    using pre(3) [OF that] that g by (auto simp: desired_def status_DeepEqual_def)
qed

text \<open>
  Claim C6. What a run shows whose preparation or installation fails, for any well-formed status, the
  empty one of a new mesh included. The status that the run wants written has the current generation
  observed and all three conditions; every condition the mesh had stays as it was, also
  InstallSucceeded, except that for a generation that was not observed before Ready becomes False or
  Unknown with the reason NewObservedGenFailure. For a generation that was observed before and a
  status with all conditions it is the status the mesh has already: nothing is written, the run
  returns the error and records it as one event, and a mesh that was ready stays marked as installed
  and ready. Otherwise the status is written. When that write succeeds the run returns the error of
  the preparation or the installation and records it as one event. When the write fails, the run
  returns the error of the write and records only UpdateFailed: the error that made the run fail is
  recorded nowhere.
\<close>

theorem failed_run_visibility:
  assumes "ri_reconciler r = operator_methods rc" "SplitMetaNamespaceKey key = Some (ns, n)" "IsLeaderFor r ns n"
    and "ri_Lister r ns n = Inr original" "em_DeletionTimestamp original = None" "\<not> ri_skipStatusUpdates r"
    and wf: "wf_status (em_Status original)"
    and em: "em = PreProcessReconcile (ri_clock r) (ri_lower r) original"
    and pre: "runPrechecks rc em = (Ok True, em)"
    and failed: "prepare rc em = Err e \<and> c' = w_state w \<or>
      (\<exists>m. prepare rc em = Ok m \<and> Install (r_sort rc) (r_client rc) (r_manifest rc) m (w_state w) = (Err e, c'))"
    and e: "\<not> IsDeploymentsNotReadyError e" "\<not> IsNonRecoverableError e"
  defines "observed \<equiv> st_ObservedGeneration (em_Status original) = em_Generation original"
    and "reported \<equiv> \<lambda>s. (Ok (Some (PlainError e)),
      record_event ''Warning'' ''InternalError'' (err_text e) (w\<lparr>w_state := s\<rparr>))"
    and "not_written \<equiv> \<lambda>e' s. (Ok (Some (PlainError e')), record_event ''Warning'' ''UpdateFailed''
      (''Failed to update status for '' @ quoted (em_Name original) @ '': '' @ err_text e') (w\<lparr>w_state := s\<rparr>))"
  shows "\<exists>desired. st_ObservedGeneration (em_Status desired) = em_Generation original \<and> all_present (em_Status desired) \<and>
    (\<forall>t v. cond_view (em_Status original) t = Some v \<and> (t \<noteq> ''Ready'' \<or> observed) \<longrightarrow>
       cond_view (em_Status desired) t = Some v) \<and>
    (\<not> observed \<longrightarrow> (\<exists>x\<in>{ConditionFalse, ConditionUnknown}. cond_view (em_Status desired) ''Ready'' =
       Some (x, failedGenerationBump, ''unsuccessfully observed a new generation''))) \<and>
    Reconcile r key w = (if observed \<and> all_present (em_Status original) then reported c'
      else (case updateStatus (ri_Client r) original desired c' of (None, s) \<Rightarrow> reported s | (Some e', s) \<Rightarrow> not_written e' s))"
proof -
  let ?d = "PostProcessReconcile (ri_clock r) em original"
  note d = failed_run_status [OF wf, where r = r, folded em, folded observed_def]
  have rk: "ReconcileKind rc em (w_state w) = (Err e, em, c')"
    by (rule failed_run_keeps_status [OF pre failed e])
  have name: "em_Name ?d = em_Name original"
    by (simp add: em PreProcessReconcile_def SetDefaults_def Let_def)
  have "Reconcile r key w = (if status_DeepEqual (em_Status original) (em_Status ?d) then reported c'
      else (case updateStatus (ri_Client r) original ?d c' of (None, s) \<Rightarrow> reported s | (Some e', s) \<Rightarrow> not_written e' s))"
    using Reconcile_leader [OF assms(1-6) rk [unfolded em], of "Some (PlainError e)"] name
    by (auto simp: em reported_def not_written_def report_event_def Let_def split: prod.split option.split)
  moreover have "status_DeepEqual (em_Status original) (em_Status ?d) \<longleftrightarrow> observed \<and> all_present (em_Status original)"
    using d(4,5) by blast
  ultimately show ?thesis using d(1,2,3,5) by (intro exI [of _ ?d]) auto
qed

text \<open>The EventMesh whose status is written back after a run that installed everything.\<close>

definition installed_mesh :: "'s reconcilerImpl \<Rightarrow> ('s, 'i, 'b) reconciler \<Rightarrow> deployment list \<Rightarrow> event_mesh \<Rightarrow> event_mesh" where
  "installed_mesh r rc ds original = (let em = PreProcessReconcile (ri_clock r) (ri_lower r) original in
     PostProcessReconcile (ri_clock r)
       (em\<lparr>em_Status := MarkInstallSucceeded (r_clock rc) (checked_status (r_clock rc) ds (em_Status em))\<rparr>) original)"

lemma installed_mesh_status:
  assumes "wf_status (em_Status original)"
  shows "st_ObservedGeneration (em_Status (installed_mesh r rc ds original)) = em_Generation original"
    and "cond_view (em_Status (installed_mesh r rc ds original)) ''InstallSucceeded'' = Some (ConditionTrue, '''', '''')"
    and "IsReady (em_Status (installed_mesh r rc ds original)) \<longleftrightarrow> waiting_for ds = []"
  using installed_status_view [OF PreProcess_wf [OF assms], of "r_clock rc" ds]
  by (simp_all add: installed_mesh_def Let_def IsReady_view)

lemma success_run:
  assumes "ri_reconciler r = operator_methods rc" "SplitMetaNamespaceKey key = Some (ns, n)" "IsLeaderFor r ns n"
    and "ri_Lister r ns n = Inr original" "em_DeletionTimestamp original = None" "\<not> ri_skipStatusUpdates r"
    and em: "em = PreProcessReconcile (ri_clock r) (ri_lower r) original"
    and run: "runPrechecks rc em = (Ok True, em)" "prepare rc em = Ok m"
      "Install (r_sort rc) (r_client rc) (r_manifest rc) m (w_state w) = (Ok m', c')"
      "looked_up (r_checked rc) (deployments_of (ToApply m')) = Ok ds"
  shows "Reconcile r key w =
      (if status_DeepEqual (em_Status original) (em_Status (installed_mesh r rc ds original)) then (Ok None, w\<lparr>w_state := c'\<rparr>)
       else case updateStatus (ri_Client r) original (installed_mesh r rc ds original) c' of
           (None, s) \<Rightarrow> (Ok None, w\<lparr>w_state := s\<rparr>)
         | (Some e, s) \<Rightarrow> (Ok (Some (PlainError e)), record_event ''Warning'' ''UpdateFailed''
             (''Failed to update status for '' @ quoted (em_Name original) @ '': '' @ err_text e) (w\<lparr>w_state := s\<rparr>)))"
proof -
  have sel: "em_Name (PreProcessReconcile clk lower original) = em_Name original" for clk lower
    by (simp add: PreProcessReconcile_def SetDefaults_def Let_def)
  show ?thesis
    using Reconcile_leader [OF assms(1-6) installed_run [OF run, unfolded em], of None]
    by (auto simp: em sel installed_mesh_def report_event_def Let_def split: prod.split option.split)
qed

text \<open>
  Claim C1. From a key to the API server: for the leader and an EventMesh that is not being deleted, when the
  prechecks pass, the manifests can be prepared and installed and their Deployments looked up, the
  run writes back a status (unless the cached one already is that status) in which the current
  generation is observed, the installation succeeded, and Ready is true exactly when every
  Deployment of the manifests is available; the key is done unless that write fails.
\<close>

theorem reconcile_success_status:
  assumes "ri_reconciler r = operator_methods rc" "SplitMetaNamespaceKey key = Some (ns, n)" "IsLeaderFor r ns n"
    and "ri_Lister r ns n = Inr original" "em_DeletionTimestamp original = None" "\<not> ri_skipStatusUpdates r"
    and wf: "wf_status (em_Status original)"
    and em: "em = PreProcessReconcile (ri_clock r) (ri_lower r) original"
    and run: "runPrechecks rc em = (Ok True, em)" "prepare rc em = Ok m"
      "Install (r_sort rc) (r_client rc) (r_manifest rc) m (w_state w) = (Ok m', c')"
      "looked_up (r_checked rc) (deployments_of (ToApply m')) = Ok ds"
  shows "\<exists>desired. st_ObservedGeneration (em_Status desired) = em_Generation original \<and>
    cond_view (em_Status desired) ''InstallSucceeded'' = Some (ConditionTrue, '''', '''') \<and>
    (IsReady (em_Status desired) \<longleftrightarrow> waiting_for ds = []) \<and>
    Reconcile r key w =
      (if status_DeepEqual (em_Status original) (em_Status desired) then (Ok None, w\<lparr>w_state := c'\<rparr>)
       else case updateStatus (ri_Client r) original desired c' of
           (None, s) \<Rightarrow> (Ok None, w\<lparr>w_state := s\<rparr>)
         | (Some e, s) \<Rightarrow> (Ok (Some (PlainError e)), record_event ''Warning'' ''UpdateFailed''
             (''Failed to update status for '' @ quoted (em_Name original) @ '': '' @ err_text e) (w\<lparr>w_state := s\<rparr>)))"
  using success_run [OF assms(1-6) em run] installed_mesh_status [OF wf, of r rc ds] by blast

text \<open>
  Claim C16. A failed run is retried: when the manifests cannot be prepared or their installation fails, the
  worker's turn ends with the key pending again, due after the rate limiter's delay, whether or not
  the status could be written and whatever else happened to the queue meanwhile short of shutting it
  down; and from there the key can reach a worker again without anybody's help.
\<close>

theorem failed_run_retried:
  assumes "ri_reconciler r = operator_methods rc" "SplitMetaNamespaceKey (safeKey k) = Some (ns, n)" "IsLeaderFor r ns n"
    and "ri_Lister r ns n = Inr original" "em_DeletionTimestamp original = None" "\<not> ri_skipStatusUpdates r"
    and em: "em = PreProcessReconcile (ri_clock r) (ri_lower r) original"
    and pre: "runPrechecks rc em = (Ok True, em)"
    and failed: "prepare rc em = Err e \<and> c' = w_state w \<or>
      (\<exists>m. prepare rc em = Ok m \<and> Install (r_sort rc) (r_client rc) (r_manifest rc) m (w_state w) = (Err e, c'))"
    and e: "\<not> IsDeploymentsNotReadyError e" "\<not> IsNonRecoverableError e"
    and queue: "wq_trace workers (new_conf t) before qc" "q_Get (qc_queue qc) = (Item k, q1)" "length (qc_busy qc) < workers"
    and others: "wq_trace workers \<lparr>qc_queue = q1, qc_busy = k # qc_busy qc\<rparr> during qc1" "EvDone k \<notin> set during"
      "\<not> q_ShuttingDown (qc_queue qc1)"
  shows "\<exists>q' w' c1 c2. processNextWorkItem r bucket (\<lambda>_. qc_queue qc1) (qc_queue qc) w = Ok (Turned, q', w') \<and>
    q_pending q' = insert k (q_pending (qc_queue qc1)) \<and>
    (k, clock_now (qc_queue qc1) + backoff_spec bucket (failures_of (q_failures (qc_queue qc1)) k)) \<in> set (waitingForAddCh q') \<and>
    quiet_run workers \<lparr>qc_queue = q', qc_busy = remove1 k (qc_busy qc1)\<rparr> c1 \<and> wq_step workers (EvGet k) c1 c2"
proof -
  have rk: "ReconcileKind rc em (w_state w) = (Err e, em, c')"
    by (rule failed_run_keeps_status [OF pre failed e])
  obtain e' w' where rec: "Reconcile r (safeKey k) w = (Ok (Some (PlainError e')), w')"
    using Reconcile_leader [OF assms(1-6) rk [unfolded em], of "Some (PlainError e)"]
    by (auto simp: report_event_def Let_def split: if_splits prod.splits option.splits)
  define q' where "q' = q_Done k (handleErr bucket (PlainError e') k (qc_queue qc1))"
  have p: "processNextWorkItem r bucket (\<lambda>_. qc_queue qc1) (qc_queue qc) w = Ok (Turned, q', w')"
    by (simp add: q'_def process_item(2) [OF queue(2) rec])
  have pending: "q_pending q' = insert k (q_pending (qc_queue qc1))" by (simp add: q'_def handleErr_plain(2) [OF others(3)])
  have due: "(k, clock_now (qc_queue qc1) + backoff_spec bucket (failures_of (q_failures (qc_queue qc1)) k)) \<in> set (waitingForAddCh q')"
    using handleErr_plain(1) [OF others(3)] by (simp add: q'_def q_Done_def)
  obtain evs where "wq_trace workers qc evs \<lparr>qc_queue = q', qc_busy = remove1 k (qc_busy qc1)\<rparr>"
    using turn_is_run [OF queue(2,3) others(1,2) rec, of bucket] p by auto
  from wq_trace_inv [OF wq_trace_append [OF queue(1) this] new_conf_inv(1)]
  have "q_live \<lparr>qc_queue = q', qc_busy = remove1 k (qc_busy qc1)\<rparr>"
    using others(3) by (simp add: q_live_def q'_def q_Done_def q_ShuttingDown_def handleErr_plain_shutdown)
  from pending_key_taken [OF this, of workers k] queue(3) pending
  obtain c1 c2 where "quiet_run workers \<lparr>qc_queue = q', qc_busy = remove1 k (qc_busy qc1)\<rparr> c1" "wq_step workers (EvGet k) c1 c2" by auto
  with p pending due show ?thesis by blast
qed


text \<open>A worker's queue in which a key has come all the way through the fast lane.\<close>

definition arrived_conf :: "key \<Rightarrow> key q_conf" where
  "arrived_conf k = \<lparr>qc_queue = (newTwoLaneWorkQueue 0)\<lparr>consumerQueue := tq_Add k NewTyped\<rparr>, qc_busy = []\<rparr>"

lemma arrived_conf_trace:
  "\<exists>evs. wq_trace n (new_conf 0) evs (arrived_conf k)"
proof -
  define q0 where "q0 = (newTwoLaneWorkQueue 0 :: key work_queue)"
  have a: "wq_step n (EvAdd k) (new_conf 0) ((new_conf 0)\<lparr>qc_queue := q_Add k q0\<rparr>)"
    using wq_step.call_Add [of n k "new_conf 0"] by (simp add: new_conf_def q0_def)
  have f: "lane_step (fastLane (q_Add k q0), Fetching) (NewTyped\<lparr>tq_processing := {k}\<rparr>, Fetched k)"
    by (rule lane_step.fetch) (simp add: q0_def newTwoLaneWorkQueue_def NewTyped_def q_Add_def tq_Add_def tq_Get_def)
  have g: "lane_step (NewTyped\<lparr>tq_processing := {k}\<rparr>, Fetched k) (NewTyped, Sending k)"
    using lane_step.fetched [of "NewTyped\<lparr>tq_processing := {k}\<rparr>" k] by (simp add: tq_Done_def NewTyped_def)
  have b: "wq_step n EvInternal ((new_conf 0)\<lparr>qc_queue := q_Add k q0\<rparr>)
      ((new_conf 0)\<lparr>qc_queue := q0\<lparr>fastLane := NewTyped\<lparr>tq_processing := {k}\<rparr>, fastChan := Fetched k\<rparr>\<rparr>)"
    using wq_step.fast_lane [of "(new_conf 0)\<lparr>qc_queue := q_Add k q0\<rparr>" _ _ n] f
    by (simp add: q0_def newTwoLaneWorkQueue_def q_Add_def)
  have c: "wq_step n EvInternal ((new_conf 0)\<lparr>qc_queue := q0\<lparr>fastLane := NewTyped\<lparr>tq_processing := {k}\<rparr>, fastChan := Fetched k\<rparr>\<rparr>)
      ((new_conf 0)\<lparr>qc_queue := q0\<lparr>fastChan := Sending k\<rparr>\<rparr>)"
    using wq_step.fast_lane [of "(new_conf 0)\<lparr>qc_queue := q0\<lparr>fastLane := NewTyped\<lparr>tq_processing := {k}\<rparr>, fastChan := Fetched k\<rparr>\<rparr>" _ _ n] g
    by (simp add: q0_def newTwoLaneWorkQueue_def)
  have d: "wq_step n EvInternal ((new_conf 0)\<lparr>qc_queue := q0\<lparr>fastChan := Sending k\<rparr>\<rparr>) ((new_conf 0)\<lparr>qc_queue := q0\<lparr>q_consumer := Adding k\<rparr>\<rparr>)"
    using wq_step.consumer [OF consumer_step.take_fast, of "(new_conf 0)\<lparr>qc_queue := q0\<lparr>fastChan := Sending k\<rparr>\<rparr>" k n]
    by (simp add: q0_def newTwoLaneWorkQueue_def)
  have e: "wq_step n EvInternal ((new_conf 0)\<lparr>qc_queue := q0\<lparr>q_consumer := Adding k\<rparr>\<rparr>) (arrived_conf k)"
    using wq_step.consumer [OF consumer_step.add, of "(new_conf 0)\<lparr>qc_queue := q0\<lparr>q_consumer := Adding k\<rparr>\<rparr>" k n]
    by (simp add: q0_def newTwoLaneWorkQueue_def arrived_conf_def new_conf_def)
  show ?thesis
    using wq_trace.extend [OF wq_trace.extend [OF wq_trace.extend [OF wq_trace.extend [OF wq_trace_one [OF a] b] c] d] e] by blast
qed

lemma arrived_conf_Get:
  "q_Get (qc_queue (arrived_conf k)) = (Item k, (newTwoLaneWorkQueue 0)\<lparr>consumerQueue := NewTyped\<lparr>tq_processing := {k}\<rparr>\<rparr>)"
  "q_pending ((newTwoLaneWorkQueue 0)\<lparr>consumerQueue := NewTyped\<lparr>tq_processing := {k}\<rparr>\<rparr>) = {}"
  "\<not> q_ShuttingDown ((newTwoLaneWorkQueue 0)\<lparr>consumerQueue := NewTyped\<lparr>tq_processing := {k}\<rparr>\<rparr>)"
  by (simp_all add: arrived_conf_def newTwoLaneWorkQueue_def q_Get_def tq_Add_def tq_Get_def NewTyped_def q_pending_def q_ShuttingDown_def)

text \<open>A leader over the sample cluster, and a mesh that was reconciled for its current generation.\<close>

definition leader_impl :: "(gobj list, string, string) reconciler \<Rightarrow> event_mesh \<Rightarrow> (gobj list) reconcilerImpl" where
  "leader_impl rc em = (sample_impl [('''', \<lambda>_ _. True)])\<lparr>ri_reconciler := operator_methods rc, ri_Lister := (\<lambda>ns n. Inr em)\<rparr>"

definition observed_mesh :: event_mesh where
  "observed_mesh = ready_mesh\<lparr>em_Status := installed_status\<lparr>st_ObservedGeneration := 1\<rparr>\<rparr>"

lemma leader_impl_sel:
  "ri_reconciler (leader_impl rc em) = operator_methods rc" "IsLeaderFor (leader_impl rc em) ns n"
  "ri_Lister (leader_impl rc em) ns n = Inr em" "\<not> ri_skipStatusUpdates (leader_impl rc em)"
  "ri_clock (leader_impl rc em) = int" "ri_lower (leader_impl rc em) = id"
  "updateStatus (ri_Client (leader_impl rc em)) original desired s = (None, s)"
  by (simp_all add: leader_impl_def sample_impl_def IsLeaderFor_def updateStatus_def numeral_eq_Suc update_attempt_def)

lemma leader_impl_observed:
  "observed_mesh = PreProcessReconcile (ri_clock (leader_impl rc em)) (ri_lower (leader_impl rc em)) observed_mesh"
proof -
  have "PreProcessReconcile int id observed_mesh = observed_mesh" by code_simp
  then show ?thesis by (simp add: leader_impl_sel)
qed

text \<open>A client of the API server that refuses every status.\<close>

definition refusing_impl :: "(gobj list, string, string) reconciler \<Rightarrow> event_mesh \<Rightarrow> (gobj list) reconcilerImpl" where
  "refusing_impl rc em = (leader_impl rc em)\<lparr>ri_Client := (ri_Client (leader_impl rc em))
     \<lparr>ec_UpdateStatus := (\<lambda>em s. (Some (ErrMsg ''forbidden''), s))\<rparr>\<rparr>"

lemma refusing_impl_sel:
  "ri_reconciler (refusing_impl rc em) = operator_methods rc" "IsLeaderFor (refusing_impl rc em) ns n"
  "ri_Lister (refusing_impl rc em) ns n = Inr em" "\<not> ri_skipStatusUpdates (refusing_impl rc em)"
  "ri_clock (refusing_impl rc em) = int" "ri_lower (refusing_impl rc em) = id"
  using leader_impl_sel [of rc em] by (simp_all add: refusing_impl_def IsLeaderFor_def)

lemma refusing_update:
  assumes "\<not> status_DeepEqual (em_Status original) (em_Status desired)"
  shows "updateStatus (ri_Client (refusing_impl rc em)) original desired s = (Some (ErrMsg ''forbidden''), s)"
  using assms
  by (simp add: refusing_impl_def leader_impl_def sample_impl_def updateStatus_def numeral_eq_Suc update_attempt_def)

text \<open>
  A mesh that was observed and ready: its status does not show the failure. A new mesh with an empty
  status, and a server that refuses the status: the failure is not recorded.
\<close>

theorem failed_run_visibility_witness:
  "(\<exists>e. Reconcile (leader_impl broken_reconciler observed_mesh) ''knative-eventing/mesh'' \<lparr>w_state = [], w_recorded = []\<rparr> =
      (Ok (Some (PlainError e)), \<lparr>w_state = [], w_recorded = [(''Warning'', ''InternalError'', err_text e)]\<rparr>)) \<and>
    IsReady (em_Status observed_mesh) \<and>
    Reconcile (refusing_impl broken_reconciler sample_mesh_plain) ''knative-eventing/mesh'' \<lparr>w_state = [], w_recorded = []\<rparr> =
      (Ok (Some (PlainError (ErrMsg ''forbidden''))), \<lparr>w_state = [], w_recorded = [(''Warning'', ''UpdateFailed'',
        ''Failed to update status for '' @ quoted ''mesh'' @ '': forbidden'')]\<rparr>)"
proof (intro conjI)
  have key: "SplitMetaNamespaceKey ''knative-eventing/mesh'' = Some (''knative-eventing'', ''mesh'')" by code_simp
  obtain e where e: "prepare broken_reconciler observed_mesh = Err e" "\<not> IsDeploymentsNotReadyError e" "\<not> IsNonRecoverableError e"
    using broken_prepare by blast
  have k: "em_DeletionTimestamp observed_mesh = None" "wf_status (em_Status observed_mesh)"
    "runPrechecks broken_reconciler observed_mesh = (Ok True, observed_mesh)" "IsReady (em_Status observed_mesh)"
    "st_ObservedGeneration (em_Status observed_mesh) = em_Generation observed_mesh" "all_present (em_Status observed_mesh)"
    by code_simp+
  from failed_run_visibility [OF leader_impl_sel(1) key leader_impl_sel(2,3) k(1) leader_impl_sel(4) k(2)
      leader_impl_observed k(3) _ e(2,3), of "[]" "\<lparr>w_state = [], w_recorded = []\<rparr>"] e(1) k(5,6)
  show "\<exists>e. Reconcile (leader_impl broken_reconciler observed_mesh) ''knative-eventing/mesh'' \<lparr>w_state = [], w_recorded = []\<rparr> =
      (Ok (Some (PlainError e)), \<lparr>w_state = [], w_recorded = [(''Warning'', ''InternalError'', err_text e)]\<rparr>)"
    by (auto simp: record_event_def)
  show "IsReady (em_Status observed_mesh)" by (rule k(4))
  let ?em = "PreProcessReconcile int id sample_mesh_plain"
  obtain e2 where e2: "prepare broken_reconciler ?em = Err e2" "\<not> IsDeploymentsNotReadyError e2" "\<not> IsNonRecoverableError e2"
    using broken_prepare by blast
  have p: "em_DeletionTimestamp sample_mesh_plain = None" "wf_status (em_Status sample_mesh_plain)"
    "runPrechecks broken_reconciler ?em = (Ok True, ?em)"
    "st_ObservedGeneration (em_Status sample_mesh_plain) \<noteq> em_Generation sample_mesh_plain" "em_Name sample_mesh_plain = ''mesh''"
    by code_simp+
  have em: "?em = PreProcessReconcile (ri_clock (refusing_impl rc em)) (ri_lower (refusing_impl rc em)) sample_mesh_plain" for rc em
    by (simp add: refusing_impl_sel)
  note f = failed_run_visibility [OF refusing_impl_sel(1) key refusing_impl_sel(2,3) p(1) refusing_impl_sel(4) p(2)
      em p(3) disjI1 [OF conjI [OF e2(1) refl]] e2(2,3), where w = "\<lparr>w_state = [], w_recorded = []\<rparr>"]
  show "Reconcile (refusing_impl broken_reconciler sample_mesh_plain) ''knative-eventing/mesh'' \<lparr>w_state = [], w_recorded = []\<rparr> =
      (Ok (Some (PlainError (ErrMsg ''forbidden''))), \<lparr>w_state = [], w_recorded = [(''Warning'', ''UpdateFailed'',
        ''Failed to update status for '' @ quoted ''mesh'' @ '': forbidden'')]\<rparr>)"
  proof (rule exE [OF f], goal_cases)
    case (1 desired)
    have "\<not> status_DeepEqual (em_Status sample_mesh_plain) (em_Status desired)"
      using conjunct1 [OF 1] p(4) by (simp add: status_DeepEqual_def)
    note update = refusing_update [OF this]
    show ?case
      using conjunct2 [OF conjunct2 [OF conjunct2 [OF conjunct2 [OF 1]]]]
      by (simp add: p(4,5) update record_event_def)
  qed
qed

theorem failed_run_retried_witness:
  "\<exists>q' w' c1 c2. processNextWorkItem (leader_impl broken_reconciler observed_mesh) 0 (\<lambda>q. q)
      (qc_queue (arrived_conf (''knative-eventing'', ''mesh''))) \<lparr>w_state = [], w_recorded = []\<rparr> = Ok (Turned, q', w') \<and>
    q_pending q' = {(''knative-eventing'', ''mesh'')} \<and> ((''knative-eventing'', ''mesh''), 5000000) \<in> set (waitingForAddCh q') \<and>
    quiet_run 1 \<lparr>qc_queue = q', qc_busy = []\<rparr> c1 \<and> wq_step 1 (EvGet (''knative-eventing'', ''mesh'')) c1 c2"
proof -
  let ?k = "(''knative-eventing'', ''mesh'')"
  obtain e where e: "prepare broken_reconciler observed_mesh = Err e" "\<not> IsDeploymentsNotReadyError e" "\<not> IsNonRecoverableError e"
    using broken_prepare by blast
  have k: "SplitMetaNamespaceKey (safeKey ?k) = Some ?k"
    "em_DeletionTimestamp observed_mesh = None" "runPrechecks broken_reconciler observed_mesh = (Ok True, observed_mesh)"
    by code_simp+
  obtain evs where evs: "wq_trace 1 (new_conf 0) evs (arrived_conf ?k)" using arrived_conf_trace by blast
  have "length (qc_busy (arrived_conf ?k)) < 1" by (simp add: arrived_conf_def)
  from failed_run_retried [OF leader_impl_sel(1) k(1) leader_impl_sel(2,3) k(2) leader_impl_sel(4) leader_impl_observed k(3) _ e(2,3)
      evs arrived_conf_Get(1) this wq_trace.start, of "[]" "\<lparr>w_state = [], w_recorded = []\<rparr>" 0] e(1) arrived_conf_Get
  show ?thesis
    by (auto simp: arrived_conf_def newTwoLaneWorkQueue_def failures_of_def backoff_spec_def processNextWorkItem_def)
qed

definition pre_mesh :: event_mesh where
  "pre_mesh = PreProcessReconcile int id sample_mesh_plain"

lemma pre_mesh_facts:
  "runPrechecks sample_reconciler pre_mesh = (Ok True, pre_mesh)" "em_DeletionTimestamp sample_mesh_plain = None"
  "pre_mesh = PreProcessReconcile (ri_clock (leader_impl rc em)) (ri_lower (leader_impl rc em)) sample_mesh_plain"
  "prepare sample_reconciler pre_mesh = prepare sample_reconciler sample_mesh_plain"
proof -
  have "pre_mesh = sample_mesh_plain\<lparr>em_Status := em_Status pre_mesh\<rparr>" by code_simp
  then show "prepare sample_reconciler pre_mesh = prepare sample_reconciler sample_mesh_plain"
    using prepare_status [where r = sample_reconciler and em = sample_mesh_plain and st = "em_Status pre_mesh"] by simp
  show "pre_mesh = PreProcessReconcile (ri_clock (leader_impl rc em)) (ri_lower (leader_impl rc em)) sample_mesh_plain"
    by (simp add: pre_mesh_def leader_impl_sel)
qed code_simp+

theorem reconcile_success_status_witness:
  "\<exists>c'. Reconcile (leader_impl sample_reconciler sample_mesh_plain) ''knative-eventing/mesh'' \<lparr>w_state = [], w_recorded = []\<rparr> =
     (Ok None, \<lparr>w_state = c', w_recorded = []\<rparr>)"
proof -
  have k: "SplitMetaNamespaceKey ''knative-eventing/mesh'' = Some (''knative-eventing'', ''mesh'')" by code_simp
  obtain m c' ds where run: "prepare sample_reconciler pre_mesh = Ok m"
    "Install (r_sort sample_reconciler) (r_client sample_reconciler) (r_manifest sample_reconciler) m [] =
       (Ok (Sort_manifests (r_sort sample_reconciler) m), c')"
    "looked_up (r_checked sample_reconciler) (deployments_of (ToApply (Sort_manifests (r_sort sample_reconciler) m))) = Ok ds"
    using sample_run_inputs pre_mesh_facts(4) by metis
  from reconcile_success_status [OF leader_impl_sel(1) k leader_impl_sel(2,3) pre_mesh_facts(2) leader_impl_sel(4) sample_wf
      pre_mesh_facts(3,1) run(1), of "\<lparr>w_state = [], w_recorded = []\<rparr>", OF _ run(3)] run(2)
  show ?thesis by (auto simp: leader_impl_sel split: if_splits)
qed



end
